(* ===== verification/VPrelude.thy ===== *)
theory VPrelude
  imports Main "HOL-Library.Word" "HOL-Library.AList"
begin

text \<open>
  Shared vocabulary of the development: the widths of the machine integers the C++ code
  uses, the outcome of a run of a coroutine, and the generic facts on words and lists that
  the components share.

  An operation that can bring the process down or suspend it for ever returns an
  \<open>outcome\<close>: \<open>Done x\<close> is a normal return, \<open>Blocked\<close> a coroutine that waits for a
  mutex nobody will release, \<open>Crashed\<close> a failed \<open>assert\<close>, a call of \<open>std::abort\<close>,
  an access out of range or an exception that the code of the repository does not catch.
\<close>

type_synonym u8 = "8 word"
type_synonym u16 = "16 word"
type_synonym u32 = "32 word"
type_synonym u64 = "64 word"

datatype 'a outcome = Done 'a | Blocked | Crashed

named_theorems msg_defs \<open>unfolding rules of the message constructors\<close>
named_theorems log_simps \<open>rewrite rules of the log component\<close>
named_theorems handler_defs \<open>unfolding rules of the message handlers\<close>

definition co_await :: "'a outcome \<Rightarrow> ('a \<Rightarrow> 'b outcome) \<Rightarrow> 'b outcome" where
  "co_await m f = (case m of Done x \<Rightarrow> f x | Blocked \<Rightarrow> Blocked | Crashed \<Rightarrow> Crashed)"

definition from_option :: "'a option \<Rightarrow> 'a outcome" where
  "from_option x = (case x of None \<Rightarrow> Crashed | Some a \<Rightarrow> Done a)"

text \<open>\<open>std::to_string\<close> on an unsigned integer: its decimal digits.\<close>

definition digit_char :: "nat \<Rightarrow> char" where
  "digit_char d = char_of (48 + d)"

fun nat_digits :: "nat \<Rightarrow> string" where
  "nat_digits n = (if n < 10 then [digit_char n] else nat_digits (n div 10) @ [digit_char (n mod 10)])"

declare nat_digits.simps [simp del]

definition to_string :: "u64 \<Rightarrow> string" where
  "to_string w = nat_digits (unat w)"

text \<open>\<open>std::string::find_last_of(c)\<close>: the greatest position of \<open>c\<close>, \<open>None\<close> for \<open>npos\<close>.\<close>

fun find_last_of :: "char \<Rightarrow> string \<Rightarrow> nat option" where
  "find_last_of c [] = None"
| "find_last_of c (x # xs) =
     (case find_last_of c xs of
        Some i \<Rightarrow> Some (Suc i)
      | None \<Rightarrow> (if x = c then Some 0 else None))"

section \<open>Outcomes\<close>

lemma co_await_simps [simp]:
  "co_await (Done x) f = f x" "co_await Blocked f = Blocked" "co_await Crashed f = Crashed"
  by (simp_all add: co_await_def)

lemma co_await_Done_iff:
  "co_await m f = Done y \<longleftrightarrow> (\<exists>x. m = Done x \<and> f x = Done y)"
  by (cases m) simp_all

lemma co_await_DoneE:
  assumes "co_await m f = Done y"
  obtains x where "m = Done x" and "f x = Done y"
  using assms by (auto simp: co_await_Done_iff)

lemma co_await_assoc: "co_await (co_await m f) g = co_await m (\<lambda>x. co_await (f x) g)"
  by (cases m) simp_all

lemma from_option_simps [simp]: "from_option None = Crashed" "from_option (Some x) = Done x"
  by (simp_all add: from_option_def)

lemma from_option_Done_iff: "from_option x = Done a \<longleftrightarrow> x = Some a"
  by (cases x) simp_all

section \<open>Transition systems\<close>

text \<open>
  The states a component reaches from a state: each transition is one call of an operation
  that returns, made in a state that satisfies \<open>guard\<close>.
\<close>

inductive reachable :: "('e \<Rightarrow> 's \<Rightarrow> 's outcome) \<Rightarrow> ('s \<Rightarrow> bool) \<Rightarrow> 's \<Rightarrow> 's \<Rightarrow> bool"
  for step :: "'e \<Rightarrow> 's \<Rightarrow> 's outcome" and guard :: "'s \<Rightarrow> bool" and s0 :: 's where
  start: "reachable step guard s0 s0"
| step: "reachable step guard s0 s \<Longrightarrow> guard s \<Longrightarrow> step e s = Done s' \<Longrightarrow> reachable step guard s0 s'"

inductive_cases reachableE: "reachable step guard s0 s"

text \<open>A run of given operations, one after the other.\<close>

fun run :: "('e \<Rightarrow> 's \<Rightarrow> 's outcome) \<Rightarrow> 'e list \<Rightarrow> 's \<Rightarrow> 's outcome" where
  "run step [] s = Done s"
| "run step (e # es) s = co_await (step e s) (run step es)"

lemma run_reachable_from:
  "reachable step (\<lambda>_. True) s0 s \<Longrightarrow> run step es s = Done s' \<Longrightarrow> reachable step (\<lambda>_. True) s0 s'"
  by (induction es arbitrary: s) (auto simp: co_await_def split: outcome.splits intro: reachable.step)

lemma run_reachable: "run step es s = Done s' \<Longrightarrow> reachable step (\<lambda>_. True) s s'"
  by (rule run_reachable_from [OF reachable.start])

text \<open>
  The contract that the operations of a component share: they keep the invariant \<open>inv\<close>, and
  relate the state before to the state after by the preorder \<open>le\<close>.
\<close>

locale transition_system =
  fixes step :: "'e \<Rightarrow> 's \<Rightarrow> 's outcome"
    and guard :: "'s \<Rightarrow> bool"
    and inv :: "'s \<Rightarrow> bool"
    and le :: "'s \<Rightarrow> 's \<Rightarrow> bool"
  assumes inv_step: "inv s \<Longrightarrow> guard s \<Longrightarrow> step e s = Done s' \<Longrightarrow> inv s'"
    and le_step: "inv s \<Longrightarrow> guard s \<Longrightarrow> step e s = Done s' \<Longrightarrow> le s s'"
    and le_refl: "le s s"
    and le_trans: "le s s' \<Longrightarrow> le s' s'' \<Longrightarrow> le s s''"
begin

lemma reachable_inv: "reachable step guard s0 s \<Longrightarrow> inv s0 \<Longrightarrow> inv s"
  by (induction rule: reachable.induct) (auto intro: inv_step)

lemma reachable_le: "reachable step guard s0 s \<Longrightarrow> inv s0 \<Longrightarrow> le s0 s"
proof (induction rule: reachable.induct)
  case start
  show ?case by (rule le_refl)
next
  case (step s e s')
  then show ?case by (meson le_step le_trans reachable_inv)
qed

end

section \<open>Unsigned words\<close>

lemma unat_add_one:
  fixes w :: "'a::len word"
  assumes "w < v"
  shows "unat (w + 1) = Suc (unat w)"
  using assms by unat_arith

lemma unat_Suc_le:
  fixes w :: "'a::len word"
  assumes "w < v"
  shows "unat (w + 1) \<le> unat v"
  using assms by (simp add: unat_add_one word_less_nat_alt Suc_le_eq)

lemma unat_succ:
  fixes w :: "'a::len word"
  assumes "w \<noteq> - 1"
  shows "unat (w + 1) = Suc (unat w)"
  using assms by (metis add.commute eq_neg_iff_add_eq_0 unatSuc)

lemma less_succ_iff:
  fixes w k :: "'a::len word"
  assumes "w \<noteq> - 1"
  shows "k < w + 1 \<longleftrightarrow> k \<le> w"
  using assms by (simp add: word_less_nat_alt word_le_nat_alt unat_succ less_Suc_eq_le)

lemma unat_less_64: "unat (w :: u64) < 2 ^ 64"
  using unsigned_less [of w] by simp

lemma unat_of_nat_small: "n < 2 ^ 64 \<Longrightarrow> unat (of_nat n :: u64) = n"
  by (simp add: unat_of_nat)

lemma unat_add_of_nat:
  fixes a :: u64
  assumes "unat a + n < 2 ^ 64"
  shows "unat (a + of_nat n) = unat a + n"
proof -
  from assms have "unat (of_nat n :: u64) = n" by (simp add: unat_of_nat_small)
  with assms show ?thesis by (simp add: unat_word_ariths(1))
qed

lemma unat_sub_le:
  fixes a b :: "'a::len word"
  assumes "b \<le> a"
  shows "unat (a - b) = unat a - unat b"
  using assms by (simp add: unat_sub word_le_nat_alt)

section \<open>Decimal strings\<close>

lemma digit_char_inj: "d < 10 \<Longrightarrow> e < 10 \<Longrightarrow> digit_char d = digit_char e \<Longrightarrow> d = e"
  by (simp add: digit_char_def char_of_eq_iff of_char_of take_bit_eq_mod)

lemma nat_digits_nonempty: "nat_digits n \<noteq> []"
  by (subst nat_digits.simps) simp

lemma nat_digits_length_one: "length (nat_digits n) = 1 \<longleftrightarrow> n < 10"
  by (subst nat_digits.simps) (simp add: nat_digits_nonempty)

lemma nat_digits_inj: "nat_digits m = nat_digits n \<Longrightarrow> m = n"
proof (induction m arbitrary: n rule: nat_digits.induct)
  case (1 m)
  show ?case
  proof (cases "m < 10")
    case True
    then have "n < 10" using "1.prems" nat_digits_length_one by metis
    with True "1.prems" show ?thesis
      by (simp add: nat_digits.simps [of m] nat_digits.simps [of n] digit_char_inj)
  next
    case False
    then have n: "\<not> n < 10" using "1.prems" nat_digits_length_one by metis
    from False n "1.prems" have "nat_digits (m div 10) = nat_digits (n div 10)"
      and "digit_char (m mod 10) = digit_char (n mod 10)"
      by (simp_all add: nat_digits.simps [of m] nat_digits.simps [of n])
    then have "m div 10 = n div 10" and "m mod 10 = n mod 10"
      using "1.IH" [OF False] by (auto intro: digit_char_inj)
    then show ?thesis by (metis div_mod_decomp)
  qed
qed

lemma to_string_inj: "to_string a = to_string b \<longleftrightarrow> a = b"
  by (metis nat_digits_inj to_string_def word_unat_eq_iff)

lemma digit_char_range: "d < 10 \<Longrightarrow> 48 \<le> (of_char (digit_char d) :: nat) \<and> (of_char (digit_char d) :: nat) \<le> 57"
  by (simp add: digit_char_def of_char_of take_bit_eq_mod)

lemma nat_digits_range: "c \<in> set (nat_digits n) \<Longrightarrow> 48 \<le> (of_char c :: nat) \<and> (of_char c :: nat) \<le> 57"
proof (induction n rule: nat_digits.induct)
  case (1 n)
  then show ?case
    by (cases "n < 10")
      (auto simp: nat_digits.simps [of n] digit_char_range)
qed

section \<open>Positions in strings\<close>

lemma find_last_of_None: "find_last_of c xs = None \<longleftrightarrow> c \<notin> set xs"
  by (induction xs) (auto split: option.splits)

lemma find_last_of_Some:
  "find_last_of c xs = Some i \<Longrightarrow> i < length xs \<and> xs ! i = c \<and> c \<notin> set (drop (Suc i) xs)"
  by (induction xs arbitrary: i) (auto split: option.splits if_splits simp: find_last_of_None)

lemma find_last_of_append:
  "c \<notin> set ys \<Longrightarrow> find_last_of c (xs @ c # ys) = Some (length xs)"
  by (induction xs) (auto simp: find_last_of_None [symmetric])

lemma split_at_last:
  assumes "find_last_of c xs = Some i"
  shows "xs = take i xs @ c # drop (Suc i) xs"
  using find_last_of_Some [OF assms] by (metis id_take_nth_drop)

end
