(* ===== verification/Unordered_Map.thy ===== *)
theory Unordered_Map
  imports VPrelude
begin

text \<open>
  The part of \<open>std::unordered_map\<close> that the program uses. A map is the list of its
  elements in iteration order, with distinct keys. C++ leaves the iteration order open;
  the list order is one such order, and the laws of the interface below, on which the
  components rest, do not mention it: they speak of lookups only, and of the element list
  up to \<open>map_of\<close>.
\<close>

type_synonym ('k, 'v) umap = "('k \<times> 'v) list"

definition um_wf :: "('k, 'v) umap \<Rightarrow> bool" where
  "um_wf m = distinct (map fst m)"

definition um_find :: "('k, 'v) umap \<Rightarrow> 'k \<Rightarrow> 'v option" where
  "um_find m k = map_of m k"

definition um_contains :: "('k, 'v) umap \<Rightarrow> 'k \<Rightarrow> bool" where
  "um_contains m k = (um_find m k \<noteq> None)"

text \<open>\<open>emplace\<close> keeps an element that is already there; \<open>m[k] = v\<close> overwrites it.\<close>

definition um_emplace :: "'k \<Rightarrow> 'v \<Rightarrow> ('k, 'v) umap \<Rightarrow> ('k, 'v) umap" where
  "um_emplace k v m = (if um_contains m k then m else m @ [(k, v)])"

definition um_assign :: "'k \<Rightarrow> 'v \<Rightarrow> ('k, 'v) umap \<Rightarrow> ('k, 'v) umap" where
  "um_assign k v m = AList.update k v m"

definition um_erase :: "'k \<Rightarrow> ('k, 'v) umap \<Rightarrow> ('k, 'v) umap" where
  "um_erase k m = AList.delete k m"

text \<open>\<open>m[k]\<close> as an expression: the element, inserted with the default value if missing.\<close>

definition um_index :: "'v \<Rightarrow> 'k \<Rightarrow> ('k, 'v) umap \<Rightarrow> 'v \<times> ('k, 'v) umap" where
  "um_index d k m = (case um_find m k of Some v \<Rightarrow> (v, m) | None \<Rightarrow> (d, um_emplace k d m))"

definition um_values :: "('k, 'v) umap \<Rightarrow> 'v list" where
  "um_values m = map snd m"

definition um_keys :: "('k, 'v) umap \<Rightarrow> 'k list" where
  "um_keys m = map fst m"

section \<open>The interface: an associative container\<close>

text \<open>
  What a client of the map may rely on. \<open>items\<close> is the sequence an iteration visits.
\<close>

locale assoc_container =
  fixes find :: "'m \<Rightarrow> 'k \<Rightarrow> 'v option"
    and emplace :: "'k \<Rightarrow> 'v \<Rightarrow> 'm \<Rightarrow> 'm"
    and assign :: "'k \<Rightarrow> 'v \<Rightarrow> 'm \<Rightarrow> 'm"
    and erase :: "'k \<Rightarrow> 'm \<Rightarrow> 'm"
    and clear :: "'m"
    and items :: "'m \<Rightarrow> ('k \<times> 'v) list"
    and inv :: "'m \<Rightarrow> bool"
  assumes find_clear: "find clear k = None"
    and find_emplace: "find (emplace k v m) k' = (if k' = k \<and> find m k = None then Some v else find m k')"
    and find_assign: "find (assign k v m) k' = (if k' = k then Some v else find m k')"
    and find_erase: "find (erase k m) k' = (if k' = k then None else find m k')"
    and inv_clear: "inv clear"
    and inv_emplace: "inv m \<Longrightarrow> inv (emplace k v m)"
    and inv_assign: "inv m \<Longrightarrow> inv (assign k v m)"
    and inv_erase: "inv m \<Longrightarrow> inv (erase k m)"
    and items_find: "map_of (items m) = find m"
    and items_distinct: "inv m \<Longrightarrow> distinct (map fst (items m))"
begin

lemma emplace_present: "find m k = Some w \<Longrightarrow> find (emplace k v m) = find m"
  by (rule ext) (simp add: find_emplace)

lemma assign_overrides: "find (assign k v (emplace k w m)) = find (assign k v m)"
  by (rule ext) (simp add: find_assign find_emplace)

lemma inv_emplace_all: "inv m \<Longrightarrow> inv (fold (\<lambda>v. emplace (key v) v) vs m)"
  by (induction vs arbitrary: m) (simp_all add: inv_emplace)

text \<open>Emplacing a sequence of values keeps, for each key, the first value that has it.\<close>

lemma find_emplace_all:
  "find (fold (\<lambda>v. emplace (key v) v) vs m) k =
     (case find m k of Some w \<Rightarrow> Some w | None \<Rightarrow> map_of (map (\<lambda>v. (key v, v)) vs) k)"
  by (induction vs arbitrary: m) (auto simp: find_emplace split: option.splits)

text \<open>
  A container whose values carry their own key is rebuilt, up to iteration order, by
  emplacing the values an iteration visits into an empty one.
\<close>

lemma rebuild:
  assumes inv: "inv m"
    and key: "\<And>k v. find m k = Some v \<Longrightarrow> key v = k"
  shows "find (fold (\<lambda>v. emplace (key v) v) (map snd (items m)) clear) = find m"
proof -
  have "(key v, v) = p" if "p \<in> set (items m)" "v = snd p" for p v
  proof -
    from that inv have "map_of (items m) (fst p) = Some (snd p)"
      by (simp add: items_distinct)
    then have "key (snd p) = fst p" by (intro key) (simp add: items_find)
    with that(2) show ?thesis by (simp add: prod_eq_iff)
  qed
  then have "map (\<lambda>v. (key v, v)) (map snd (items m)) = items m"
    by (simp add: map_idI)
  then show ?thesis by (simp add: fun_eq_iff find_emplace_all find_clear items_find)
qed

end

section \<open>The list of elements implements the interface\<close>

lemma um_wf_emplace: "um_wf m \<Longrightarrow> um_wf (um_emplace k v m)"
  by (simp add: um_wf_def um_emplace_def um_contains_def um_find_def map_of_eq_None_iff)

interpretation um: assoc_container um_find um_emplace um_assign um_erase "[]" "\<lambda>m. m" um_wf
  by unfold_locales
    (auto simp: um_wf_emplace um_find_def um_emplace_def um_contains_def um_assign_def um_erase_def
       um_wf_def update_conv' distinct_update AList.delete_conv' distinct_delete map_add_def
       split: option.splits)

lemmas um_find_simps [simp] = um.find_clear um.find_emplace um.find_assign um.find_erase
lemmas um_wf_intros [intro, simp] = um.inv_clear um.inv_emplace um.inv_assign um.inv_erase

lemma um_contains_iff: "um_contains m k \<longleftrightarrow> k \<in> set (um_keys m)"
  by (simp add: um_contains_def um_find_def um_keys_def map_of_eq_None_iff)

lemma um_find_Some_value: "um_find m k = Some v \<Longrightarrow> v \<in> set (um_values m)"
  by (auto simp: um_find_def um_values_def dest: map_of_SomeD intro: rev_image_eqI)

lemma um_values_find: "um_wf m \<Longrightarrow> v \<in> set (um_values m) \<longleftrightarrow> (\<exists>k. um_find m k = Some v)"
  by (force simp: um_wf_def um_find_def um_values_def dest: map_of_SomeD intro: map_of_is_SomeI)

lemma um_index_find:
  "um_index d k m = (v, m') \<Longrightarrow>
     v = (case um_find m k of Some w \<Rightarrow> w | None \<Rightarrow> d) \<and> um_find m' = (um_find m)(k \<mapsto> v)"
  by (auto simp: um_index_def fun_eq_iff split: option.splits)

lemma um_wf_index: "um_wf m \<Longrightarrow> um_wf (snd (um_index d k m))"
  by (simp add: um_index_def split: option.splits)

lemma um_keys_assign: "set (um_keys (um_assign k v m)) = insert k (set (um_keys m))"
  by (simp add: um_keys_def um_assign_def dom_update)

lemma um_keys_assign_present: "k \<in> set (um_keys m) \<Longrightarrow> um_keys (um_assign k v m) = um_keys m"
  by (simp add: um_keys_def um_assign_def update_keys)

lemma um_length_keys: "um_wf m \<Longrightarrow> card (set (um_keys m)) = length m"
  using distinct_card [of "map fst m"] by (simp add: um_wf_def um_keys_def)

text \<open>A property of every element.\<close>

definition um_all :: "('v \<Rightarrow> bool) \<Rightarrow> ('k, 'v) umap \<Rightarrow> bool" where
  "um_all P m \<longleftrightarrow> um_wf m \<and> (\<forall>k v. um_find m k = Some v \<longrightarrow> P v)"

lemma um_all_intros [simp, intro]:
  "um_all P []"
  "um_all P m \<Longrightarrow> P v \<Longrightarrow> um_all P (um_emplace k v m)"
  "um_all P m \<Longrightarrow> P v \<Longrightarrow> um_all P (um_assign k v m)"
  "um_all P m \<Longrightarrow> um_all P (um_erase k m)"
  by (auto simp: um_all_def)

lemma um_all_find: "um_all P m \<Longrightarrow> um_find m k = Some v \<Longrightarrow> P v"
  by (simp add: um_all_def)

lemma um_all_wf: "um_all P m \<Longrightarrow> um_wf m"
  by (simp add: um_all_def)

lemma um_all_values: "um_all P m \<Longrightarrow> v \<in> set (um_values m) \<Longrightarrow> P v"
  by (auto simp: um_all_def um_values_find)

lemma um_all_index:
  assumes "um_all P m" and "P d"
  shows "P (fst (um_index d k m))" and "um_all P (snd (um_index d k m))"
  using assms by (auto simp: um_index_def um_all_find split: option.splits)

lemma um_all_fold_emplace:
  "um_all P m \<Longrightarrow> (\<And>x. x \<in> set xs \<Longrightarrow> P (f x)) \<Longrightarrow> um_all P (fold (\<lambda>x. um_emplace (k x) (f x)) xs m)"
  by (induction xs arbitrary: m) auto

end
