(* ===== verification/Wire_Messages.thy ===== *)
theory Wire_Messages
  imports VPrelude
begin

text \<open>
  The protocol buffer messages of \<open>api/raftpb/raft.proto\<close>, as the generated C++ classes of
  \<open>api/raftpb/raft.pb.h\<close> present them: a \<open>record\<close> per message, whose selectors and updates
  are the getters and setters of the class. A scalar is a word of its width, \<open>string\<close> and
  \<open>bytes\<close> are lists of bytes, a \<open>repeated\<close> field is a list, an \<open>optional\<close> field is an
  \<open>option\<close> (\<open>has_x\<close> is \<open>x \<noteq> None\<close>, \<open>clear_x\<close> stores \<open>None\<close>), a \<open>oneof\<close> is a
  \<open>datatype\<close>. \<open>M_default\<close> is the value of a message after its default constructor
  (\<open>M::SharedCtor\<close> in \<open>api/raftpb/raft.pb.cc\<close>).
\<close>

record HardState =
  hs_current_term :: u64
  hs_voted_for :: "u64 option"

definition HardState_default :: HardState where
  "HardState_default = \<lparr>hs_current_term = 0, hs_voted_for = None\<rparr>"

record RequestVoteRequest =
  rvq_term :: u64
  rvq_candidate_id :: u64
  rvq_last_log_index :: u64
  rvq_last_log_term :: u64

definition RequestVoteRequest_default :: RequestVoteRequest where
  "RequestVoteRequest_default = \<lparr>rvq_term = 0, rvq_candidate_id = 0, rvq_last_log_index = 0, rvq_last_log_term = 0\<rparr>"

record RequestVoteResponse =
  rvr_id :: u64
  rvr_term :: u64
  rvr_vote_granted :: bool

definition RequestVoteResponse_default :: RequestVoteResponse where
  "RequestVoteResponse_default = \<lparr>rvr_id = 0, rvr_term = 0, rvr_vote_granted = False\<rparr>"

record LogEntry =
  le_term :: u64
  le_index :: u64
  le_command :: string

definition LogEntry_default :: LogEntry where
  "LogEntry_default = \<lparr>le_term = 0, le_index = 0, le_command = []\<rparr>"

record AppendEntriesRequest =
  aeq_term :: u64
  aeq_leader_id :: u64
  aeq_prev_log_index :: u64
  aeq_prev_log_term :: u64
  aeq_entries :: "LogEntry list"
  aeq_leader_commit :: u64

definition AppendEntriesRequest_default :: AppendEntriesRequest where
  "AppendEntriesRequest_default = \<lparr>aeq_term = 0, aeq_leader_id = 0, aeq_prev_log_index = 0, aeq_prev_log_term = 0, aeq_entries = [], aeq_leader_commit = 0\<rparr>"

record AppendEntriesResponse =
  aer_id :: u64
  aer_term :: u64
  aer_success :: bool
  aer_last_log_index :: u64
  aer_conflict_index :: "u64 option"

definition AppendEntriesResponse_default :: AppendEntriesResponse where
  "AppendEntriesResponse_default = \<lparr>aer_id = 0, aer_term = 0, aer_success = False, aer_last_log_index = 0, aer_conflict_index = None\<rparr>"

record BlockInfo =
  bi_id :: u64
  bi_ino :: u64
  bi_offset :: u64
  bi_size :: u64
  bi_data_node_id :: "u64 list"

definition BlockInfo_default :: BlockInfo where
  "BlockInfo_default = \<lparr>bi_id = 0, bi_ino = 0, bi_offset = 0, bi_size = 0, bi_data_node_id = []\<rparr>"

record DirEntry =
  de_ino :: u64
  de_name :: string
  de_path :: string
  de_is_dir :: bool
  de_size :: u64
  de_ctime :: u64
  de_mtime :: u64

definition DirEntry_default :: DirEntry where
  "DirEntry_default = \<lparr>de_ino = 0, de_name = [], de_path = [], de_is_dir = False, de_size = 0, de_ctime = 0, de_mtime = 0\<rparr>"

record Inode =
  nd_ino :: u64
  nd_mode :: u32
  nd_is_dir :: bool
  nd_size :: u64
  nd_ctime :: u64
  nd_mtime :: u64
  nd_nlink :: u32
  nd_blocks :: "BlockInfo list"
  nd_dir_entries :: "DirEntry list"

definition Inode_default :: Inode where
  "Inode_default = \<lparr>nd_ino = 0, nd_mode = 0, nd_is_dir = False, nd_size = 0, nd_ctime = 0, nd_mtime = 0, nd_nlink = 0, nd_blocks = [], nd_dir_entries = []\<rparr>"

record Snapshot =
  sn_last_included_index :: u64
  sn_last_included_term :: u64
  sn_inodes :: "Inode list"
  sn_dir_entries :: "DirEntry list"

definition Snapshot_default :: Snapshot where
  "Snapshot_default = \<lparr>sn_last_included_index = 0, sn_last_included_term = 0, sn_inodes = [], sn_dir_entries = []\<rparr>"

record InstallSnapshotRequest =
  isq_term :: u64
  isq_leader_id :: u64
  isq_last_included_index :: u64
  isq_last_included_term :: u64
  isq_offset :: u64
  isq_data :: string
  isq_done :: bool

definition InstallSnapshotRequest_default :: InstallSnapshotRequest where
  "InstallSnapshotRequest_default = \<lparr>isq_term = 0, isq_leader_id = 0, isq_last_included_index = 0, isq_last_included_term = 0, isq_offset = 0, isq_data = [], isq_done = False\<rparr>"

record InstallSnapshotResponse =
  isr_id :: u64
  isr_term :: u64

definition InstallSnapshotResponse_default :: InstallSnapshotResponse where
  "InstallSnapshotResponse_default = \<lparr>isr_id = 0, isr_term = 0\<rparr>"

record ListDirRequest =
  ldq_token :: string
  ldq_path :: string

definition ListDirRequest_default :: ListDirRequest where
  "ListDirRequest_default = \<lparr>ldq_token = [], ldq_path = []\<rparr>"

record ListDirResponse =
  ldr_status_code :: u32
  ldr_message :: string
  ldr_path :: string
  ldr_dir_entries :: "DirEntry list"

definition ListDirResponse_default :: ListDirResponse where
  "ListDirResponse_default = \<lparr>ldr_status_code = 0, ldr_message = [], ldr_path = [], ldr_dir_entries = []\<rparr>"

record MakeDirRequest =
  mdq_token :: string
  mdq_parent_path :: string
  mdq_name :: string
  mdq_timestamp :: u64

definition MakeDirRequest_default :: MakeDirRequest where
  "MakeDirRequest_default = \<lparr>mdq_token = [], mdq_parent_path = [], mdq_name = [], mdq_timestamp = 0\<rparr>"

record MakeDirResponse =
  mdr_status_code :: u32
  mdr_message :: string
  mdr_parent_path :: string

definition MakeDirResponse_default :: MakeDirResponse where
  "MakeDirResponse_default = \<lparr>mdr_status_code = 0, mdr_message = [], mdr_parent_path = []\<rparr>"

record PrepareUploadFileRequest =
  puq_token :: string
  puq_local_path :: string
  puq_remote_path :: string
  puq_blocks :: "BlockInfo list"

definition PrepareUploadFileRequest_default :: PrepareUploadFileRequest where
  "PrepareUploadFileRequest_default = \<lparr>puq_token = [], puq_local_path = [], puq_remote_path = [], puq_blocks = []\<rparr>"

record PrepareUploadFileResponse =
  pur_status_code :: u32
  pur_message :: string
  pur_local_path :: string
  pur_remote_path :: string
  pur_blocks :: "BlockInfo list"

definition PrepareUploadFileResponse_default :: PrepareUploadFileResponse where
  "PrepareUploadFileResponse_default = \<lparr>pur_status_code = 0, pur_message = [], pur_local_path = [], pur_remote_path = [], pur_blocks = []\<rparr>"

record PrepareDownloadFileRequest =
  pdq_token :: string
  pdq_local_path :: string
  pdq_remote_path :: string

definition PrepareDownloadFileRequest_default :: PrepareDownloadFileRequest where
  "PrepareDownloadFileRequest_default = \<lparr>pdq_token = [], pdq_local_path = [], pdq_remote_path = []\<rparr>"

record PrepareDownloadFileResponse =
  pdr_status_code :: u32
  pdr_message :: string
  pdr_local_path :: string
  pdr_remote_path :: string
  pdr_blocks :: "BlockInfo list"

definition PrepareDownloadFileResponse_default :: PrepareDownloadFileResponse where
  "PrepareDownloadFileResponse_default = \<lparr>pdr_status_code = 0, pdr_message = [], pdr_local_path = [], pdr_remote_path = [], pdr_blocks = []\<rparr>"

record UploadFileRequest =
  ufq_token :: string
  ufq_ino :: u64
  ufq_path :: string
  ufq_blocks :: "BlockInfo list"

definition UploadFileRequest_default :: UploadFileRequest where
  "UploadFileRequest_default = \<lparr>ufq_token = [], ufq_ino = 0, ufq_path = [], ufq_blocks = []\<rparr>"

record UploadFileResponse =
  ufr_status_code :: u32
  ufr_message :: string
  ufr_ino :: u64

definition UploadFileResponse_default :: UploadFileResponse where
  "UploadFileResponse_default = \<lparr>ufr_status_code = 0, ufr_message = [], ufr_ino = 0\<rparr>"

record UploadBlockRequest =
  ubq_token :: string
  ubq_block_id :: u64
  ubq_ino :: u64
  ubq_data :: string

definition UploadBlockRequest_default :: UploadBlockRequest where
  "UploadBlockRequest_default = \<lparr>ubq_token = [], ubq_block_id = 0, ubq_ino = 0, ubq_data = []\<rparr>"

record UploadBlockResponse =
  ubr_status_code :: u32
  ubr_message :: string
  ubr_block_id :: u64
  ubr_ino :: u64
  ubr_data_node_id :: u64

definition UploadBlockResponse_default :: UploadBlockResponse where
  "UploadBlockResponse_default = \<lparr>ubr_status_code = 0, ubr_message = [], ubr_block_id = 0, ubr_ino = 0, ubr_data_node_id = 0\<rparr>"

record DownloadBlockRequest =
  dbq_token :: string
  dbq_block_id :: u64
  dbq_ino :: u64

definition DownloadBlockRequest_default :: DownloadBlockRequest where
  "DownloadBlockRequest_default = \<lparr>dbq_token = [], dbq_block_id = 0, dbq_ino = 0\<rparr>"

record DownloadBlockResponse =
  dbr_status_code :: u32
  dbr_message :: string
  dbr_block_id :: u64
  dbr_ino :: u64
  dbr_data_node_id :: u64
  dbr_data :: string

definition DownloadBlockResponse_default :: DownloadBlockResponse where
  "DownloadBlockResponse_default = \<lparr>dbr_status_code = 0, dbr_message = [], dbr_block_id = 0, dbr_ino = 0, dbr_data_node_id = 0, dbr_data = []\<rparr>"

text \<open>The two \<open>oneof\<close> messages; the last constructor is \<open>TYPE_NOT_SET\<close>.\<close>

datatype EntryCommand = CmdMkdir MakeDirRequest | CmdUploadFile UploadFileRequest | CmdNotSet

datatype PendingResponse = RespMkdir MakeDirResponse | RespUploadFile UploadFileResponse | RespNotSet

text \<open>
  \<open>mutable_x()\<close> on a \<open>oneof\<close>: the member that is set, or a default one that replaces
  whatever was set before.
\<close>

definition mutable_mkdir :: "PendingResponse \<Rightarrow> MakeDirResponse" where
  "mutable_mkdir r = (case r of RespMkdir m \<Rightarrow> m | _ \<Rightarrow> MakeDirResponse_default)"

definition mutable_upload_file :: "PendingResponse \<Rightarrow> UploadFileResponse" where
  "mutable_upload_file r = (case r of RespUploadFile m \<Rightarrow> m | _ \<Rightarrow> UploadFileResponse_default)"

text \<open>
  Moving a \<open>Snapshot\<close> into a new object: the move constructor default-constructs the new
  object and swaps, so the source is left with the default value.
\<close>

definition Snapshot_move :: "Snapshot \<Rightarrow> Snapshot \<times> Snapshot" where
  "Snapshot_move from = (from, Snapshot_default)"

section \<open>Default values\<close>

lemmas default_defs [msg_defs] =
  HardState_default_def
  RequestVoteRequest_default_def
  RequestVoteResponse_default_def
  LogEntry_default_def
  AppendEntriesRequest_default_def
  AppendEntriesResponse_default_def
  BlockInfo_default_def
  DirEntry_default_def
  Inode_default_def
  Snapshot_default_def
  InstallSnapshotRequest_default_def
  InstallSnapshotResponse_default_def
  ListDirRequest_default_def
  ListDirResponse_default_def
  MakeDirRequest_default_def
  MakeDirResponse_default_def
  PrepareUploadFileRequest_default_def
  PrepareUploadFileResponse_default_def
  PrepareDownloadFileRequest_default_def
  PrepareDownloadFileResponse_default_def
  UploadFileRequest_default_def
  UploadFileResponse_default_def
  UploadBlockRequest_default_def
  UploadBlockResponse_default_def
  DownloadBlockRequest_default_def
  DownloadBlockResponse_default_def

end
