(* ===== verification/Raft_Config.thy ===== *)
theory Raft_Config
  imports Unordered_Map Wire_Messages
begin

text \<open>
  \<open>include/vosfs/raft/config.hpp\<close>, \<open>peer.hpp\<close>, \<open>transport.hpp\<close>, \<open>src/raft/transport.cpp\<close>:
  the constants, the configuration of a node with its builder, and the peers of the cluster.
  Its JSON file is in \<open>Config_Files\<close>. A peer's RPC client only carries messages; a request handed to it is
  modelled as an output of the operation that sends it.
\<close>

definition MAX_SNAPSHOT_CHUNK_SIZE :: u64 where "MAX_SNAPSHOT_CHUNK_SIZE = 4 * 1024"
definition HEARTBEAT_INTERVAL :: u64 where "HEARTBEAT_INTERVAL = 50"
definition MAX_APPEND_ENTRIES_SIZE :: u64 where "MAX_APPEND_ENTRIES_SIZE = 64"
definition SNAPSHOT_INTERVAL :: u64 where "SNAPSHOT_INTERVAL = 10"

record NodeInfo =
  ni_id :: u64
  ni_name :: string
  ni_host :: string
  ni_port :: u16

record Config =
  cfg_data_dir :: string
  cfg_cluster_id :: u64
  cfg_member_id :: u64
  cfg_name :: string
  cfg_host :: string
  cfg_port :: u16
  cfg_raft_nodes :: "(u64, NodeInfo) umap"
  cfg_data_nodes :: "NodeInfo list"

definition Config_default :: Config where
  "Config_default =
     \<lparr>cfg_data_dir = ''/var/lib/vosfs'', cfg_cluster_id = 0, cfg_member_id = 0, cfg_name = ''node'',
      cfg_host = ''0.0.0.0'', cfg_port = 8080, cfg_raft_nodes = [], cfg_data_nodes = []\<rparr>"

section \<open>ConfigBuilder\<close>

definition builder_options :: Config where
  "builder_options = Config_default"

definition set_data_dir :: "string \<Rightarrow> Config \<Rightarrow> Config" where
  "set_data_dir d c = c\<lparr>cfg_data_dir := d\<rparr>"

definition set_cluster_id :: "u64 \<Rightarrow> Config \<Rightarrow> Config" where
  "set_cluster_id i c = c\<lparr>cfg_cluster_id := i\<rparr>"

definition set_member_id :: "u64 \<Rightarrow> Config \<Rightarrow> Config" where
  "set_member_id i c = c\<lparr>cfg_member_id := i\<rparr>"

definition set_name :: "string \<Rightarrow> Config \<Rightarrow> Config" where
  "set_name n c = c\<lparr>cfg_name := n\<rparr>"

definition set_host :: "string \<Rightarrow> Config \<Rightarrow> Config" where
  "set_host h c = c\<lparr>cfg_host := h\<rparr>"

definition set_port :: "u16 \<Rightarrow> Config \<Rightarrow> Config" where
  "set_port p c = c\<lparr>cfg_port := p\<rparr>"

definition add_raft_node :: "u64 \<Rightarrow> string \<Rightarrow> string \<Rightarrow> u16 \<Rightarrow> Config \<Rightarrow> Config" where
  "add_raft_node i n h p c =
     c\<lparr>cfg_raft_nodes := um_emplace i \<lparr>ni_id = i, ni_name = n, ni_host = h, ni_port = p\<rparr> (cfg_raft_nodes c)\<rparr>"

definition add_data_node :: "u64 \<Rightarrow> string \<Rightarrow> string \<Rightarrow> u16 \<Rightarrow> Config \<Rightarrow> Config" where
  "add_data_node i n h p c =
     c\<lparr>cfg_data_nodes := cfg_data_nodes c @ [\<lparr>ni_id = i, ni_name = n, ni_host = h, ni_port = p\<rparr>]\<rparr>"

section \<open>Peers and transport\<close>

record Peer =
  pe_id :: u64
  pe_name :: string
  pe_host :: string
  pe_port :: u16

record Transport =
  tr_cluster_id :: u64
  tr_member_id :: u64
  tr_name :: string
  tr_host :: string
  tr_port :: u16
  tr_peers :: "(u64, Peer) umap"

definition make_peer :: "NodeInfo \<Rightarrow> Peer" where
  "make_peer n = \<lparr>pe_id = ni_id n, pe_name = ni_name n, pe_host = ni_host n, pe_port = ni_port n\<rparr>"

definition Transport_create :: "Config \<Rightarrow> Transport" where
  "Transport_create config =
     \<lparr>tr_cluster_id = cfg_cluster_id config, tr_member_id = cfg_member_id config,
      tr_name = cfg_name config, tr_host = cfg_host config, tr_port = cfg_port config,
      tr_peers = fold (\<lambda>node. um_emplace (ni_id node) (make_peer node)) (um_values (cfg_raft_nodes config)) []\<rparr>"

definition cluster_size :: "Transport \<Rightarrow> u64" where
  "cluster_size t = of_nat (length (tr_peers t))"

definition member_id :: "Transport \<Rightarrow> u64" where
  "member_id t = tr_member_id t"

text \<open>The members a vote request is broadcast to: every peer but the node itself.\<close>

definition broadcast_targets :: "Transport \<Rightarrow> u64 list" where
  "broadcast_targets t = filter (\<lambda>i. i \<noteq> tr_member_id t) (map pe_id (um_values (tr_peers t)))"

text \<open>\<open>peers_[member_id]\<close> dereferences a null pointer when the member is unknown.\<close>

definition unicast_target :: "Transport \<Rightarrow> u64 \<Rightarrow> Peer option" where
  "unicast_target t m = um_find (tr_peers t) m"

section \<open>Properties\<close>

text \<open>A configuration names each node by the key it is stored under.\<close>

definition config_wf :: "Config \<Rightarrow> bool" where
  "config_wf c \<longleftrightarrow> um_wf (cfg_raft_nodes c) \<and> (\<forall>(i, n) \<in> set (cfg_raft_nodes c). ni_id n = i)"

lemma config_wf_default [simp]: "config_wf builder_options"
  by (simp add: config_wf_def builder_options_def Config_default_def)

lemma um_emplace_set: "set (um_emplace k v m) \<subseteq> insert (k, v) (set m)"
  by (auto simp: um_emplace_def)

lemma config_wf_add_raft_node: "config_wf c \<Longrightarrow> config_wf (add_raft_node i n h p c)"
  using um_emplace_set by (fastforce simp: config_wf_def add_raft_node_def)

lemma fold_emplace_nodes:
  assumes "distinct (map fst ns)" and "\<forall>(i, n) \<in> set ns. ni_id n = i"
    and "\<forall>i \<in> fst ` set ns. um_find m i = None"
  shows "fold (\<lambda>node. um_emplace (ni_id node) (make_peer node)) (map snd ns) m =
    m @ map (\<lambda>(i, n). (i, make_peer n)) ns"
  using assms
proof (induction ns arbitrary: m)
  case Nil
  then show ?case by simp
next
  case (Cons x ns)
  obtain i n where x: "x = (i, n)" by (cases x)
  with Cons.prems have e: "um_emplace i (make_peer n) m = m @ [(i, make_peer n)]" "ni_id n = i"
    by (auto simp: um_emplace_def um_contains_def)
  have "\<forall>j \<in> fst ` set ns. um_find (m @ [(i, make_peer n)]) j = None"
    using Cons.prems x by (auto simp: um_find_def map_add_def split: option.splits) (metis fst_conv image_eqI)+
  with Cons e x show ?case by simp
qed

lemma transport_peers:
  "config_wf c \<Longrightarrow> tr_peers (Transport_create c) = map (\<lambda>(i, n). (i, make_peer n)) (cfg_raft_nodes c)"
  by (simp add: Transport_create_def um_values_def fold_emplace_nodes config_wf_def um_wf_def)

lemma transport_wf: "config_wf c \<Longrightarrow> um_wf (tr_peers (Transport_create c))"
  by (simp add: transport_peers config_wf_def um_wf_def comp_def split_def)

end
