(* ===== verification/Raft_Log.thy ===== *)
theory Raft_Log
  imports Wire_Messages
begin

text \<open>
  \<open>class RaftLog\<close> (\<open>include/vosfs/raft/log.hpp\<close>, \<open>src/raft/log.cpp\<close>): the in-memory log
  behind a snapshot position. A getter whose \<open>assert\<close> fails, or that would index the vector
  out of range, returns \<open>None\<close>. Indices are 64-bit words and wrap, as in the source; under
  the invariant \<open>log_wf\<close> no index computation wraps.
\<close>

record RaftLog =
  rl_last_included_index :: u64
  rl_last_included_term :: u64
  rl_entries :: "LogEntry list"

definition last_included_index :: "RaftLog \<Rightarrow> u64" where
  "last_included_index l = rl_last_included_index l"

definition last_included_term :: "RaftLog \<Rightarrow> u64" where
  "last_included_term l = rl_last_included_term l"

definition RaftLog_load_snapshot :: "Snapshot \<Rightarrow> RaftLog \<Rightarrow> RaftLog" where
  "RaftLog_load_snapshot s l =
     l\<lparr>rl_last_included_index := sn_last_included_index s,
       rl_last_included_term := sn_last_included_term s\<rparr>"

definition last_log_index :: "RaftLog \<Rightarrow> u64" where
  "last_log_index l = last_included_index l + of_nat (length (rl_entries l))"

definition last_log_term :: "RaftLog \<Rightarrow> u64" where
  "last_log_term l =
     (if rl_entries l = [] \<and> last_log_index l = 0 then 0
      else if rl_entries l = [] \<and> last_log_index l > 0 then last_included_term l
      else le_term (last (rl_entries l)))"

definition in_log :: "RaftLog \<Rightarrow> u64 \<Rightarrow> bool" where
  "in_log l index \<longleftrightarrow> index > last_included_index l \<and> index \<le> last_log_index l"

definition arr_idx :: "RaftLog \<Rightarrow> u64 \<Rightarrow> nat" where
  "arr_idx l index = unat (index - last_included_index l - 1)"

definition entry_at :: "RaftLog \<Rightarrow> nat \<Rightarrow> LogEntry option" where
  "entry_at l i = (if i < length (rl_entries l) then Some (rl_entries l ! i) else None)"

definition get_term :: "RaftLog \<Rightarrow> u64 \<Rightarrow> u64 option" where
  "get_term l index =
     (if \<not> (in_log l index \<or> index = last_included_index l) then None
      else if index = last_included_index l then Some (last_included_term l)
      else map_option le_term (entry_at l (arr_idx l index)))"

definition get_entry :: "RaftLog \<Rightarrow> u64 \<Rightarrow> LogEntry option" where
  "get_entry l index = (if \<not> in_log l index then None else entry_at l (arr_idx l index))"

fun get_entries_loop :: "LogEntry list \<Rightarrow> nat \<Rightarrow> nat \<Rightarrow> LogEntry list" where
  "get_entries_loop es i 0 = []"
| "get_entries_loop es i (Suc n) =
     (if i < length es then es ! i # get_entries_loop es (Suc i) n else [])"

definition get_entries :: "RaftLog \<Rightarrow> u64 \<Rightarrow> u64 \<Rightarrow> LogEntry list option" where
  "get_entries l index sz =
     (if \<not> in_log l index then None
      else Some (get_entries_loop (rl_entries l) (arr_idx l index) (unat sz)))"

definition get_entries_span :: "RaftLog \<Rightarrow> u64 \<Rightarrow> u64 \<Rightarrow> LogEntry list option" where
  "get_entries_span l index sz =
     (let i = arr_idx l index in
      if \<not> in_log l index \<or> i + unat sz > length (rl_entries l) then None
      else Some (take (unat sz) (drop i (rl_entries l))))"

definition append_entry :: "LogEntry \<Rightarrow> RaftLog \<Rightarrow> RaftLog" where
  "append_entry e l = l\<lparr>rl_entries := rl_entries l @ [e]\<rparr>"

definition append_entries :: "LogEntry list \<Rightarrow> RaftLog \<Rightarrow> RaftLog" where
  "append_entries es l = fold append_entry es l"

definition truncate_entries_before :: "u64 \<Rightarrow> RaftLog \<Rightarrow> RaftLog option" where
  "truncate_entries_before index l =
     (if \<not> in_log l index then None
      else Some (l\<lparr>rl_entries := take (arr_idx l index) (rl_entries l)\<rparr>))"

section \<open>Well-formed logs\<close>

text \<open>
  Entries follow \<open>prev\<close> when they carry the indices \<open>prev + 1\<close>, \<open>prev + 2\<close>, \dots without
  wrap-around; a log is well-formed when its entries follow the snapshot position.
\<close>

definition follows :: "u64 \<Rightarrow> LogEntry list \<Rightarrow> bool" where
  "follows prev es \<longleftrightarrow> (\<forall>k < length es. unat (le_index (es ! k)) = unat prev + 1 + k)"

definition log_wf :: "RaftLog \<Rightarrow> bool" where
  "log_wf l \<longleftrightarrow> follows (rl_last_included_index l) (rl_entries l)"

lemma follows_Nil [simp]: "follows prev []"
  by (simp add: follows_def)

lemma follows_bound:
  assumes "follows prev es"
  shows "unat prev + length es < 2 ^ 64"
proof (cases "es = []")
  case True
  then show ?thesis using unat_less_64 [of prev] by simp
next
  case False
  then have "unat (le_index (es ! (length es - 1))) = unat prev + 1 + (length es - 1)"
    using assms by (simp add: follows_def)
  then have "unat prev + length es = unat (le_index (es ! (length es - 1)))" using False by simp
  then show ?thesis using unat_less_64 [of "le_index (es ! (length es - 1))"] by simp
qed

lemma follows_take: "follows prev es \<Longrightarrow> follows prev (take n es)"
  by (simp add: follows_def)

lemma follows_append:
  assumes "follows prev es" and "follows (prev + of_nat (length es)) fs"
  shows "follows prev (es @ fs)"
proof -
  have "unat (prev + of_nat (length es)) = unat prev + length es"
    using follows_bound [OF assms(1)] by (rule unat_add_of_nat)
  with assms show ?thesis
    by (auto simp: follows_def nth_append)
qed

lemma last_log_index_wf [log_simps]:
  "log_wf l \<Longrightarrow> unat (last_log_index l) = unat (rl_last_included_index l) + length (rl_entries l)"
  unfolding last_log_index_def last_included_index_def log_wf_def
  by (rule unat_add_of_nat) (rule follows_bound)

lemma in_log_wf [log_simps]:
  "log_wf l \<Longrightarrow> in_log l i \<longleftrightarrow>
     unat (rl_last_included_index l) < unat i \<and> unat i \<le> unat (rl_last_included_index l) + length (rl_entries l)"
  by (simp add: in_log_def word_less_nat_alt word_le_nat_alt last_log_index_wf last_included_index_def)

lemma arr_idx_in_log:
  assumes "in_log l i"
  shows "arr_idx l i = unat i - unat (rl_last_included_index l) - 1"
proof -
  from assms have lt: "rl_last_included_index l < i" by (simp add: in_log_def last_included_index_def)
  have "unat (i - rl_last_included_index l) = unat i - unat (rl_last_included_index l)"
    using lt by (simp add: unat_sub_le)
  moreover from lt have "1 \<le> i - rl_last_included_index l"
    by (simp add: word_le_nat_alt unat_sub_le word_less_nat_alt)
  ultimately show ?thesis by (simp add: arr_idx_def last_included_index_def unat_sub_le)
qed

lemma arr_idx_bound: "log_wf l \<Longrightarrow> in_log l i \<Longrightarrow> arr_idx l i < length (rl_entries l)"
  by (auto simp: arr_idx_in_log in_log_wf)

lemma get_entry_wf:
  assumes "log_wf l"
  shows "get_entry l i = (if in_log l i then Some (rl_entries l ! arr_idx l i) else None)"
  using arr_idx_bound [OF assms] by (simp add: get_entry_def entry_at_def)

lemma get_term_wf:
  assumes "log_wf l"
  shows "get_term l i =
    (if i = rl_last_included_index l then Some (rl_last_included_term l)
     else if in_log l i then Some (le_term (rl_entries l ! arr_idx l i)) else None)"
  using arr_idx_bound [OF assms]
  by (simp add: get_term_def entry_at_def last_included_index_def last_included_term_def)

lemma get_entries_loop_take: "get_entries_loop es i n = take n (drop i es)"
  by (induction n arbitrary: i) (auto simp: take_Suc_conv_app_nth Cons_nth_drop_Suc [symmetric])

lemma append_entries_list: "append_entries es l = l\<lparr>rl_entries := rl_entries l @ es\<rparr>"
  unfolding append_entries_def by (induction es arbitrary: l) (simp_all add: append_entry_def)

lemma truncate_Some_iff:
  "truncate_entries_before i l = Some l' \<longleftrightarrow> in_log l i \<and> l' = l\<lparr>rl_entries := take (arr_idx l i) (rl_entries l)\<rparr>"
  by (auto simp: truncate_entries_before_def)

section \<open>The interface: a replicated log\<close>

text \<open>
  What the node relies on when it edits its log: the terms of the positions between
  \<open>base\<close> and \<open>lst\<close> are known, appending entries that follow the last position keeps the old
  terms and adds the new ones, and cutting the log at a position keeps everything below it.
\<close>

locale log_store =
  fixes base :: "'l \<Rightarrow> u64"
    and lst :: "'l \<Rightarrow> u64"
    and term_at :: "'l \<Rightarrow> u64 \<Rightarrow> u64 option"
    and append :: "LogEntry list \<Rightarrow> 'l \<Rightarrow> 'l"
    and cut :: "u64 \<Rightarrow> 'l \<Rightarrow> 'l option"
    and inv :: "'l \<Rightarrow> bool"
  assumes term_at_iff: "inv l \<Longrightarrow> term_at l i \<noteq> None \<longleftrightarrow> base l \<le> i \<and> i \<le> lst l"
    and base_le: "inv l \<Longrightarrow> base l \<le> lst l"
    and append_inv: "inv l \<Longrightarrow> follows (lst l) es \<Longrightarrow> inv (append es l)"
    and append_base: "base (append es l) = base l"
    and append_last: "inv l \<Longrightarrow> follows (lst l) es \<Longrightarrow> unat (lst (append es l)) = unat (lst l) + length es"
    and append_old: "inv l \<Longrightarrow> follows (lst l) es \<Longrightarrow> i \<le> lst l \<Longrightarrow> term_at (append es l) i = term_at l i"
    and append_new: "inv l \<Longrightarrow> follows (lst l) es \<Longrightarrow> e \<in> set es \<Longrightarrow> term_at (append es l) (le_index e) = Some (le_term e)"
    and cut_ok: "inv l \<Longrightarrow> base l < i \<Longrightarrow> i \<le> lst l \<Longrightarrow>
        \<exists>l'. cut i l = Some l' \<and> inv l' \<and> base l' = base l \<and> lst l' = i - 1 \<and> (\<forall>j < i. term_at l' j = term_at l j)"
begin

text \<open>Every entry of an appended batch can be read back, and the log ends with the batch.\<close>

lemma append_reads_back:
  assumes "inv l" and "follows (lst l) es"
  shows "inv (append es l) \<and> (\<forall>e \<in> set es. term_at (append es l) (le_index e) = Some (le_term e))
    \<and> unat (lst (append es l)) = unat (lst l) + length es"
  using assms by (simp add: append_inv append_new append_last)

text \<open>Replacing a suffix: cut at a position, then append entries that start there.\<close>

lemma replace_suffix:
  assumes inv: "inv l" and i: "base l < i" "i \<le> lst l" and es: "follows (i - 1) es"
  obtains l' where "cut i l = Some l'" and "inv (append es l')"
    and "\<And>j. j < i \<Longrightarrow> term_at (append es l') j = term_at l j"
    and "\<And>e. e \<in> set es \<Longrightarrow> term_at (append es l') (le_index e) = Some (le_term e)"
    and "unat (lst (append es l')) = unat i - 1 + length es"
proof -
  from cut_ok [OF inv i] obtain l' where l': "cut i l = Some l'" "inv l'" "lst l' = i - 1"
    "\<forall>j < i. term_at l' j = term_at l j" by blast
  from i have "0 < unat i" by (simp add: word_less_nat_alt)
  then have pos: "unat (i - 1) = unat i - 1"
    by (simp add: unat_sub_le word_le_nat_alt)
  have "j \<le> i - 1" if "j < i" for j
    using that pos by (simp add: word_le_nat_alt word_less_nat_alt)
  with l' es have old: "term_at (append es l') j = term_at l j" if "j < i" for j
    using that by (simp add: append_old)
  show thesis
    by (rule that [OF l'(1) _ old]) (use l' es pos in \<open>simp_all add: append_inv append_new append_last\<close>)
qed

end

section \<open>The in-memory log implements the interface\<close>

lemma log_append_wf: "log_wf l \<Longrightarrow> follows (last_log_index l) es \<Longrightarrow> log_wf (append_entries es l)"
  by (simp add: append_entries_list log_wf_def follows_append last_log_index_def last_included_index_def)

lemma log_append_old:
  assumes wf: "log_wf l" and es: "follows (last_log_index l) es" and i: "i \<le> last_log_index l"
  shows "get_term (append_entries es l) i = get_term l i"
proof -
  from i have "unat i \<le> unat (rl_last_included_index l) + length (rl_entries l)"
    by (simp add: word_le_nat_alt last_log_index_wf [OF wf])
  moreover have "in_log (append_entries es l) i \<Longrightarrow> arr_idx (append_entries es l) i = arr_idx l i"
    by (simp add: arr_idx_def append_entries_list last_included_index_def)
  ultimately show ?thesis
    using log_append_wf [OF wf es] wf
    by (auto simp: get_term_wf in_log_wf append_entries_list nth_append arr_idx_in_log)
qed

lemma log_append_new:
  assumes wf: "log_wf l" and es: "follows (last_log_index l) es" and e: "e \<in> set es"
  shows "get_term (append_entries es l) (le_index e) = Some (le_term e)"
proof -
  from e obtain k where k: "k < length es" "e = es ! k" by (auto simp: in_set_conv_nth)
  with es have idx: "unat (le_index e) = unat (rl_last_included_index l) + length (rl_entries l) + 1 + k"
    by (simp add: follows_def last_log_index_wf [OF wf])
  then have "le_index e \<noteq> rl_last_included_index l" by auto
  moreover have "in_log (append_entries es l) (le_index e)"
    using idx k log_append_wf [OF wf es] by (simp add: in_log_wf append_entries_list)
  ultimately show ?thesis
    using idx k log_append_wf [OF wf es]
    by (simp add: get_term_wf arr_idx_in_log append_entries_list nth_append)
qed

lemma log_cut_ok:
  assumes wf: "log_wf l" and i: "last_included_index l < i" "i \<le> last_log_index l"
  shows "\<exists>l'. truncate_entries_before i l = Some l' \<and> log_wf l' \<and>
    last_included_index l' = last_included_index l \<and> last_log_index l' = i - 1 \<and>
    (\<forall>j < i. get_term l' j = get_term l j)"
proof -
  have in_l: "in_log l i" using i by (simp add: in_log_def)
  let ?l = "l\<lparr>rl_entries := take (arr_idx l i) (rl_entries l)\<rparr>"
  have wf': "log_wf ?l" using wf by (simp add: log_wf_def follows_take)
  have a: "arr_idx l i = unat i - unat (rl_last_included_index l) - 1" "arr_idx l i < length (rl_entries l)"
    using in_l wf by (simp add: arr_idx_in_log) (rule arr_idx_bound [OF wf in_l])
  have gt: "unat (rl_last_included_index l) < unat i" using in_l wf by (simp add: in_log_wf)
  then have "1 \<le> i" by (simp add: word_le_nat_alt)
  then have "unat (last_log_index ?l) = unat (i - 1)"
    using wf' a gt by (simp add: last_log_index_wf unat_sub_le min_def)
  then have "last_log_index ?l = i - 1" by (simp add: word_unat_eq_iff)
  moreover have "get_term ?l j = get_term l j" if "j < i" for j
    using that wf wf' a gt
    by (auto simp: get_term_wf in_log_wf word_less_nat_alt arr_idx_in_log min_def)
  ultimately show ?thesis
    using in_l wf' by (auto simp: truncate_entries_before_def last_included_index_def)
qed

interpretation rlog: log_store last_included_index last_log_index get_term append_entries
    truncate_entries_before log_wf
proof (unfold_locales, goal_cases)
  case (1 l i)
  then show ?case
    by (auto simp: get_term_wf in_log_wf last_included_index_def word_le_nat_alt last_log_index_wf word_unat_eq_iff)
next
  case (2 l)
  then show ?case by (simp add: word_le_nat_alt last_log_index_wf last_included_index_def)
next
  case (3 l es)
  then show ?case by (rule log_append_wf)
next
  case (4 es l)
  show ?case by (simp add: append_entries_list last_included_index_def)
next
  case (5 l es)
  then show ?case
    using log_append_wf [OF 5] by (simp add: last_log_index_wf append_entries_list)
next
  case (6 l es i)
  then show ?case by (rule log_append_old)
next
  case (7 l es e)
  then show ?case by (rule log_append_new)
next
  case (8 l i)
  then show ?case by (rule log_cut_ok)
qed

end
