(* ===== verification/Message_Text.thy ===== *)
theory Message_Text
  imports VPrelude
begin

text \<open>
  The text of the status messages that the servers send. The program writes them as UTF-8
  string literals; a \<open>std::string\<close> is a sequence of bytes, so each literal is the list of
  its bytes. Where the program formats a path into a message with \<open>std::format\<close>, the
  constant is the text before the \<open>{}\<close> placeholder (the placeholder is always last).
\<close>

definition utf8 :: "nat list \<Rightarrow> string" where
  "utf8 bs = map char_of bs"

definition msg_invalid_token :: string where
  \<comment> \<open>invalid token\<close>
  "msg_invalid_token = utf8
    [0xE6, 0x97, 0xA0, 0xE6, 0x95, 0x88, 0x20, 0x54, 0x6F, 0x6B, 0x65, 0x6E]"

definition msg_mkdir_unknown :: string where
  \<comment> \<open>creating the folder failed: unknown error\<close>
  "msg_mkdir_unknown = utf8
    [0xE5, 0x88, 0x9B, 0xE5, 0xBB, 0xBA, 0xE6, 0x96, 0x87, 0xE4, 0xBB, 0xB6, 0xE5, 0xA4,
     0xB9, 0xE5, 0xA4, 0xB1, 0xE8, 0xB4, 0xA5, 0xEF, 0xBC, 0x9A, 0xE6, 0x9C, 0xAA, 0xE7,
     0x9F, 0xA5, 0xE9, 0x94, 0x99, 0xE8, 0xAF, 0xAF]"

definition msg_upload_unknown :: string where
  \<comment> \<open>uploading the file failed, unknown error\<close>
  "msg_upload_unknown = utf8
    [0xE6, 0x96, 0x87, 0xE4, 0xBB, 0xB6, 0xE4, 0xB8, 0x8A, 0xE4, 0xBC, 0xA0, 0xE5, 0xA4,
     0xB1, 0xE8, 0xB4, 0xA5, 0xEF, 0xBC, 0x8C, 0xE6, 0x9C, 0xAA, 0xE7, 0x9F, 0xA5, 0xE9,
     0x94, 0x99, 0xE8, 0xAF, 0xAF]"

definition msg_ls_no_path :: string where
  \<comment> \<open>the path does not exist\<close>
  "msg_ls_no_path = utf8
    [0xE8, 0xB7, 0xAF, 0xE5, 0xBE, 0x84, 0xE4, 0xB8, 0x8D, 0xE5, 0xAD, 0x98, 0xE5, 0x9C,
     0xA8]"

definition msg_ls_not_dir :: string where
  \<comment> \<open>the node is not a directory\<close>
  "msg_ls_not_dir = utf8
    [0xE8, 0x8A, 0x82, 0xE7, 0x82, 0xB9, 0xE4, 0xB8, 0x8D, 0xE6, 0x98, 0xAF, 0xE7, 0x9B,
     0xAE, 0xE5, 0xBD, 0x95]"

definition msg_ls_no_inode :: string where
  \<comment> \<open>the node does not exist\<close>
  "msg_ls_no_inode = utf8
    [0xE8, 0x8A, 0x82, 0xE7, 0x82, 0xB9, 0xE4, 0xB8, 0x8D, 0xE5, 0xAD, 0x98, 0xE5, 0x9C,
     0xA8]"

definition msg_ls_ok :: string where
  \<comment> \<open>listing directory: \<close>
  "msg_ls_ok = utf8
    [0xE6, 0x98, 0xBE, 0xE7, 0xA4, 0xBA, 0xE7, 0x9B, 0xAE, 0xE5, 0xBD, 0x95, 0xEF, 0xBC,
     0x9A]"

definition msg_pu_exists :: string where
  \<comment> \<open>upload failed: a file of that name exists\<close>
  "msg_pu_exists = utf8
    [0xE6, 0x96, 0x87, 0xE4, 0xBB, 0xB6, 0xE4, 0xB8, 0x8A, 0xE4, 0xBC, 0xA0, 0xE5, 0xA4,
     0xB1, 0xE8, 0xB4, 0xA5, 0xEF, 0xBC, 0x9A, 0xE5, 0xAD, 0x98, 0xE5, 0x9C, 0xA8, 0xE5,
     0x90, 0x8C, 0xE5, 0x90, 0x8D, 0xE6, 0x96, 0x87, 0xE4, 0xBB, 0xB6]"

definition msg_pd_no_path :: string where
  \<comment> \<open>download failed: does not exist\<close>
  "msg_pd_no_path = utf8
    [0xE6, 0x96, 0x87, 0xE4, 0xBB, 0xB6, 0xE4, 0xB8, 0x8B, 0xE8, 0xBD, 0xBD, 0xE5, 0xA4,
     0xB1, 0xE8, 0xB4, 0xA5, 0xEF, 0xBC, 0x9A, 0xE4, 0xB8, 0x8D, 0xE5, 0xAD, 0x98, 0xE5,
     0x9C, 0xA8]"

definition msg_pd_no_inode :: string where
  \<comment> \<open>download failed: the node does not exist\<close>
  "msg_pd_no_inode = utf8
    [0xE6, 0x96, 0x87, 0xE4, 0xBB, 0xB6, 0xE4, 0xB8, 0x8B, 0xE8, 0xBD, 0xBD, 0xE5, 0xA4,
     0xB1, 0xE8, 0xB4, 0xA5, 0xEF, 0xBC, 0x9A, 0xE8, 0x8A, 0x82, 0xE7, 0x82, 0xB9, 0xE4,
     0xB8, 0x8D, 0xE5, 0xAD, 0x98, 0xE5, 0x9C, 0xA8]"

definition msg_mkdir_no_parent :: string where
  \<comment> \<open>mkdir failed: the parent directory does not exist\<close>
  "msg_mkdir_no_parent = utf8
    [0xE7, 0x9B, 0xAE, 0xE5, 0xBD, 0x95, 0xE5, 0x88, 0x9B, 0xE5, 0xBB, 0xBA, 0xE5, 0xA4,
     0xB1, 0xE8, 0xB4, 0xA5, 0xEF, 0xBC, 0x9A, 0xE7, 0x88, 0xB6, 0xE7, 0x9B, 0xAE, 0xE5,
     0xBD, 0x95, 0xE4, 0xB8, 0x8D, 0xE5, 0xAD, 0x98, 0xE5, 0x9C, 0xA8]"

definition msg_mkdir_no_inode :: string where
  \<comment> \<open>mkdir failed: the parent node does not exist\<close>
  "msg_mkdir_no_inode = utf8
    [0xE7, 0x9B, 0xAE, 0xE5, 0xBD, 0x95, 0xE5, 0x88, 0x9B, 0xE5, 0xBB, 0xBA, 0xE5, 0xA4,
     0xB1, 0xE8, 0xB4, 0xA5, 0xEF, 0xBC, 0x9A, 0xE7, 0x88, 0xB6, 0xE8, 0x8A, 0x82, 0xE7,
     0x82, 0xB9, 0xE4, 0xB8, 0x8D, 0xE5, 0xAD, 0x98, 0xE5, 0x9C, 0xA8]"

definition msg_mkdir_not_dir :: string where
  \<comment> \<open>mkdir failed: the parent node is not a directory\<close>
  "msg_mkdir_not_dir = utf8
    [0xE7, 0x9B, 0xAE, 0xE5, 0xBD, 0x95, 0xE5, 0x88, 0x9B, 0xE5, 0xBB, 0xBA, 0xE5, 0xA4,
     0xB1, 0xE8, 0xB4, 0xA5, 0xEF, 0xBC, 0x9A, 0xE7, 0x88, 0xB6, 0xE8, 0x8A, 0x82, 0xE7,
     0x82, 0xB9, 0xE4, 0xB8, 0x8D, 0xE6, 0x98, 0xAF, 0xE7, 0x9B, 0xAE, 0xE5, 0xBD, 0x95]"

definition msg_mkdir_bad_name :: string where
  \<comment> \<open>mkdir failed: illegal name, empty or with a slash\<close>
  "msg_mkdir_bad_name = utf8
    [0xE7, 0x9B, 0xAE, 0xE5, 0xBD, 0x95, 0xE5, 0x88, 0x9B, 0xE5, 0xBB, 0xBA, 0xE5, 0xA4,
     0xB1, 0xE8, 0xB4, 0xA5, 0xEF, 0xBC, 0x9A, 0xE9, 0x9D, 0x9E, 0xE6, 0xB3, 0x95, 0xE7,
     0x9B, 0xAE, 0xE5, 0xBD, 0x95, 0xE5, 0x90, 0x8D, 0xEF, 0xBC, 0x8C, 0xE4, 0xB8, 0x8D,
     0xE8, 0x83, 0xBD, 0xE4, 0xB8, 0xBA, 0xE7, 0xA9, 0xBA, 0xE6, 0x88, 0x96, 0xE5, 0x8C,
     0x85, 0xE5, 0x90, 0xAB, 0x27, 0x2F, 0x27]"

definition msg_mkdir_exists :: string where
  \<comment> \<open>mkdir failed: the directory exists\<close>
  "msg_mkdir_exists = utf8
    [0xE7, 0x9B, 0xAE, 0xE5, 0xBD, 0x95, 0xE5, 0x88, 0x9B, 0xE5, 0xBB, 0xBA, 0xE5, 0xA4,
     0xB1, 0xE8, 0xB4, 0xA5, 0xEF, 0xBC, 0x9A, 0xE7, 0x9B, 0xAE, 0xE5, 0xBD, 0x95, 0xE5,
     0xB7, 0xB2, 0xE5, 0xAD, 0x98, 0xE5, 0x9C, 0xA8]"

definition msg_mkdir_ok :: string where
  \<comment> \<open>created directory: \<close>
  "msg_mkdir_ok = utf8
    [0xE5, 0x88, 0x9B, 0xE5, 0xBB, 0xBA, 0xE7, 0x9B, 0xAE, 0xE5, 0xBD, 0x95, 0xE6, 0x88,
     0x90, 0xE5, 0x8A, 0x9F, 0xEF, 0xBC, 0x9A]"

definition msg_upload_exists :: string where
  \<comment> \<open>upload failed: exists\<close>
  "msg_upload_exists = utf8
    [0xE6, 0x96, 0x87, 0xE4, 0xBB, 0xB6, 0xE4, 0xB8, 0x8A, 0xE4, 0xBC, 0xA0, 0xE5, 0xA4,
     0xB1, 0xE8, 0xB4, 0xA5, 0xEF, 0xBC, 0x9A, 0xE5, 0xB7, 0xB2, 0xE5, 0xAD, 0x98, 0xE5,
     0x9C, 0xA8]"

definition msg_upload_no_slash :: string where
  \<comment> \<open>illegal file path: no separator\<close>
  "msg_upload_no_slash = utf8
    [0xE6, 0x96, 0x87, 0xE4, 0xBB, 0xB6, 0xE8, 0xB7, 0xAF, 0xE5, 0xBE, 0x84, 0xE9, 0x9D,
     0x9E, 0xE6, 0xB3, 0x95, 0xEF, 0xBC, 0x9A, 0xE6, 0x97, 0xA0, 0xE5, 0x88, 0x86, 0xE9,
     0x9A, 0x94, 0xE7, 0xAC, 0xA6]"

definition msg_upload_no_parent :: string where
  \<comment> \<open>upload failed: no parent directory \<close>
  "msg_upload_no_parent = utf8
    [0xE6, 0x96, 0x87, 0xE4, 0xBB, 0xB6, 0xE4, 0xB8, 0x8A, 0xE4, 0xBC, 0xA0, 0xE5, 0xA4,
     0xB1, 0xE8, 0xB4, 0xA5, 0xEF, 0xBC, 0x9A, 0xE7, 0x88, 0xB6, 0xE7, 0x9B, 0xAE, 0xE5,
     0xBD, 0x95, 0xE4, 0xB8, 0x8D, 0xE5, 0xAD, 0x98, 0xE5, 0x9C, 0xA8, 0x20]"

definition msg_upload_no_inode :: string where
  \<comment> \<open>upload failed: the parent node does not exist\<close>
  "msg_upload_no_inode = utf8
    [0xE6, 0x96, 0x87, 0xE4, 0xBB, 0xB6, 0xE4, 0xB8, 0x8A, 0xE4, 0xBC, 0xA0, 0xE5, 0xA4,
     0xB1, 0xE8, 0xB4, 0xA5, 0xEF, 0xBC, 0x9A, 0xE7, 0x88, 0xB6, 0xE8, 0x8A, 0x82, 0xE7,
     0x82, 0xB9, 0xE4, 0xB8, 0x8D, 0xE5, 0xAD, 0x98, 0xE5, 0x9C, 0xA8]"

definition msg_upload_not_dir :: string where
  \<comment> \<open>upload failed: the parent node is not a directory\<close>
  "msg_upload_not_dir = utf8
    [0xE6, 0x96, 0x87, 0xE4, 0xBB, 0xB6, 0xE4, 0xB8, 0x8A, 0xE4, 0xBC, 0xA0, 0xE5, 0xA4,
     0xB1, 0xE8, 0xB4, 0xA5, 0xEF, 0xBC, 0x9A, 0xE7, 0x88, 0xB6, 0xE8, 0x8A, 0x82, 0xE7,
     0x82, 0xB9, 0xE4, 0xB8, 0x8D, 0xE6, 0x98, 0xAF, 0xE7, 0x9B, 0xAE, 0xE5, 0xBD, 0x95]"

definition msg_upload_bad_name :: string where
  \<comment> \<open>upload failed: illegal name, empty or with a slash\<close>
  "msg_upload_bad_name = utf8
    [0xE6, 0x96, 0x87, 0xE4, 0xBB, 0xB6, 0xE4, 0xB8, 0x8A, 0xE4, 0xBC, 0xA0, 0xE5, 0xA4,
     0xB1, 0xE8, 0xB4, 0xA5, 0xEF, 0xBC, 0x9A, 0xE9, 0x9D, 0x9E, 0xE6, 0xB3, 0x95, 0xE6,
     0x96, 0x87, 0xE4, 0xBB, 0xB6, 0xE5, 0x90, 0x8D, 0xEF, 0xBC, 0x8C, 0xE4, 0xB8, 0x8D,
     0xE8, 0x83, 0xBD, 0xE4, 0xB8, 0xBA, 0xE7, 0xA9, 0xBA, 0xE6, 0x88, 0x96, 0xE5, 0x8C,
     0x85, 0xE5, 0x90, 0xAB, 0x27, 0x2F, 0x27]"

definition msg_upload_ok :: string where
  \<comment> \<open>uploaded file: \<close>
  "msg_upload_ok = utf8
    [0xE6, 0x96, 0x87, 0xE4, 0xBB, 0xB6, 0xE4, 0xB8, 0x8A, 0xE4, 0xBC, 0xA0, 0xE6, 0x88,
     0x90, 0xE5, 0x8A, 0x9F, 0xEF, 0xBC, 0x9A]"

definition msg_block_create_failed :: string where
  \<comment> \<open>creating the block failed\<close>
  "msg_block_create_failed = utf8
    [0xE5, 0x88, 0x86, 0xE7, 0x89, 0x87, 0xE5, 0x88, 0x9B, 0xE5, 0xBB, 0xBA, 0xE5, 0xA4,
     0xB1, 0xE8, 0xB4, 0xA5]"

definition msg_block_write_failed :: string where
  \<comment> \<open>writing the block failed\<close>
  "msg_block_write_failed = utf8
    [0xE5, 0x88, 0x86, 0xE7, 0x89, 0x87, 0xE5, 0x86, 0x99, 0xE5, 0x85, 0xA5, 0xE5, 0xA4,
     0xB1, 0xE8, 0xB4, 0xA5]"

definition msg_block_upload_ok :: string where
  \<comment> \<open>block uploaded\<close>
  "msg_block_upload_ok = utf8
    [0xE5, 0x88, 0x86, 0xE7, 0x89, 0x87, 0xE4, 0xB8, 0x8A, 0xE4, 0xBC, 0xA0, 0xE6, 0x88,
     0x90, 0xE5, 0x8A, 0x9F]"

definition msg_block_read_failed :: string where
  \<comment> \<open>reading the block failed\<close>
  "msg_block_read_failed = utf8
    [0xE5, 0x88, 0x86, 0xE7, 0x89, 0x87, 0xE8, 0xAF, 0xBB, 0xE5, 0x8F, 0x96, 0xE5, 0xA4,
     0xB1, 0xE8, 0xB4, 0xA5]"

definition msg_block_read_ok :: string where
  \<comment> \<open>block read\<close>
  "msg_block_read_ok = utf8
    [0xE5, 0x88, 0x86, 0xE7, 0x89, 0x87, 0xE8, 0xAF, 0xBB, 0xE5, 0x8F, 0x96, 0xE6, 0x88,
     0x90, 0xE5, 0x8A, 0x9F]"

definition msg_reg_empty :: string where
  \<comment> \<open>user name or password empty\<close>
  "msg_reg_empty = utf8
    [0xE7, 0x94, 0xA8, 0xE6, 0x88, 0xB7, 0xE5, 0x90, 0x8D, 0xE6, 0x88, 0x96, 0xE5, 0xAF,
     0x86, 0xE7, 0xA0, 0x81, 0xE4, 0xB8, 0x8D, 0xE8, 0x83, 0xBD, 0xE4, 0xB8, 0xBA, 0xE7,
     0xA9, 0xBA]"

definition msg_reg_bad_role :: string where
  \<comment> \<open>invalid role\<close>
  "msg_reg_bad_role = utf8
    [0xE6, 0x97, 0xA0, 0xE6, 0x95, 0x88, 0xE7, 0x94, 0xA8, 0xE6, 0x88, 0xB7, 0xE6, 0x9D,
     0x83, 0xE9, 0x99, 0x90, 0xE5, 0x80, 0xBC]"

definition msg_reg_bad_secret :: string where
  \<comment> \<open>wrong admin secret\<close>
  "msg_reg_bad_secret = utf8
    [0xE7, 0xAE, 0xA1, 0xE7, 0x90, 0x86, 0xE5, 0x91, 0x98, 0xE5, 0xAF, 0x86, 0xE9, 0x92,
     0xA5, 0xE9, 0x94, 0x99, 0xE8, 0xAF, 0xAF]"

definition msg_reg_query_failed :: string where
  \<comment> \<open>server database error, cannot query the user\<close>
  "msg_reg_query_failed = utf8
    [0xE6, 0x9C, 0x8D, 0xE5, 0x8A, 0xA1, 0xE5, 0x99, 0xA8, 0xE6, 0x95, 0xB0, 0xE6, 0x8D,
     0xAE, 0xE5, 0xBA, 0x93, 0xE9, 0x94, 0x99, 0xE8, 0xAF, 0xAF, 0xEF, 0xBC, 0x8C, 0xE6,
     0x97, 0xA0, 0xE6, 0xB3, 0x95, 0xE6, 0x9F, 0xA5, 0xE8, 0xAF, 0xA2, 0xE7, 0x94, 0xA8,
     0xE6, 0x88, 0xB7, 0xE6, 0x98, 0xAF, 0xE5, 0x90, 0xA6, 0xE5, 0xAD, 0x98, 0xE5, 0x9C,
     0xA8]"

definition msg_reg_exists :: string where
  \<comment> \<open>the user name exists\<close>
  "msg_reg_exists = utf8
    [0xE7, 0x94, 0xA8, 0xE6, 0x88, 0xB7, 0xE5, 0x90, 0x8D, 0xE5, 0xB7, 0xB2, 0xE5, 0xAD,
     0x98, 0xE5, 0x9C, 0xA8]"

definition msg_reg_prepare_failed :: string where
  \<comment> \<open>SQL prepare failed, cannot create the user\<close>
  "msg_reg_prepare_failed = utf8
    [0xE6, 0x95, 0xB0, 0xE6, 0x8D, 0xAE, 0xE5, 0xBA, 0x93, 0x20, 0x53, 0x51, 0x4C, 0x20,
     0xE5, 0x87, 0x86, 0xE5, 0xA4, 0x87, 0xE5, 0xA4, 0xB1, 0xE8, 0xB4, 0xA5, 0xEF, 0xBC,
     0x8C, 0xE6, 0x97, 0xA0, 0xE6, 0xB3, 0x95, 0xE5, 0x88, 0x9B, 0xE5, 0xBB, 0xBA, 0xE7,
     0x94, 0xA8, 0xE6, 0x88, 0xB7]"

definition msg_reg_exec_failed :: string where
  \<comment> \<open>SQL execution failed, cannot create the user\<close>
  "msg_reg_exec_failed = utf8
    [0xE6, 0x95, 0xB0, 0xE6, 0x8D, 0xAE, 0xE5, 0xBA, 0x93, 0x20, 0x53, 0x51, 0x4C, 0x20,
     0xE6, 0x89, 0xA7, 0xE8, 0xA1, 0x8C, 0xE5, 0xA4, 0xB1, 0xE8, 0xB4, 0xA5, 0xEF, 0xBC,
     0x8C, 0xE6, 0x97, 0xA0, 0xE6, 0xB3, 0x95, 0xE5, 0x88, 0x9B, 0xE5, 0xBB, 0xBA, 0xE7,
     0x94, 0xA8, 0xE6, 0x88, 0xB7]"

definition msg_reg_ok :: string where
  \<comment> \<open>registered\<close>
  "msg_reg_ok = utf8
    [0xE6, 0xB3, 0xA8, 0xE5, 0x86, 0x8C, 0xE6, 0x88, 0x90, 0xE5, 0x8A, 0x9F]"

definition msg_del_failed :: string where
  \<comment> \<open>server database error, cannot delete the user\<close>
  "msg_del_failed = utf8
    [0xE6, 0x9C, 0x8D, 0xE5, 0x8A, 0xA1, 0xE5, 0x99, 0xA8, 0xE6, 0x95, 0xB0, 0xE6, 0x8D,
     0xAE, 0xE5, 0xBA, 0x93, 0xE9, 0x94, 0x99, 0xE8, 0xAF, 0xAF, 0xEF, 0xBC, 0x8C, 0xE6,
     0x97, 0xA0, 0xE6, 0xB3, 0x95, 0xE5, 0x88, 0xA0, 0xE9, 0x99, 0xA4, 0xE7, 0x94, 0xA8,
     0xE6, 0x88, 0xB7]"

definition msg_del_ok :: string where
  \<comment> \<open>deleted\<close>
  "msg_del_ok = utf8
    [0xE6, 0xB3, 0xA8, 0xE9, 0x94, 0x80, 0xE6, 0x88, 0x90, 0xE5, 0x8A, 0x9F]"

definition msg_login_query_failed :: string where
  \<comment> \<open>server database error, cannot query the user\<close>
  "msg_login_query_failed = utf8
    [0xE6, 0x9C, 0x8D, 0xE5, 0x8A, 0xA1, 0xE5, 0x99, 0xA8, 0xE6, 0x95, 0xB0, 0xE6, 0x8D,
     0xAE, 0xE5, 0xBA, 0x93, 0xE9, 0x94, 0x99, 0xE8, 0xAF, 0xAF, 0xEF, 0xBC, 0x8C, 0xE6,
     0x97, 0xA0, 0xE6, 0xB3, 0x95, 0xE6, 0x9F, 0xA5, 0xE8, 0xAF, 0xA2, 0xE7, 0x94, 0xA8,
     0xE6, 0x88, 0xB7]"

definition msg_login_bad :: string where
  \<comment> \<open>wrong user name or password\<close>
  "msg_login_bad = utf8
    [0xE7, 0x94, 0xA8, 0xE6, 0x88, 0xB7, 0xE5, 0x90, 0x8D, 0xE6, 0x88, 0x96, 0xE5, 0xAF,
     0x86, 0xE7, 0xA0, 0x81, 0xE9, 0x94, 0x99, 0xE8, 0xAF, 0xAF]"

definition msg_login_disabled :: string where
  \<comment> \<open>the user is disabled, ask the administrator\<close>
  "msg_login_disabled = utf8
    [0xE7, 0x94, 0xA8, 0xE6, 0x88, 0xB7, 0xE8, 0xA2, 0xAB, 0xE7, 0xA6, 0x81, 0xE7, 0x94,
     0xA8, 0xEF, 0xBC, 0x8C, 0xE8, 0xAF, 0xB7, 0xE8, 0x81, 0x94, 0xE7, 0xB3, 0xBB, 0xE7,
     0xAE, 0xA1, 0xE7, 0x90, 0x86, 0xE5, 0x91, 0x98]"

definition msg_login_update_failed :: string where
  \<comment> \<open>server database error, cannot update the user\<close>
  "msg_login_update_failed = utf8
    [0xE6, 0x9C, 0x8D, 0xE5, 0x8A, 0xA1, 0xE5, 0x99, 0xA8, 0xE6, 0x95, 0xB0, 0xE6, 0x8D,
     0xAE, 0xE5, 0xBA, 0x93, 0xE9, 0x94, 0x99, 0xE8, 0xAF, 0xAF, 0xEF, 0xBC, 0x8C, 0xE6,
     0x97, 0xA0, 0xE6, 0xB3, 0x95, 0xE6, 0x9B, 0xB4, 0xE6, 0x96, 0xB0, 0xE7, 0x94, 0xA8,
     0xE6, 0x88, 0xB7, 0xE6, 0x95, 0xB0, 0xE6, 0x8D, 0xAE]"

definition msg_login_ok :: string where
  \<comment> \<open>logged in\<close>
  "msg_login_ok = utf8
    [0xE7, 0x99, 0xBB, 0xE5, 0xBD, 0x95, 0xE6, 0x88, 0x90, 0xE5, 0x8A, 0x9F]"

end
