(* ===== verification/Common.thy ===== *)
theory Common
  imports Message_Text
begin

text \<open>
  \<open>include/vosfs/common\<close>: the error codes behind \<open>Result<T> = std::expected<T, Error>\<close>
  (modelled as the sum \<open>Error + 'a\<close>), the RPC status codes, the clock and file helpers and
  the token check. The JSON web token library \<open>jwt-cpp\<close> is not part of the repository; it
  is the parameter \<open>jwt\<close>, a record of the calls the program makes.
\<close>

section \<open>Errors\<close>

datatype Error = Error int

definition kDatabaseConnectionFailed :: int where "kDatabaseConnectionFailed = 0"
definition kDatabaseQueryFailed :: int where "kDatabaseQueryFailed = 1"
definition kDatabaseInsertFailed :: int where "kDatabaseInsertFailed = 2"
definition kDatabaseUpdateFailed :: int where "kDatabaseUpdateFailed = 3"
definition kDatabaseDeleteFailed :: int where "kDatabaseDeleteFailed = 4"
definition kFileOpenFailed :: int where "kFileOpenFailed = 5"
definition kFileSeekFailed :: int where "kFileSeekFailed = 6"
definition kFileReadFailed :: int where "kFileReadFailed = 7"
definition kFileWriteFailed :: int where "kFileWriteFailed = 8"
definition kFileRenameFailed :: int where "kFileRenameFailed = 9"
definition kFileCreateFailed :: int where "kFileCreateFailed = 10"
definition kFileNotFound :: int where "kFileNotFound = 11"
definition kFileError :: int where "kFileError = 12"
definition kParseFailed :: int where "kParseFailed = 13"
definition kSerializeFailed :: int where "kSerializeFailed = 14"

type_synonym 'a Result = "Error + 'a"

definition make_error :: "int \<Rightarrow> Error" where
  "make_error code = Error code"

definition Error_code :: "Error \<Rightarrow> int" where
  "Error_code e = (case e of Error c \<Rightarrow> c)"

text \<open>\<open>strerror\<close> is the C library's; every code without a case of its own ends there.\<close>

definition Error_message :: "(int \<Rightarrow> string) \<Rightarrow> Error \<Rightarrow> string" where
  "Error_message strerror e =
     (let code = Error_code e in
      if code = kDatabaseConnectionFailed then ''database connection failed''
      else if code = kDatabaseQueryFailed then ''database query execution failed''
      else if code = kDatabaseInsertFailed then ''database insert operation failed''
      else if code = kDatabaseUpdateFailed then ''database update operation failed''
      else if code = kDatabaseDeleteFailed then ''database delete operation failed''
      else if code = kFileOpenFailed then ''file open failed''
      else if code = kFileSeekFailed then ''file seek failed''
      else if code = kFileReadFailed then ''file read failed''
      else if code = kFileWriteFailed then ''file write failed''
      else if code = kFileRenameFailed then ''file rename operation failed''
      else if code = kFileCreateFailed then ''file creation failed''
      else if code = kFileNotFound then ''file not found''
      else if code = kFileError then ''file error''
      else strerror code)"

section \<open>Status codes\<close>

datatype Status = Status u32

definition kOk :: u32 where "kOk = 0"
definition kFailed :: u32 where "kFailed = 1"
definition kInvalidArgument :: u32 where "kInvalidArgument = 2"
definition kInternal :: u32 where "kInternal = 3"
definition kPermissionDenied :: u32 where "kPermissionDenied = 4"
definition kNotLeader :: u32 where "kNotLeader = 5"

definition Status_ok :: "Status \<Rightarrow> bool" where
  "Status_ok s = (case s of Status c \<Rightarrow> c = kOk)"

definition Status_is_failed :: "Status \<Rightarrow> bool" where
  "Status_is_failed s = (case s of Status c \<Rightarrow> c = kFailed)"

definition Status_is_invalid_argument :: "Status \<Rightarrow> bool" where
  "Status_is_invalid_argument s = (case s of Status c \<Rightarrow> c = kInvalidArgument)"

definition Status_is_internal :: "Status \<Rightarrow> bool" where
  "Status_is_internal s = (case s of Status c \<Rightarrow> c = kInternal)"

definition Status_is_permission_denied :: "Status \<Rightarrow> bool" where
  "Status_is_permission_denied s = (case s of Status c \<Rightarrow> c = kPermissionDenied)"

definition Status_is_not_leader :: "Status \<Rightarrow> bool" where
  "Status_is_not_leader s = (case s of Status c \<Rightarrow> c = kNotLeader)"

text \<open>\<open>code()\<close> returns a \<open>uint8_t\<close>: the code is truncated to its low byte.\<close>

definition Status_code :: "Status \<Rightarrow> u8" where
  "Status_code s = (case s of Status c \<Rightarrow> ucast c)"

definition Status_message :: "Status \<Rightarrow> string" where
  "Status_message s =
     (case s of Status c \<Rightarrow>
        if c = kOk then ''ok''
        else if c = kFailed then ''failed''
        else if c = kInvalidArgument then ''invalid arguement''
        else if c = kInternal then ''internal error''
        else if c = kPermissionDenied then ''permission denied''
        else if c = kNotLeader then ''not leader''
        else ''unknown error'')"

section \<open>Helpers\<close>

text \<open>
  \<open>util::current_ms\<close> on the \<open>timespec\<close> that \<open>clock_gettime\<close> fills; \<open>util::get_file_size\<close>
  on what \<open>statx\<close> answers (\<open>Inl errno\<close>, or the size as 64 bits, returned as an \<open>int\<close>).
\<close>

definition current_ms :: "u64 \<Rightarrow> u64 \<Rightarrow> u64" where
  "current_ms tv_sec tv_nsec = tv_sec * 1000 + tv_nsec div 1000000"

definition ENOENT :: int where "ENOENT = 2"

definition get_file_size :: "(int + u64) \<Rightarrow> 32 word" where
  "get_file_size statx =
     (case statx of
        Inl err \<Rightarrow> (if err = ENOENT then 0 else - 1)
      | Inr stx_size \<Rightarrow> ucast stx_size)"

section \<open>Tokens\<close>

text \<open>
  The calls of \<open>jwt-cpp\<close>: \<open>jwt_decode\<close> is \<open>None\<close> when \<open>jwt::decode\<close> throws;
  \<open>jwt_verify issuer secret d\<close> is false when \<open>verifier.verify(d)\<close> throws;
  \<open>jwt_claim d name\<close> is \<open>None\<close> when the claim is missing or not a string.
\<close>

record 'tok jwt =
  jwt_decode :: "string \<Rightarrow> 'tok option"
  jwt_verify :: "string \<Rightarrow> string \<Rightarrow> 'tok \<Rightarrow> bool"
  jwt_claim :: "'tok \<Rightarrow> string \<Rightarrow> string option"

definition DEFAULT_JWT_ISSUER :: string where "DEFAULT_JWT_ISSUER = ''vosfs-issuer''"
definition DEFAULT_JWT_ISSUER_SECRET :: string where "DEFAULT_JWT_ISSUER_SECRET = ''vosfs-secret''"
definition DEFAULT_TOKEN_VALID_TIME_IN_SECOND :: u64 where "DEFAULT_TOKEN_VALID_TIME_IN_SECOND = 3600"

definition vertify_token :: "'tok jwt \<Rightarrow> string \<Rightarrow> bool" where
  "vertify_token J token =
     (case jwt_decode J token of
        None \<Rightarrow> False
      | Some decoded \<Rightarrow> jwt_verify J DEFAULT_JWT_ISSUER DEFAULT_JWT_ISSUER_SECRET decoded)"

section \<open>Properties\<close>

lemmas error_code_defs =
  kDatabaseConnectionFailed_def kDatabaseQueryFailed_def kDatabaseInsertFailed_def
  kDatabaseUpdateFailed_def kDatabaseDeleteFailed_def kFileOpenFailed_def kFileSeekFailed_def
  kFileReadFailed_def kFileWriteFailed_def kFileRenameFailed_def kFileCreateFailed_def
  kFileNotFound_def kFileError_def kParseFailed_def kSerializeFailed_def

lemmas status_code_defs =
  kOk_def kFailed_def kInvalidArgument_def kInternal_def kPermissionDenied_def kNotLeader_def

lemmas status_pred_defs =
  Status_ok_def Status_is_failed_def Status_is_invalid_argument_def Status_is_internal_def
  Status_is_permission_denied_def Status_is_not_leader_def

lemma status_codes_distinct [simp]:
  "distinct [kOk, kFailed, kInvalidArgument, kInternal, kPermissionDenied, kNotLeader]"
  by (simp add: status_code_defs)

lemma status_codes_neq [simp]:
  "kInvalidArgument \<noteq> kOk" "kInternal \<noteq> kOk" "kPermissionDenied \<noteq> kOk" "kNotLeader \<noteq> kOk" "kFailed \<noteq> kOk"
  "kPermissionDenied \<noteq> kNotLeader" "kNotLeader \<noteq> kPermissionDenied" "kNotLeader \<noteq> kFailed" "kPermissionDenied \<noteq> kFailed"
  by (simp_all add: status_code_defs)

end
