(* ===== verification/Raft_Persister.thy ===== *)
theory Raft_Persister
  imports Raft_Log Common
begin

text \<open>
  \<open>class RocksDBEngine\<close> (\<open>include/vosfs/common/util/rocksdb_engine.hpp\<close>) and
  \<open>class Persister\<close> (\<open>src/raft/persister.cpp\<close>): the durable copy of the hard state and of
  the log. RocksDB itself and the protocol buffer runtime are outside the repository. The
  record \<open>rocksdb\<close> holds the calls made of a \<open>rocksdb::DB\<close>, on an abstract type \<open>'db\<close> of
  database contents; the record \<open>codec\<close> holds \<open>SerializeAsString\<close> and \<open>ParseFromString\<close>
  (\<open>None\<close> when it returns false) of the messages that are stored as bytes. What the code
  relies on is stated by \<open>rocksdb_spec\<close> and by the round trip of the codec at the message
  concerned, as hypotheses of the theorems that need them.
\<close>

datatype rocksdb_status = StOk | StNotFound | StError

datatype batch_op = BPut string string | BDelete string

record 'db rocksdb =
  DB_Put :: "'db \<Rightarrow> string \<Rightarrow> string \<Rightarrow> rocksdb_status \<times> 'db"
  DB_Get :: "'db \<Rightarrow> string \<Rightarrow> rocksdb_status \<times> string"
  DB_Delete :: "'db \<Rightarrow> string \<Rightarrow> rocksdb_status \<times> 'db"
  DB_Write :: "'db \<Rightarrow> batch_op list \<Rightarrow> rocksdb_status \<times> 'db"
  DB_Keys :: "'db \<Rightarrow> rocksdb_status \<times> string list"

record codec =
  ser_hard_state :: "HardState \<Rightarrow> string"
  par_hard_state :: "string \<Rightarrow> HardState option"
  ser_entry :: "LogEntry \<Rightarrow> string"
  par_entry :: "string \<Rightarrow> LogEntry option"
  ser_command :: "EntryCommand \<Rightarrow> string"
  par_command :: "string \<Rightarrow> EntryCommand option"
  ser_snapshot :: "Snapshot \<Rightarrow> string"
  par_snapshot :: "string \<Rightarrow> Snapshot option"

section \<open>RocksDBEngine\<close>

definition engine_put :: "'db rocksdb \<Rightarrow> string \<Rightarrow> string \<Rightarrow> 'db \<Rightarrow> rocksdb_status \<times> 'db" where
  "engine_put R key value db = DB_Put R db key value"

definition engine_get :: "'db rocksdb \<Rightarrow> string \<Rightarrow> 'db \<Rightarrow> rocksdb_status \<times> string" where
  "engine_get R key db = DB_Get R db key"

definition engine_truncate :: "'db rocksdb \<Rightarrow> string \<Rightarrow> 'db \<Rightarrow> rocksdb_status \<times> 'db" where
  "engine_truncate R key db = DB_Delete R db key"

definition engine_batch_write :: "'db rocksdb \<Rightarrow> batch_op list \<Rightarrow> 'db \<Rightarrow> rocksdb_status \<times> 'db" where
  "engine_batch_write R batch db = DB_Write R db batch"

definition engine_multi_get :: "'db rocksdb \<Rightarrow> string list \<Rightarrow> 'db \<Rightarrow> (rocksdb_status \<times> string) list" where
  "engine_multi_get R keys db = map (DB_Get R db) keys"

text \<open>\<open>clear\<close>: delete every key the iterator visits, in one batch; nothing to write when empty.\<close>

definition engine_clear :: "'db rocksdb \<Rightarrow> 'db \<Rightarrow> rocksdb_status \<times> 'db" where
  "engine_clear R db =
     (case DB_Keys R db of (status, keys) \<Rightarrow>
        let batch = map BDelete keys in
        if status \<noteq> StOk then (status, db)
        else if length batch = 0 then (StOk, db)
        else DB_Write R db batch)"

section \<open>Persister\<close>

definition HARD_STATE_KEY :: string where "HARD_STATE_KEY = ''hard_state''"

definition get_entry_key :: "u64 \<Rightarrow> string" where
  "get_entry_key index = ''log'' @ to_string index"

definition save_hard_state :: "'db rocksdb \<Rightarrow> codec \<Rightarrow> HardState \<Rightarrow> 'db \<Rightarrow> 'db outcome" where
  "save_hard_state R C hs db =
     (case engine_put R HARD_STATE_KEY (ser_hard_state C hs) db of
        (status, db') \<Rightarrow> if status \<noteq> StOk then Crashed else Done db')"

definition load_hard_state :: "'db rocksdb \<Rightarrow> codec \<Rightarrow> 'db \<Rightarrow> HardState Result \<times> 'db" where
  "load_hard_state R C db =
     (case engine_get R HARD_STATE_KEY db of
        (status, payload) \<Rightarrow>
          if status \<noteq> StOk then
            (if status = StNotFound then
               (let hs = HardState_default\<lparr>hs_current_term := 0, hs_voted_for := None\<rparr> in
                case engine_put R HARD_STATE_KEY (ser_hard_state C hs) db of
                  (status, db') \<Rightarrow>
                    if status \<noteq> StOk then (Inl (make_error kDatabaseInsertFailed), db')
                    else (Inr hs, db'))
             else (Inl (make_error kDatabaseQueryFailed), db))
          else
            (case par_hard_state C payload of
               None \<Rightarrow> (Inl (make_error kDatabaseQueryFailed), db)
             | Some hs \<Rightarrow> (Inr hs, db)))"

definition save_entry :: "'db rocksdb \<Rightarrow> codec \<Rightarrow> LogEntry \<Rightarrow> 'db \<Rightarrow> 'db outcome" where
  "save_entry R C e db =
     (case engine_put R (get_entry_key (le_index e)) (ser_entry C e) db of
        (status, db') \<Rightarrow> if status \<noteq> StOk then Crashed else Done db')"

definition save_entries :: "'db rocksdb \<Rightarrow> codec \<Rightarrow> LogEntry list \<Rightarrow> 'db \<Rightarrow> 'db outcome" where
  "save_entries R C es db =
     (let batch = map (\<lambda>e. BPut (get_entry_key (le_index e)) (ser_entry C e)) es in
      case engine_batch_write R batch db of
        (status, db') \<Rightarrow> if status \<noteq> StOk then Crashed else Done db')"

text \<open>
  The loop of \<open>load_entries\<close> reads one key after the other until one is missing; it would
  not return if every key were there, which is the value \<open>None\<close>.
\<close>

partial_function (option) load_entries_loop ::
  "'db rocksdb \<Rightarrow> codec \<Rightarrow> 'db \<Rightarrow> u64 \<Rightarrow> LogEntry list \<Rightarrow> LogEntry list Result option" where
  "load_entries_loop R C db index entries =
     (case engine_get R (get_entry_key index) db of
        (status, payload) \<Rightarrow>
          if status \<noteq> StOk then
            (if status \<noteq> StNotFound then Some (Inl (make_error kDatabaseQueryFailed))
             else Some (Inr entries))
          else
            (case par_entry C payload of
               None \<Rightarrow> Some (Inl (make_error kDatabaseQueryFailed))
             | Some entry \<Rightarrow> load_entries_loop R C db (index + 1) (entries @ [entry])))"

definition load_entries :: "'db rocksdb \<Rightarrow> codec \<Rightarrow> u64 \<Rightarrow> 'db \<Rightarrow> LogEntry list Result option" where
  "load_entries R C last_included db = load_entries_loop R C db (last_included + 1) []"

text \<open>
  \<open>for (index = start; index <= end; ++index)\<close>: the counter passes \<open>end\<close> unless \<open>end\<close> is the
  greatest 64-bit value, where the loop never ends.
\<close>

function truncate_batch :: "u64 \<Rightarrow> u64 \<Rightarrow> batch_op list" where
  "truncate_batch index end_index =
     (if index < end_index then BDelete (get_entry_key index) # truncate_batch (index + 1) end_index
      else if index = end_index then [BDelete (get_entry_key index)]
      else [])"
  by pat_completeness auto
termination
  by (relation "measure (\<lambda>(index, end_index). unat end_index - unat index)")
    (auto simp: unat_add_one word_less_nat_alt)

declare truncate_batch.simps [simp del]

definition truncate_entries :: "'db rocksdb \<Rightarrow> u64 \<Rightarrow> u64 \<Rightarrow> 'db \<Rightarrow> 'db outcome" where
  "truncate_entries R start_index end_index db =
     (if end_index = - 1 then Blocked
      else case engine_batch_write R (truncate_batch start_index end_index) db of
             (status, db') \<Rightarrow> if status \<noteq> StOk then Crashed else Done db')"

section \<open>What the code relies on in RocksDB\<close>

primrec apply_batch_op :: "batch_op \<Rightarrow> (string \<rightharpoonup> string) \<Rightarrow> (string \<rightharpoonup> string)" where
  "apply_batch_op (BPut k v) m = m(k \<mapsto> v)"
| "apply_batch_op (BDelete k) m = m(k := None)"

text \<open>
  \<open>view db\<close> is the content of the database as a map. A read reports what is there, or an
  error; a write that reports success took effect, all operations of a batch in order.
\<close>

definition rocksdb_spec :: "'db rocksdb \<Rightarrow> ('db \<Rightarrow> string \<rightharpoonup> string) \<Rightarrow> bool" where
  "rocksdb_spec R view \<longleftrightarrow>
     (\<forall>db k. fst (DB_Get R db k) = StOk \<longrightarrow> view db k = Some (snd (DB_Get R db k))) \<and>
     (\<forall>db k. fst (DB_Get R db k) = StNotFound \<longrightarrow> view db k = None) \<and>
     (\<forall>db k v. fst (DB_Put R db k v) = StOk \<longrightarrow> view (snd (DB_Put R db k v)) = (view db)(k \<mapsto> v)) \<and>
     (\<forall>db b. fst (DB_Write R db b) = StOk \<longrightarrow> view (snd (DB_Write R db b)) = fold apply_batch_op b (view db))"

text \<open>No read of the database fails with an I/O error.\<close>

definition reads_ok :: "'db rocksdb \<Rightarrow> 'db \<Rightarrow> bool" where
  "reads_ok R db \<longleftrightarrow> (\<forall>k. fst (DB_Get R db k) \<noteq> StError)"

text \<open>The effect of storing one entry, on the bytes and on the meaning of the database.\<close>

definition put_raw :: "codec \<Rightarrow> LogEntry \<Rightarrow> (string \<rightharpoonup> string) \<Rightarrow> (string \<rightharpoonup> string)" where
  "put_raw C e m = m(get_entry_key (le_index e) \<mapsto> ser_entry C e)"

definition put_log :: "LogEntry \<Rightarrow> (u64 \<rightharpoonup> LogEntry) \<Rightarrow> (u64 \<rightharpoonup> LogEntry)" where
  "put_log e f = f(le_index e \<mapsto> e)"

section \<open>Keys\<close>

lemma get_entry_key_inj [simp]: "get_entry_key i = get_entry_key j \<longleftrightarrow> i = j"
  by (simp add: get_entry_key_def to_string_inj)

lemma get_entry_key_not_hard [simp]: "get_entry_key i \<noteq> HARD_STATE_KEY" "HARD_STATE_KEY \<noteq> get_entry_key i"
  by (simp_all add: get_entry_key_def HARD_STATE_KEY_def)

section \<open>Reads and writes under the specification\<close>

lemma engine_get_view:
  assumes "rocksdb_spec R view" and "reads_ok R db"
  shows "engine_get R k db = (case view db k of None \<Rightarrow> (StNotFound, snd (DB_Get R db k)) | Some v \<Rightarrow> (StOk, v))"
proof (cases "fst (DB_Get R db k)")
  case StOk
  with assms(1) show ?thesis by (simp add: rocksdb_spec_def engine_get_def prod_eq_iff)
next
  case StNotFound
  with assms(1) show ?thesis by (simp add: rocksdb_spec_def engine_get_def prod_eq_iff)
next
  case StError
  with assms(2) show ?thesis by (simp add: reads_ok_def)
qed

lemma save_hard_state_view:
  "rocksdb_spec R view \<Longrightarrow> save_hard_state R C hs db = Done db' \<Longrightarrow>
     view db' = (view db)(HARD_STATE_KEY \<mapsto> ser_hard_state C hs)"
  by (auto simp: save_hard_state_def engine_put_def rocksdb_spec_def split: prod.splits if_splits)
    (metis fst_conv snd_conv)

lemma save_entries_view:
  assumes "rocksdb_spec R view" and "save_entries R C es db = Done db'"
  shows "view db' = fold (put_raw C) es (view db)"
proof -
  have "view db' = fold apply_batch_op (map (\<lambda>e. BPut (get_entry_key (le_index e)) (ser_entry C e)) es) (view db)"
    using assms by (auto simp: save_entries_def engine_batch_write_def rocksdb_spec_def split: prod.splits if_splits)
      (metis fst_conv snd_conv)
  moreover have "apply_batch_op (BPut (get_entry_key (le_index e)) (ser_entry C e)) = put_raw C e" for e
    by (simp add: fun_eq_iff put_raw_def)
  ultimately show ?thesis by (simp add: fold_map comp_def del: apply_batch_op.simps)
qed

lemma word_range_first:
  fixes s e :: u64
  assumes "s < e"
  shows "{s..e} = insert s {s + 1..e}"
  using assms unat_add_one [OF assms]
  by (auto simp: word_le_nat_alt word_less_nat_alt word_unat_eq_iff)

lemma truncate_batch_view:
  "fold apply_batch_op (truncate_batch s e) m k =
     (if k \<in> get_entry_key ` {s..e} then None else m k)"
proof (induction s e arbitrary: m rule: truncate_batch.induct)
  case (1 s e)
  consider (lt) "s < e" | (eq) "s = e" | (gt) "e < s" by (meson linorder_cases)
  then show ?case
  proof cases
    case lt
    have "fold apply_batch_op (truncate_batch s e) m k =
        fold apply_batch_op (truncate_batch (s + 1) e) (m(get_entry_key s := None)) k"
      using lt by (subst truncate_batch.simps) simp
    with "1.IH" [OF lt] show ?thesis by (simp add: word_range_first [OF lt])
  next
    case eq
    then show ?thesis by (subst truncate_batch.simps) simp
  next
    case gt
    then have "\<not> s < e" "s \<noteq> e" by auto
    then have "truncate_batch s e = []" by (subst truncate_batch.simps) simp
    with gt show ?thesis by simp
  qed
qed

lemma truncate_entries_view:
  assumes "rocksdb_spec R view" and "truncate_entries R s e db = Done db'"
  shows "view db' k = (if k \<in> get_entry_key ` {s..e} then None else view db k)"
proof -
  have "view db' = fold apply_batch_op (truncate_batch s e) (view db)"
    using assms by (auto simp: truncate_entries_def engine_batch_write_def rocksdb_spec_def split: prod.splits if_splits)
      (metis fst_conv snd_conv)
  then show ?thesis by (simp add: truncate_batch_view)
qed

section \<open>The abstract store\<close>

text \<open>
  What the database means to the node: the hard state, and the entry stored for each log
  position. Every operation of the persister acts on this pair as one expects.
\<close>

record stored =
  st_hard :: "HardState option"
  st_log :: "u64 \<rightharpoonup> LogEntry"

definition stored_of :: "codec \<Rightarrow> (string \<rightharpoonup> string) \<Rightarrow> stored" where
  "stored_of C m =
     \<lparr>st_hard = Option.bind (m HARD_STATE_KEY) (par_hard_state C),
      st_log = (\<lambda>i. Option.bind (m (get_entry_key i)) (par_entry C))\<rparr>"

lemma stored_save_hard_state:
  assumes "rocksdb_spec R view" and "par_hard_state C (ser_hard_state C hs) = Some hs"
    and "save_hard_state R C hs db = Done db'"
  shows "stored_of C (view db') = (stored_of C (view db))\<lparr>st_hard := Some hs\<rparr>"
  using assms by (simp add: stored_of_def save_hard_state_view)

lemma stored_put_raw:
  "par_entry C (ser_entry C e) = Some e \<Longrightarrow>
     stored_of C (put_raw C e m) = (stored_of C m)\<lparr>st_log := put_log e (st_log (stored_of C m))\<rparr>"
  by (auto simp: stored_of_def put_raw_def put_log_def fun_eq_iff)

lemma stored_put_raws:
  assumes "\<forall>e \<in> set es. par_entry C (ser_entry C e) = Some e"
  shows "stored_of C (fold (put_raw C) es m) =
    (stored_of C m)\<lparr>st_log := fold put_log es (st_log (stored_of C m))\<rparr>"
  using assms by (induction es arbitrary: m) (simp_all add: stored_put_raw)

lemma stored_save_entries:
  assumes "rocksdb_spec R view" and "\<forall>e \<in> set es. par_entry C (ser_entry C e) = Some e"
    and "save_entries R C es db = Done db'"
  shows "stored_of C (view db') =
    (stored_of C (view db))\<lparr>st_log := fold put_log es (st_log (stored_of C (view db)))\<rparr>"
  using save_entries_view [OF assms(1,3)] stored_put_raws [OF assms(2)] by simp

lemma stored_truncate_entries:
  assumes "rocksdb_spec R view" and "truncate_entries R s e db = Done db'"
  shows "stored_of C (view db') =
    (stored_of C (view db))\<lparr>st_log := (\<lambda>i. if s \<le> i \<and> i \<le> e then None else st_log (stored_of C (view db)) i)\<rparr>"
  using truncate_entries_view [OF assms] by (auto simp: stored_of_def fun_eq_iff image_iff)

section \<open>Loading the log\<close>

lemma load_entries_loop_reads:
  assumes "rocksdb_spec R view" and "reads_ok R db"
    and "\<And>k. k < length es \<Longrightarrow> st_log (stored_of C (view db)) (i + of_nat k) = Some (es ! k)"
    and "view db (get_entry_key (i + of_nat (length es))) = None"
  shows "load_entries_loop R C db i acc = Some (Inr (acc @ es))"
  using assms(3,4)
proof (induction es arbitrary: i acc)
  case Nil
  then show ?case
    by (simp add: load_entries_loop.simps engine_get_view [OF assms(1,2)])
next
  case (Cons e es)
  from Cons.prems(1) [of 0] obtain v where "view db (get_entry_key i) = Some v" "par_entry C v = Some e"
    by (auto simp: stored_of_def bind_eq_Some_conv)
  then have step: "load_entries_loop R C db i acc = load_entries_loop R C db (i + 1) (acc @ [e])"
    by (subst load_entries_loop.simps) (simp add: engine_get_view [OF assms(1,2)])
  have "load_entries_loop R C db (i + 1) (acc @ [e]) = Some (Inr ((acc @ [e]) @ es))"
    by (rule Cons.IH)
      (use Cons.prems(1) [of "Suc k" for k] Cons.prems(2) in \<open>simp_all add: ac_simps\<close>)
  with step show ?case by simp
qed

end
