(* ===== verification/Fs_State.thy ===== *)
theory Fs_State
  imports Raft_Config Raft_Persister
begin

unbundle bit_operations_syntax

text \<open>
  \<open>class StateMachine\<close> (\<open>include/vosfs/raft/state_machine.hpp\<close>, \<open>src/raft/state_machine.cpp\<close>):
  the name space of the file system, an inode table and a table of directory entries keyed by
  path, with the pending client requests. The operations take the wall clock as an argument
  (\<open>now\<close>, the value of \<open>kosio::util::current_ms()\<close>), \<open>std::hash<uint64_t>\<close> as the function
  \<open>hash\<close>, and the message codec. A coroutine handle is a number, \<open>None\<close> the null handle;
  resuming a handle is modelled by the list of resumed handles, each with the response its
  coroutine then sends. \<open>LOG_FATAL\<close> only writes a log line.
\<close>

record PendingRequest =
  pr_handle :: "nat option"
  pr_response :: PendingResponse

definition PendingRequest_default :: PendingRequest where
  "PendingRequest_default = \<lparr>pr_handle = None, pr_response = RespNotSet\<rparr>"

record StateMachine =
  sm_inodes :: "(u64, Inode) umap"
  sm_dir_entries :: "(string, DirEntry) umap"
  sm_data_nodes :: "NodeInfo list"
  sm_next_ino :: u64
  sm_pending :: "(u64, PendingRequest) umap"

definition REPLICA_NODE_SIZE :: nat where "REPLICA_NODE_SIZE = 2"

section \<open>Construction and snapshots\<close>

definition root_inode :: Inode where
  "root_inode = Inode_default\<lparr>nd_ino := 0, nd_is_dir := True, nd_size := 4096, nd_nlink := 2\<rparr>"

definition root_entry :: DirEntry where
  "root_entry = DirEntry_default\<lparr>de_ino := nd_ino root_inode, de_name := ''/'', de_is_dir := True, de_path := ''/''\<rparr>"

definition max_ino :: "(u64, Inode) umap \<Rightarrow> u64" where
  "max_ino inodes = fold (\<lambda>i m. max m (nd_ino i)) (um_values inodes) 0"

definition StateMachine_create :: "Config \<Rightarrow> StateMachine" where
  "StateMachine_create config =
     (let inodes = um_emplace (nd_ino root_inode) root_inode [] in
      \<lparr>sm_inodes = inodes,
       sm_dir_entries = um_emplace (de_path root_entry) root_entry [],
       sm_data_nodes = cfg_data_nodes config,
       sm_next_ino = max_ino inodes + 1,
       sm_pending = []\<rparr>)"

definition StateMachine_load_snapshot :: "Snapshot \<Rightarrow> StateMachine \<Rightarrow> StateMachine" where
  "StateMachine_load_snapshot s sm =
     (let inodes = fold (\<lambda>i. um_emplace (nd_ino i) i) (sn_inodes s) [];
          entries = fold (\<lambda>e. um_emplace (de_path e) e) (sn_dir_entries s) [];
          (inodes', entries') =
            (if inodes = [] \<and> entries = []
             then (um_emplace (nd_ino root_inode) root_inode inodes,
                   um_emplace (de_path root_entry) root_entry entries)
             else (inodes, entries))
      in sm\<lparr>sm_inodes := inodes', sm_dir_entries := entries', sm_next_ino := max_ino inodes' + 1\<rparr>)"

definition take_snapshot :: "StateMachine \<Rightarrow> Snapshot \<Rightarrow> Snapshot" where
  "take_snapshot sm s =
     s\<lparr>sn_inodes := sn_inodes s @ um_values (sm_inodes sm),
       sn_dir_entries := sn_dir_entries s @ um_values (sm_dir_entries sm)\<rparr>"

section \<open>Directories\<close>

definition new_dir_inode :: "u64 \<Rightarrow> u64 \<Rightarrow> Inode" where
  "new_dir_inode ino timestamp =
     Inode_default\<lparr>nd_ino := ino, nd_is_dir := True, nd_size := 4096, nd_ctime := timestamp,
       nd_mtime := timestamp, nd_nlink := 2\<rparr>"

definition new_dir_entry :: "u64 \<Rightarrow> string \<Rightarrow> string \<Rightarrow> u64 \<Rightarrow> DirEntry" where
  "new_dir_entry ino name path timestamp =
     DirEntry_default\<lparr>de_ino := ino, de_name := name, de_is_dir := True, de_path := path,
       de_size := 4096, de_ctime := timestamp, de_mtime := timestamp\<rparr>"

definition bad_name :: "string \<Rightarrow> bool" where
  "bad_name name \<longleftrightarrow> name = [] \<or> CHR ''/'' \<in> set name"

definition child_path :: "string \<Rightarrow> string \<Rightarrow> string" where
  "child_path parent_path name =
     (if parent_path = ''/'' then parent_path @ name else parent_path @ ''/'' @ name)"

text \<open>The common tail of the operations that add an entry below a parent inode.\<close>

definition add_child :: "u64 \<Rightarrow> Inode \<Rightarrow> Inode \<Rightarrow> DirEntry \<Rightarrow> StateMachine \<Rightarrow> StateMachine" where
  "add_child parent_ino parent_inode new_inode new_entry sm =
     sm\<lparr>sm_inodes := um_emplace (nd_ino new_inode) new_inode
          (um_assign parent_ino (parent_inode\<lparr>nd_dir_entries := nd_dir_entries parent_inode @ [new_entry]\<rparr>)
             (sm_inodes sm)),
        sm_dir_entries := um_emplace (de_path new_entry) new_entry (sm_dir_entries sm)\<rparr>"

definition mkdir :: "MakeDirRequest \<Rightarrow> StateMachine \<Rightarrow> StateMachine" where
  "mkdir request sm =
     (case um_find (sm_dir_entries sm) (mdq_parent_path request) of
        None \<Rightarrow> sm
      | Some parent \<Rightarrow>
        (case um_find (sm_inodes sm) (de_ino parent) of
           None \<Rightarrow> sm
         | Some parent_inode \<Rightarrow>
             if \<not> nd_is_dir parent_inode then sm
             else if bad_name (mdq_name request) then sm
             else
               (let path = child_path (mdq_parent_path request) (mdq_name request) in
                if um_contains (sm_dir_entries sm) path then sm
                else
                  (let new_ino = sm_next_ino sm in
                   add_child (de_ino parent) parent_inode
                     (new_dir_inode new_ino (mdq_timestamp request))
                     (new_dir_entry new_ino (mdq_name request) path (mdq_timestamp request))
                     (sm\<lparr>sm_next_ino := new_ino + 1\<rparr>)))))"

definition mkdir_response :: "MakeDirRequest \<Rightarrow> MakeDirResponse \<Rightarrow> StateMachine \<Rightarrow> StateMachine \<times> MakeDirResponse" where
  "mkdir_response request response sm =
     (case um_find (sm_dir_entries sm) (mdq_parent_path request) of
        None \<Rightarrow> (sm, response\<lparr>mdr_status_code := kInvalidArgument, mdr_message := msg_mkdir_no_parent\<rparr>)
      | Some parent \<Rightarrow>
        (case um_find (sm_inodes sm) (de_ino parent) of
           None \<Rightarrow> (sm, response\<lparr>mdr_status_code := kInvalidArgument, mdr_message := msg_mkdir_no_inode\<rparr>)
         | Some parent_inode \<Rightarrow>
             if \<not> nd_is_dir parent_inode
             then (sm, response\<lparr>mdr_status_code := kInvalidArgument, mdr_message := msg_mkdir_not_dir\<rparr>)
             else if bad_name (mdq_name request)
             then (sm, response\<lparr>mdr_status_code := kInvalidArgument, mdr_message := msg_mkdir_bad_name\<rparr>)
             else
               (let path = child_path (mdq_parent_path request) (mdq_name request) in
                if um_contains (sm_dir_entries sm) path
                then (sm, response\<lparr>mdr_status_code := kInvalidArgument, mdr_message := msg_mkdir_exists\<rparr>)
                else
                  (let new_ino = sm_next_ino sm in
                   (add_child (de_ino parent) parent_inode
                      (new_dir_inode new_ino (mdq_timestamp request))
                      (new_dir_entry new_ino (mdq_name request) path (mdq_timestamp request))
                      (sm\<lparr>sm_next_ino := new_ino + 1\<rparr>),
                    response\<lparr>mdr_status_code := kOk, mdr_message := msg_mkdir_ok @ path,
                      mdr_parent_path := mdq_parent_path request\<rparr>)))))"

section \<open>Files\<close>

definition blocks_size :: "BlockInfo list \<Rightarrow> u64" where
  "blocks_size bs = fold (\<lambda>b s. s + bi_size b) bs 0"

definition new_file_inode :: "u64 \<Rightarrow> u64 \<Rightarrow> u64 \<Rightarrow> BlockInfo list \<Rightarrow> Inode" where
  "new_file_inode ino sz now blocks =
     Inode_default\<lparr>nd_ino := ino, nd_is_dir := False, nd_size := sz, nd_ctime := now, nd_mtime := now,
       nd_nlink := 1, nd_blocks := blocks\<rparr>"

definition new_file_entry :: "u64 \<Rightarrow> string \<Rightarrow> string \<Rightarrow> u64 \<Rightarrow> u64 \<Rightarrow> DirEntry" where
  "new_file_entry ino name path sz now =
     DirEntry_default\<lparr>de_ino := ino, de_name := name, de_path := path, de_is_dir := False,
       de_size := sz, de_ctime := now, de_mtime := now\<rparr>"

definition parent_of :: "string \<Rightarrow> nat \<Rightarrow> string" where
  "parent_of path pos = (if pos = 0 then ''/'' else take pos path)"

definition upload_file :: "u64 \<Rightarrow> UploadFileRequest \<Rightarrow> StateMachine \<Rightarrow> StateMachine" where
  "upload_file now request sm =
     (let ino = ufq_ino request; path = ufq_path request in
      if um_contains (sm_inodes sm) ino \<or> um_contains (sm_dir_entries sm) path then sm
      else
        (let sz = blocks_size (ufq_blocks request);
             new_inode = new_file_inode ino sz now (ufq_blocks request) in
         case find_last_of (CHR ''/'') path of
           None \<Rightarrow> sm
         | Some pos \<Rightarrow>
           (let name = drop (pos + 1) path; parent_path = parent_of path pos in
            case um_find (sm_dir_entries sm) parent_path of
              None \<Rightarrow> sm
            | Some parent \<Rightarrow>
              (case um_find (sm_inodes sm) (de_ino parent) of
                 None \<Rightarrow> sm
               | Some parent_inode \<Rightarrow>
                   if \<not> nd_is_dir parent_inode then sm
                   else if bad_name name then sm
                   else add_child (de_ino parent) parent_inode new_inode (new_file_entry ino name path sz now) sm))))"

definition upload_file_response ::
    "u64 \<Rightarrow> UploadFileRequest \<Rightarrow> UploadFileResponse \<Rightarrow> StateMachine \<Rightarrow> StateMachine \<times> UploadFileResponse" where
  "upload_file_response now request response0 sm =
     (let ino = ufq_ino request; path = ufq_path request; response = response0\<lparr>ufr_ino := ino\<rparr> in
      if um_contains (sm_inodes sm) ino \<or> um_contains (sm_dir_entries sm) path
      then (sm, response\<lparr>ufr_status_code := kInvalidArgument, ufr_message := msg_upload_exists\<rparr>)
      else
        (let sz = blocks_size (ufq_blocks request);
             new_inode = new_file_inode ino sz now (ufq_blocks request) in
         case find_last_of (CHR ''/'') path of
           None \<Rightarrow> (sm, response\<lparr>ufr_status_code := kInvalidArgument, ufr_message := msg_upload_no_slash\<rparr>)
         | Some pos \<Rightarrow>
           (let name = drop (pos + 1) path; parent_path = parent_of path pos in
            case um_find (sm_dir_entries sm) parent_path of
              None \<Rightarrow> (sm, response\<lparr>ufr_status_code := kInvalidArgument, ufr_message := msg_upload_no_parent @ parent_path\<rparr>)
            | Some parent \<Rightarrow>
              (case um_find (sm_inodes sm) (de_ino parent) of
                 None \<Rightarrow> (sm, response\<lparr>ufr_status_code := kInvalidArgument, ufr_message := msg_upload_no_inode\<rparr>)
               | Some parent_inode \<Rightarrow>
                   if \<not> nd_is_dir parent_inode
                   then (sm, response\<lparr>ufr_status_code := kInvalidArgument, ufr_message := msg_upload_not_dir\<rparr>)
                   else if bad_name name
                   then (sm, response\<lparr>ufr_status_code := kInvalidArgument, ufr_message := msg_upload_bad_name\<rparr>)
                   else (add_child (de_ino parent) parent_inode new_inode (new_file_entry ino name path sz now) sm,
                         response\<lparr>ufr_status_code := kOk, ufr_message := msg_upload_ok @ path\<rparr>)))))"

section \<open>Queries and block placement\<close>

definition ls :: "ListDirRequest \<Rightarrow> ListDirResponse \<Rightarrow> StateMachine \<Rightarrow> ListDirResponse" where
  "ls request response sm =
     (let path = ldq_path request in
      case um_find (sm_dir_entries sm) path of
        None \<Rightarrow> response\<lparr>ldr_status_code := kInvalidArgument, ldr_message := msg_ls_no_path\<rparr>
      | Some e \<Rightarrow>
          if \<not> de_is_dir e then response\<lparr>ldr_status_code := kInternal, ldr_message := msg_ls_not_dir\<rparr>
          else
            (case um_find (sm_inodes sm) (de_ino e) of
               None \<Rightarrow> response\<lparr>ldr_status_code := kInvalidArgument, ldr_message := msg_ls_no_inode\<rparr>
             | Some inode \<Rightarrow>
                 response\<lparr>ldr_status_code := kOk, ldr_message := msg_ls_ok @ path, ldr_path := path,
                   ldr_dir_entries := nd_dir_entries inode\<rparr>))"

fun replica_ids :: "NodeInfo list \<Rightarrow> nat \<Rightarrow> nat \<Rightarrow> u64 list" where
  "replica_ids nodes node_index 0 = []"
| "replica_ids nodes node_index (Suc n) =
     ni_id (nodes ! node_index) # replica_ids nodes ((node_index + 1) mod length nodes) n"

definition place_block :: "(u64 \<Rightarrow> u64) \<Rightarrow> NodeInfo list \<Rightarrow> u64 \<Rightarrow> BlockInfo \<Rightarrow> BlockInfo" where
  "place_block hash nodes ino block =
     (let key = push_bit 32 ino OR bi_id block;
          node_index = unat (hash key) mod length nodes
      in block\<lparr>bi_ino := ino,
           bi_data_node_id := bi_data_node_id block @ replica_ids nodes node_index REPLICA_NODE_SIZE\<rparr>)"

text \<open>
  With no data node configured, \<open>% data_nodes_.size()\<close> divides by zero as soon as there is a
  block to place.
\<close>

definition prepare_upload_file ::
    "(u64 \<Rightarrow> u64) \<Rightarrow> PrepareUploadFileRequest \<Rightarrow> PrepareUploadFileResponse \<Rightarrow> StateMachine
     \<Rightarrow> (StateMachine \<times> PrepareUploadFileResponse) outcome" where
  "prepare_upload_file hash request response0 sm =
     (let response = response0\<lparr>pur_local_path := puq_local_path request, pur_remote_path := puq_remote_path request\<rparr> in
      if um_contains (sm_dir_entries sm) (puq_remote_path request)
      then Done (sm, response\<lparr>pur_status_code := kInvalidArgument, pur_message := msg_pu_exists\<rparr>)
      else
        (let ino = sm_next_ino sm; sm' = sm\<lparr>sm_next_ino := ino + 1\<rparr> in
         if puq_blocks request \<noteq> [] \<and> sm_data_nodes sm = [] then Crashed
         else Done (sm', response\<lparr>pur_blocks := map (place_block hash (sm_data_nodes sm) ino) (puq_blocks request),
                            pur_status_code := kOk\<rparr>)))"

definition prepare_download_file ::
    "PrepareDownloadFileRequest \<Rightarrow> PrepareDownloadFileResponse \<Rightarrow> StateMachine \<Rightarrow> PrepareDownloadFileResponse" where
  "prepare_download_file request response0 sm =
     (let response = response0\<lparr>pdr_local_path := pdq_local_path request, pdr_remote_path := pdq_remote_path request\<rparr> in
      case um_find (sm_dir_entries sm) (pdq_remote_path request) of
        None \<Rightarrow> response\<lparr>pdr_status_code := kInvalidArgument, pdr_message := msg_pd_no_path\<rparr>
      | Some entry \<Rightarrow>
        (case um_find (sm_inodes sm) (de_ino entry) of
           None \<Rightarrow> response\<lparr>pdr_status_code := kInvalidArgument, pdr_message := msg_pd_no_inode\<rparr>
         | Some inode \<Rightarrow> response\<lparr>pdr_blocks := nd_blocks inode, pdr_status_code := kOk\<rparr>))"

section \<open>Applying log entries\<close>

definition append_request :: "u64 \<Rightarrow> PendingRequest \<Rightarrow> StateMachine \<Rightarrow> StateMachine" where
  "append_request log_index request sm = sm\<lparr>sm_pending := um_emplace log_index request (sm_pending sm)\<rparr>"

definition resume :: "PendingRequest \<Rightarrow> (nat \<times> PendingResponse) list" where
  "resume pr = (case pr_handle pr of None \<Rightarrow> [] | Some h \<Rightarrow> [(h, pr_response pr)])"

definition sm_apply_entry :: "codec \<Rightarrow> u64 \<Rightarrow> LogEntry \<Rightarrow> StateMachine \<Rightarrow> StateMachine \<times> (nat \<times> PendingResponse) list" where
  "sm_apply_entry C now entry sm0 =
     (let (pr, pending) = um_index PendingRequest_default (le_index entry) (sm_pending sm0);
          sm = sm0\<lparr>sm_pending := pending\<rparr>
      in case par_command C (le_command entry) of
           None \<Rightarrow> (sm, resume pr)
         | Some (CmdMkdir q) \<Rightarrow>
             (let (sm', r) = mkdir_response q (mutable_mkdir (pr_response pr)) sm;
                  pr' = pr\<lparr>pr_response := RespMkdir r\<rparr>
              in (sm'\<lparr>sm_pending := um_assign (le_index entry) pr' (sm_pending sm')\<rparr>, resume pr'))
         | Some (CmdUploadFile q) \<Rightarrow>
             (let (sm', r) = upload_file_response now q (mutable_upload_file (pr_response pr)) sm;
                  pr' = pr\<lparr>pr_response := RespUploadFile r\<rparr>
              in (sm'\<lparr>sm_pending := um_assign (le_index entry) pr' (sm_pending sm')\<rparr>, resume pr'))
         | Some CmdNotSet \<Rightarrow> (sm, resume pr))"

definition sm_apply_entry_no_response :: "codec \<Rightarrow> u64 \<Rightarrow> LogEntry \<Rightarrow> StateMachine \<Rightarrow> StateMachine" where
  "sm_apply_entry_no_response C now entry sm =
     (case par_command C (le_command entry) of
        None \<Rightarrow> sm
      | Some (CmdMkdir q) \<Rightarrow> mkdir q sm
      | Some (CmdUploadFile q) \<Rightarrow> upload_file now q sm
      | Some CmdNotSet \<Rightarrow> sm)"

end
