(* ===== verification/Raft_Snapshotter.thy ===== *)
theory Raft_Snapshotter
  imports Raft_Config Raft_Persister
begin

text \<open>
  \<open>class Snapshotter\<close> (\<open>include/vosfs/raft/snapshotter.hpp\<close>, \<open>src/raft/snapshotter.cpp\<close>): the
  snapshot file and the per-member offset of a transfer in chunks. The file API of the
  \<open>kosio\<close> runtime is outside the repository; \<open>file_api\<close> holds the calls made of it, on an
  abstract type \<open>'fs\<close> of disk contents. The mutex of the class is the flag \<open>sp_locked\<close>:
  locking a mutex that is locked suspends the coroutine for ever (\<open>Blocked\<close>), since every
  holder releases it before it returns, except \<open>offset_at\<close>, which never does.
\<close>

record 'fs file_api =
  fs_open_truncate :: "'fs \<Rightarrow> string \<Rightarrow> bool \<times> 'fs"
  fs_write_all :: "'fs \<Rightarrow> string \<Rightarrow> string \<Rightarrow> bool \<times> 'fs"
  fs_rename :: "'fs \<Rightarrow> string \<Rightarrow> string \<Rightarrow> bool \<times> 'fs"
  fs_open :: "'fs \<Rightarrow> string \<Rightarrow> bool"
  fs_seek :: "'fs \<Rightarrow> string \<Rightarrow> u64 \<Rightarrow> bool"
  fs_read_exact :: "'fs \<Rightarrow> string \<Rightarrow> u64 \<Rightarrow> u64 \<Rightarrow> string option"
  fs_ifstream :: "'fs \<Rightarrow> string \<Rightarrow> string option"
  fs_statx :: "'fs \<Rightarrow> string \<Rightarrow> int + u64"

record Snapshotter =
  sp_locked :: bool
  sp_offsets :: "(u64, u64) umap"
  sp_snapshot_size :: u64
  sp_tmp_path :: string
  sp_snapshot_path :: string

definition Snapshotter_create :: "string \<Rightarrow> string \<Rightarrow> Snapshotter" where
  "Snapshotter_create tmp_path snapshot_path =
     \<lparr>sp_locked = False, sp_offsets = [], sp_snapshot_size = 0, sp_tmp_path = tmp_path,
      sp_snapshot_path = snapshot_path\<rparr>"

text \<open>\<open>co_return\<close> comes before \<open>mutex_.unlock()\<close>: the mutex stays locked.\<close>

definition offset_at :: "u64 \<Rightarrow> Snapshotter \<Rightarrow> (u64 \<times> Snapshotter) outcome" where
  "offset_at member s =
     (if sp_locked s then Blocked
      else case um_index 0 member (sp_offsets s) of
             (offset, offsets) \<Rightarrow> Done (offset, s\<lparr>sp_locked := True, sp_offsets := offsets\<rparr>))"

definition reset_offsets :: "Snapshotter \<Rightarrow> Snapshotter" where
  "reset_offsets s = s\<lparr>sp_offsets := map (\<lambda>(m, _). (m, 0)) (sp_offsets s)\<rparr>"

definition Snapshotter_load_snapshot :: "'fs file_api \<Rightarrow> codec \<Rightarrow> 'fs \<Rightarrow> Snapshotter \<Rightarrow> Snapshot Result \<times> Snapshotter" where
  "Snapshotter_load_snapshot F C fs s =
     (case fs_ifstream F fs (sp_snapshot_path s) of
        None \<Rightarrow> (Inl (make_error kFileOpenFailed), s)
      | Some buf \<Rightarrow>
        (case par_snapshot C buf of
           None \<Rightarrow> (Inl (make_error kParseFailed), s)
         | Some snapshot \<Rightarrow> (Inr snapshot, s\<lparr>sp_snapshot_size := of_nat (length buf)\<rparr>)))"

definition save_snapshot ::
    "'fs file_api \<Rightarrow> codec \<Rightarrow> Snapshot \<Rightarrow> 'fs \<Rightarrow> Snapshotter \<Rightarrow> (unit Result \<times> 'fs \<times> Snapshotter) outcome" where
  "save_snapshot F C snapshot fs s =
     (let buf = ser_snapshot C snapshot in
      if sp_locked s then Blocked
      else
        (case fs_open_truncate F fs (sp_tmp_path s) of (opened, fs1) \<Rightarrow>
           if \<not> opened then Done (Inl (make_error kFileOpenFailed), fs1, s)
           else
             (case fs_write_all F fs1 (sp_tmp_path s) buf of (written, fs2) \<Rightarrow>
                if \<not> written then Done (Inl (make_error kFileWriteFailed), fs2, s)
                else
                  (case fs_rename F fs2 (sp_tmp_path s) (sp_snapshot_path s) of (renamed, fs3) \<Rightarrow>
                     if \<not> renamed then Done (Inl (make_error kFileRenameFailed), fs3, s)
                     else Done (Inr (), fs3, s\<lparr>sp_snapshot_size := of_nat (length buf)\<rparr>)))))"

definition load_snapshot_data ::
    "'fs file_api \<Rightarrow> 'fs \<Rightarrow> u64 \<Rightarrow> InstallSnapshotRequest \<Rightarrow> Snapshotter
     \<Rightarrow> (unit Result \<times> InstallSnapshotRequest \<times> Snapshotter) outcome" where
  "load_snapshot_data F fs member request s0 =
     (if sp_locked s0 then Blocked
      else
        (let (offset, offsets) = um_index 0 member (sp_offsets s0);
             s = s0\<lparr>sp_offsets := offsets\<rparr>;
             set_offset = (\<lambda>v. s\<lparr>sp_offsets := um_assign member v offsets\<rparr>);
             sz = min MAX_SNAPSHOT_CHUNK_SIZE (sp_snapshot_size s - offset)
         in if \<not> fs_open F fs (sp_snapshot_path s)
            then Done (Inl (make_error kFileOpenFailed), request, set_offset 0)
            else if \<not> fs_seek F fs (sp_snapshot_path s) offset
            then Done (Inl (make_error kFileSeekFailed), request, set_offset 0)
            else
              (case fs_read_exact F fs (sp_snapshot_path s) offset sz of
                 None \<Rightarrow> Done (Inl (make_error kFileReadFailed), request, set_offset 0)
               | Some data \<Rightarrow>
                   (let offset' = offset + sz;
                        is_done = (offset' = sp_snapshot_size s)
                    in Done (Inr (),
                         request\<lparr>isq_offset := offset, isq_done := is_done, isq_data := data\<rparr>,
                         set_offset (if is_done then 0 else offset'))))))"

definition save_snapshot_data ::
    "'fs file_api \<Rightarrow> string \<Rightarrow> 'fs \<Rightarrow> Snapshotter \<Rightarrow> (unit Result \<times> 'fs) outcome" where
  "save_snapshot_data F data fs s =
     (if sp_locked s then Blocked
      else if \<not> fs_open F fs (sp_snapshot_path s) then Done (Inl (make_error kFileOpenFailed), fs)
      else
        (case fs_write_all F fs (sp_snapshot_path s) data of (written, fs1) \<Rightarrow>
           if \<not> written then Done (Inl (make_error kFileWriteFailed), fs1)
           else
             (case fs_rename F fs1 (sp_tmp_path s) (sp_snapshot_path s) of (renamed, fs2) \<Rightarrow>
                if \<not> renamed then Done (Inl (make_error kFileRenameFailed), fs2)
                else Done (Inr (), fs2))))"

section \<open>What the code relies on in the file API\<close>

text \<open>
  Reading the snapshot file: it opens, seeking succeeds, and reading a range that lies inside
  the file returns exactly those bytes.
\<close>

definition file_has :: "'fs file_api \<Rightarrow> 'fs \<Rightarrow> string \<Rightarrow> string \<Rightarrow> bool" where
  "file_has F fs path content \<longleftrightarrow>
     fs_open F fs path \<and> (\<forall>offset. fs_seek F fs path offset) \<and>
     (\<forall>offset sz. unat offset + unat sz \<le> length content \<longrightarrow>
        fs_read_exact F fs path offset sz = Some (take (unat sz) (drop (unat offset) content)))"

section \<open>The mutex that is never released\<close>

lemma offset_at_locks: "offset_at m s = Done (v, s') \<Longrightarrow> sp_locked s'"
  by (auto simp: offset_at_def split: if_splits prod.splits)

lemma locked_blocks:
  assumes "sp_locked s"
  shows "offset_at m s = Blocked" "save_snapshot F C sn fs s = Blocked" "load_snapshot_data F fs m q s = Blocked"
    "save_snapshot_data F d fs s = Blocked"
  using assms by (simp_all add: offset_at_def save_snapshot_def load_snapshot_data_def save_snapshot_data_def)

section \<open>A transfer in chunks\<close>

text \<open>
  The transfer of a snapshot to one member: request after request is filled by
  \<open>load_snapshot_data\<close> until one is marked \<open>done\<close>.
\<close>

fun transfer :: "nat \<Rightarrow> 'fs file_api \<Rightarrow> 'fs \<Rightarrow> u64 \<Rightarrow> InstallSnapshotRequest \<Rightarrow> Snapshotter \<Rightarrow> InstallSnapshotRequest list option" where
  "transfer 0 F fs m q s = None"
| "transfer (Suc fuel) F fs m q s =
     (case load_snapshot_data F fs m q s of
        Done (Inr _, q', s') \<Rightarrow> (if isq_done q' then Some [q'] else map_option ((#) q') (transfer fuel F fs m q s'))
      | _ \<Rightarrow> None)"

definition offset_of :: "Snapshotter \<Rightarrow> u64 \<Rightarrow> u64" where
  "offset_of s m = (case um_find (sp_offsets s) m of None \<Rightarrow> 0 | Some v \<Rightarrow> v)"

lemma min_chunk:
  fixes o' n :: u64
  assumes "unat o' \<le> unat n"
  shows "unat (min MAX_SNAPSHOT_CHUNK_SIZE (n - o')) = min 4096 (unat n - unat o')"
  using assms by (simp add: min_def MAX_SNAPSHOT_CHUNK_SIZE_def word_le_nat_alt unat_sub_le)

lemma load_snapshot_data_chunk:
  assumes free: "\<not> sp_locked s" and has: "file_has F fs (sp_snapshot_path s) content"
    and sz: "unat (sp_snapshot_size s) = length content" and off: "unat (offset_of s m) \<le> length content"
  obtains q' s' where "load_snapshot_data F fs m q s = Done (Inr (), q', s')"
    and "isq_offset q' = offset_of s m" and "isq_term q' = isq_term q"
    and "isq_data q' = take 4096 (drop (unat (offset_of s m)) content)"
    and "isq_done q' \<longleftrightarrow> length content \<le> unat (offset_of s m) + 4096"
    and "isq_done q' \<Longrightarrow> offset_of s' m = 0"
    and "\<not> isq_done q' \<Longrightarrow> unat (offset_of s' m) = unat (offset_of s m) + 4096"
    and "\<not> sp_locked s'" "sp_snapshot_path s' = sp_snapshot_path s" "sp_snapshot_size s' = sp_snapshot_size s"
proof -
  define o1 where "o1 = offset_of s m"
  define c where "c = min MAX_SNAPSHOT_CHUNK_SIZE (sp_snapshot_size s - o1)"
  define offs where "offs = snd (um_index 0 m (sp_offsets s))"
  have idx: "um_index 0 m (sp_offsets s) = (o1, offs)"
    by (cases "um_find (sp_offsets s) m") (simp_all add: um_index_def offset_of_def o1_def offs_def)
  have uc: "unat c = min 4096 (length content - unat o1)"
    using min_chunk [of o1 "sp_snapshot_size s"] off sz by (simp add: c_def o1_def)
  then have rd: "fs_read_exact F fs (sp_snapshot_path s) o1 c = Some (take (unat c) (drop (unat o1) content))"
    using has off by (simp add: file_has_def o1_def)
  have data: "take (unat c) (drop (unat o1) content) = take 4096 (drop (unat o1) content)"
    using uc by (simp add: min_def)
  have sum: "unat (o1 + c) = unat o1 + unat c"
    using uc off sz unat_less_64 [of "sp_snapshot_size s"] by (simp add: unat_word_ariths(1) o1_def)
  have last: "o1 + c = sp_snapshot_size s \<longleftrightarrow> length content \<le> unat o1 + 4096"
    using sum uc sz off unfolding word_unat_eq_iff o1_def by linarith
  define s' where "s' = s\<lparr>sp_offsets := um_assign m (if o1 + c = sp_snapshot_size s then 0 else o1 + c) offs\<rparr>"
  define q' where "q' = q\<lparr>isq_offset := o1, isq_done := (o1 + c = sp_snapshot_size s),
    isq_data := take 4096 (drop (unat o1) content)\<rparr>"
  have load: "load_snapshot_data F fs m q s = Done (Inr (), q', s')"
    using free has idx rd data
    by (simp add: load_snapshot_data_def file_has_def Let_def c_def [symmetric] q'_def s'_def)
  have off': "offset_of s' m = (if o1 + c = sp_snapshot_size s then 0 else o1 + c)"
    by (simp add: s'_def offset_of_def)
  have rest: "unat o1 + unat c = unat o1 + 4096" if "\<not> length content \<le> unat o1 + 4096"
    using that uc by simp
  show thesis
    by (rule that [OF load])
      (use free last sum off' rest in \<open>simp_all add: q'_def o1_def [symmetric]\<close>, simp_all add: s'_def)
qed

text \<open>
  The requests of a transfer that starts at offset \<open>off\<close>: the first has that offset and the
  others a positive one, and only the last is marked \<open>done\<close>.
\<close>

definition chunks_ok :: "u64 \<Rightarrow> u64 \<Rightarrow> InstallSnapshotRequest list \<Rightarrow> bool" where
  "chunks_ok t off qs \<longleftrightarrow> qs \<noteq> [] \<and> isq_offset (hd qs) = off \<and> (\<forall>q \<in> set (tl qs). isq_offset q \<noteq> 0) \<and>
     (\<forall>q \<in> set qs. isq_term q = t) \<and> (\<forall>q \<in> set (butlast qs). \<not> isq_done q) \<and> isq_done (last qs)"

lemma chunks_ok_Cons:
  assumes "chunks_ok t off' qs" and "off' \<noteq> 0" and "isq_term q = t" and "isq_offset q = off" and "\<not> isq_done q"
  shows "chunks_ok t off (q # qs)"
proof -
  have "\<forall>p \<in> set qs. isq_offset p \<noteq> 0" using assms(1,2) by (cases qs) (auto simp: chunks_ok_def)
  with assms show ?thesis by (auto simp: chunks_ok_def)
qed

text \<open>
  From any offset inside the file, a transfer ends and its chunks are the rest of the file;
  \<open>length content + 1\<close> requests are enough.
\<close>

lemma transfer_complete:
  assumes "\<not> sp_locked s" and "file_has F fs (sp_snapshot_path s) content"
    and "unat (sp_snapshot_size s) = length content" and "unat (offset_of s m) \<le> length content"
    and "length content < fuel + unat (offset_of s m)"
  shows "\<exists>qs. transfer fuel F fs m q s = Some qs \<and> concat (map isq_data qs) = drop (unat (offset_of s m)) content
    \<and> chunks_ok (isq_term q) (offset_of s m) qs"
  using assms
proof (induction fuel arbitrary: s)
  case 0
  then show ?case by simp
next
  case (Suc fuel)
  obtain q' s' where l: "load_snapshot_data F fs m q s = Done (Inr (), q', s')"
    "isq_offset q' = offset_of s m" "isq_term q' = isq_term q" "isq_data q' = take 4096 (drop (unat (offset_of s m)) content)"
    "isq_done q' \<longleftrightarrow> length content \<le> unat (offset_of s m) + 4096"
    "\<not> isq_done q' \<Longrightarrow> unat (offset_of s' m) = unat (offset_of s m) + 4096"
    and s': "\<not> sp_locked s'" "sp_snapshot_path s' = sp_snapshot_path s" "sp_snapshot_size s' = sp_snapshot_size s"
    by (rule load_snapshot_data_chunk [OF Suc.prems(1-4), where q = q]) blast
  show ?case
  proof (cases "isq_done q'")
    case True
    with l show ?thesis by (simp add: chunks_ok_def)
  next
    case False
    with l Suc.prems s' have "\<exists>qs. transfer fuel F fs m q s' = Some qs \<and>
        concat (map isq_data qs) = drop (unat (offset_of s' m)) content \<and> chunks_ok (isq_term q) (offset_of s' m) qs"
      by (intro Suc.IH) simp_all
    then obtain qs where "transfer fuel F fs m q s' = Some qs" "concat (map isq_data qs) = drop (unat (offset_of s m) + 4096) content"
      and "chunks_ok (isq_term q) (offset_of s' m) qs"
      using l(6) False by auto
    moreover have "offset_of s' m \<noteq> 0" using l(6) False by auto
    ultimately have "transfer fuel F fs m q s' = Some qs" "concat (map isq_data qs) = drop (unat (offset_of s m) + 4096) content"
      and "chunks_ok (isq_term q) (offset_of s m) (q' # qs)"
      using l False by (auto intro: chunks_ok_Cons)
    with False l append_take_drop_id [of 4096 "drop (unat (offset_of s m)) content"]
    show ?thesis by (simp add: add.commute)
  qed
qed

end
