(* ===== verification/Raft_Node.thy ===== *)
theory Raft_Node
  imports Fs_State Raft_Snapshotter
begin

text \<open>
  \<open>class RaftNode\<close> (\<open>include/vosfs/raft/node.hpp\<close>, \<open>src/raft/node.cpp\<close>): the state of a
  member of the cluster, its two background loops and its message handlers.

  Every handler runs under the node's mutex from its first access to the state to its last,
  so a handler is one transition of the node: a function from the node to an \<open>outcome\<close> that
  holds the node afterwards, the response and the requests handed to the transport. A check
  made before the mutex is taken is repeated after it, and appears once here. A handler
  that is \<open>Blocked\<close> keeps the mutex for ever. The clock (\<open>util::current_ms()\<close>) is the
  argument \<open>now\<close>. The record \<open>env\<close> collects what is outside the repository: the database,
  the message codec, the file API, the token library and \<open>std::hash<uint64_t>\<close>.
  \<open>assert\<close>s are live: a failing one is \<open>Crashed\<close>.
\<close>

record ('db, 'fs, 'tok) env =
  env_db :: "'db rocksdb"
  env_open :: "string \<Rightarrow> 'db option"
  env_codec :: codec
  env_files :: "'fs file_api"
  env_jwt :: "'tok jwt"
  env_hash :: "u64 \<Rightarrow> u64"

datatype Role = kLeader | kFollower | kCandidate

record ('db, 'fs) RaftNode =
  rn_is_shutdown :: bool
  rn_last_reset_time :: u64
  rn_snapshotter :: Snapshotter
  rn_snapshot_data :: string
  rn_state_machine :: StateMachine
  rn_persister :: 'db
  rn_disk :: 'fs
  rn_logs :: RaftLog
  rn_transport :: Transport
  rn_hard_state :: HardState
  rn_votes :: u64
  rn_role :: Role
  rn_commit_index :: u64
  rn_last_applied :: u64
  rn_leader_id :: "u64 option"
  rn_next_index :: "(u64, u64) umap"
  rn_match_index :: "(u64, u64) umap"

type_synonym resumed = "(nat \<times> PendingResponse) list"

section \<open>Message constructors\<close>

definition make_request_vote_request :: "u64 \<Rightarrow> u64 \<Rightarrow> u64 \<Rightarrow> u64 \<Rightarrow> RequestVoteRequest" where
  "make_request_vote_request t candidate_id log_index log_term =
     RequestVoteRequest_default\<lparr>rvq_term := t, rvq_candidate_id := candidate_id,
       rvq_last_log_index := log_index, rvq_last_log_term := log_term\<rparr>"

definition make_request_vote_response :: "u64 \<Rightarrow> u64 \<Rightarrow> bool \<Rightarrow> RequestVoteResponse" where
  "make_request_vote_response i t vote_granted =
     RequestVoteResponse_default\<lparr>rvr_id := i, rvr_term := t, rvr_vote_granted := vote_granted\<rparr>"

definition make_append_entries_request ::
    "u64 \<Rightarrow> u64 \<Rightarrow> u64 \<Rightarrow> u64 \<Rightarrow> LogEntry list \<Rightarrow> u64 \<Rightarrow> AppendEntriesRequest" where
  "make_append_entries_request t leader_id prev_log_index prev_log_term entries leader_commit =
     AppendEntriesRequest_default\<lparr>aeq_term := t, aeq_leader_id := leader_id,
       aeq_prev_log_index := prev_log_index, aeq_prev_log_term := prev_log_term,
       aeq_entries := entries, aeq_leader_commit := leader_commit\<rparr>"

definition make_append_entries_response ::
    "u64 \<Rightarrow> u64 \<Rightarrow> bool \<Rightarrow> u64 \<Rightarrow> u64 option \<Rightarrow> AppendEntriesResponse" where
  "make_append_entries_response i t success log_index conflict_index =
     (let response = AppendEntriesResponse_default\<lparr>aer_id := i, aer_term := t, aer_success := success,
            aer_last_log_index := log_index\<rparr>
      in case conflict_index of
           None \<Rightarrow> response
         | Some c \<Rightarrow> response\<lparr>aer_conflict_index := Some c\<rparr>)"

definition make_install_snapshot_request :: "u64 \<Rightarrow> u64 \<Rightarrow> u64 \<Rightarrow> u64 \<Rightarrow> InstallSnapshotRequest" where
  "make_install_snapshot_request t leader_id included_index included_term =
     InstallSnapshotRequest_default\<lparr>isq_term := t, isq_leader_id := leader_id,
       isq_last_included_index := included_index, isq_last_included_term := included_term\<rparr>"

definition make_install_snapshot_response :: "u64 \<Rightarrow> u64 \<Rightarrow> InstallSnapshotResponse" where
  "make_install_snapshot_response i t = InstallSnapshotResponse_default\<lparr>isr_id := i, isr_term := t\<rparr>"

definition make_list_dir_response :: "u32 \<Rightarrow> string \<Rightarrow> ListDirResponse" where
  "make_list_dir_response status_code message =
     ListDirResponse_default\<lparr>ldr_status_code := status_code, ldr_message := message\<rparr>"

definition make_make_dir_response :: "u32 \<Rightarrow> string \<Rightarrow> MakeDirResponse" where
  "make_make_dir_response status_code message =
     MakeDirResponse_default\<lparr>mdr_status_code := status_code, mdr_message := message\<rparr>"

definition make_prepare_upload_file_response :: "u32 \<Rightarrow> string \<Rightarrow> PrepareUploadFileResponse" where
  "make_prepare_upload_file_response status_code message =
     PrepareUploadFileResponse_default\<lparr>pur_status_code := status_code, pur_message := message\<rparr>"

definition make_upload_file_response :: "u32 \<Rightarrow> string \<Rightarrow> u64 \<Rightarrow> UploadFileResponse" where
  "make_upload_file_response status_code message ino =
     UploadFileResponse_default\<lparr>ufr_status_code := status_code, ufr_message := message, ufr_ino := ino\<rparr>"

definition make_prepare_download_file_response :: "u32 \<Rightarrow> string \<Rightarrow> PrepareDownloadFileResponse" where
  "make_prepare_download_file_response status_code message =
     PrepareDownloadFileResponse_default\<lparr>pdr_status_code := status_code, pdr_message := message\<rparr>"

lemmas make_defs [msg_defs] =
  make_request_vote_request_def make_request_vote_response_def make_append_entries_request_def
  make_append_entries_response_def make_install_snapshot_request_def make_install_snapshot_response_def
  make_list_dir_response_def make_make_dir_response_def make_prepare_upload_file_response_def
  make_upload_file_response_def make_prepare_download_file_response_def

section \<open>Terms and roles\<close>

text \<open>\<open>persister_.save_hard_state(hard_state_)\<close>: the process aborts when the write fails.\<close>

definition persist_hard_state :: "('db, 'fs, 'tok) env \<Rightarrow> ('db, 'fs) RaftNode \<Rightarrow> ('db, 'fs) RaftNode outcome" where
  "persist_hard_state E n =
     co_await (save_hard_state (env_db E) (env_codec E) (rn_hard_state n) (rn_persister n))
       (\<lambda>db. Done (n\<lparr>rn_persister := db\<rparr>))"

definition increase_term_to ::
    "('db, 'fs, 'tok) env \<Rightarrow> u64 \<Rightarrow> u64 \<Rightarrow> ('db, 'fs) RaftNode \<Rightarrow> ('db, 'fs) RaftNode outcome" where
  "increase_term_to E now t n =
     persist_hard_state E
       (n\<lparr>rn_votes := 0,
          rn_hard_state := (rn_hard_state n)\<lparr>hs_voted_for := None, hs_current_term := t\<rparr>,
          rn_role := kFollower, rn_last_reset_time := now\<rparr>)"

text \<open>The loop of \<open>become_leader\<close> over the peers, with the assignments around it.\<close>

definition reset_peers :: "('db, 'fs) RaftNode \<Rightarrow> ('db, 'fs) RaftNode" where
  "reset_peers n =
     (let ids = map pe_id (um_values (tr_peers (rn_transport n))) in
      n\<lparr>rn_leader_id := Some (member_id (rn_transport n)),
        rn_next_index := fold (\<lambda>i. um_assign i (last_log_index (rn_logs n) + 1)) ids (rn_next_index n),
        rn_match_index := fold (\<lambda>i. um_assign i 0) ids (rn_match_index n),
        rn_snapshotter := reset_offsets (rn_snapshotter n)\<rparr>)"

definition become_leader :: "('db, 'fs, 'tok) env \<Rightarrow> ('db, 'fs) RaftNode \<Rightarrow> ('db, 'fs) RaftNode outcome" where
  "become_leader E n =
     co_await
       (persist_hard_state E
          (n\<lparr>rn_votes := 0, rn_hard_state := (rn_hard_state n)\<lparr>hs_voted_for := None\<rparr>, rn_role := kLeader\<rparr>))
       (\<lambda>n1. Done (reset_peers n1))"

section \<open>Applying committed entries\<close>

text \<open>
  The snapshot that \<open>apply_entry\<close> takes at every tenth entry. \<open>save_snapshot\<close> takes its
  argument by value from \<open>std::move(snapshot)\<close>, so \<open>logs_.load_snapshot(snapshot)\<close> reads the
  object that was moved from.
\<close>

definition snapshot_step :: "('db, 'fs, 'tok) env \<Rightarrow> ('db, 'fs) RaftNode \<Rightarrow> ('db, 'fs) RaftNode outcome" where
  "snapshot_step E n =
     co_await (from_option (get_term (rn_logs n) (rn_last_applied n)))
       (\<lambda>last_included_term.
          let snapshot = take_snapshot (rn_state_machine n)
                (Snapshot_default\<lparr>sn_last_included_index := rn_last_applied n,
                   sn_last_included_term := last_included_term\<rparr>);
              (saved, snapshot') = Snapshot_move snapshot
          in co_await (save_snapshot (env_files E) (env_codec E) saved (rn_disk n) (rn_snapshotter n))
               (\<lambda>(ret, disk, sp).
                  let n1 = n\<lparr>rn_disk := disk, rn_snapshotter := sp\<rparr> in
                  case ret of
                    Inl _ \<Rightarrow> Done n1
                  | Inr _ \<Rightarrow> Done (n1\<lparr>rn_logs := RaftLog_load_snapshot snapshot' (rn_logs n)\<rparr>)))"

definition apply_one ::
    "('db, 'fs, 'tok) env \<Rightarrow> u64 \<Rightarrow> ('db, 'fs) RaftNode \<Rightarrow> (('db, 'fs) RaftNode \<times> resumed) outcome" where
  "apply_one E now n0 =
     (let n = n0\<lparr>rn_last_applied := rn_last_applied n0 + 1\<rparr> in
      co_await (from_option (get_entry (rn_logs n) (rn_last_applied n)))
        (\<lambda>entry.
           let (sm, rs) =
                 (if rn_role n = kLeader then sm_apply_entry (env_codec E) now entry (rn_state_machine n)
                  else (sm_apply_entry_no_response (env_codec E) now entry (rn_state_machine n), []));
               n1 = n\<lparr>rn_state_machine := sm\<rparr>
           in if rn_last_applied n1 mod SNAPSHOT_INTERVAL = 0
              then co_await (snapshot_step E n1) (\<lambda>n2. Done (n2, rs))
              else Done (n1, rs)))"

text \<open>What one iteration changes, and with what.\<close>

lemma snapshot_step_cases:
  assumes "snapshot_step E n = Done n'"
  obtains disk sp logs where "n' = n\<lparr>rn_disk := disk, rn_snapshotter := sp, rn_logs := logs\<rparr>"
    and "logs = rn_logs n \<or> logs = RaftLog_load_snapshot Snapshot_default (rn_logs n)"
proof -
  from assms obtain t ret disk sp where
    "(case (ret :: unit Result) of Inl _ \<Rightarrow> Done (n\<lparr>rn_disk := disk, rn_snapshotter := sp\<rparr>)
      | Inr u \<Rightarrow> Done (n\<lparr>rn_disk := disk, rn_snapshotter := sp,
                   rn_logs := RaftLog_load_snapshot Snapshot_default (rn_logs n)\<rparr>)) = Done n'"
    by (auto simp: snapshot_step_def co_await_Done_iff Let_def Snapshot_move_def)
  then show thesis
    by (cases ret)
      (auto intro: that [where disk = disk and sp = sp and logs = "rn_logs n"] that [where disk = disk and sp = sp])
qed

definition applied_state ::
    "('db, 'fs, 'tok) env \<Rightarrow> u64 \<Rightarrow> LogEntry \<Rightarrow> ('db, 'fs) RaftNode \<Rightarrow> StateMachine \<times> resumed" where
  "applied_state E now entry n =
     (if rn_role n = kLeader then sm_apply_entry (env_codec E) now entry (rn_state_machine n)
      else (sm_apply_entry_no_response (env_codec E) now entry (rn_state_machine n), []))"

lemma apply_one_cases:
  assumes "apply_one E now n = Done (n', rs)"
  obtains entry disk sp logs where "get_entry (rn_logs n) (rn_last_applied n + 1) = Some entry"
    and "rs = snd (applied_state E now entry n)"
    and "n' = n\<lparr>rn_last_applied := rn_last_applied n + 1, rn_state_machine := fst (applied_state E now entry n),
       rn_disk := disk, rn_snapshotter := sp, rn_logs := logs\<rparr>"
    and "logs = rn_logs n \<or> logs = RaftLog_load_snapshot Snapshot_default (rn_logs n)"
proof -
  define m where "m = (\<lambda>entry. n\<lparr>rn_last_applied := rn_last_applied n + 1,
    rn_state_machine := fst (applied_state E now entry n)\<rparr>)"
  from assms obtain entry where e: "get_entry (rn_logs n) (rn_last_applied n + 1) = Some entry"
    and rs: "rs = snd (applied_state E now entry n)"
    and n': "n' = m entry \<or> snapshot_step E (m entry) = Done n'"
    by (auto simp: apply_one_def co_await_Done_iff Let_def from_option_Done_iff split_beta applied_state_def m_def
        split: if_splits)
  from n' obtain disk sp logs where "n' = (m entry)\<lparr>rn_disk := disk, rn_snapshotter := sp, rn_logs := logs\<rparr>"
    and "logs = rn_logs n \<or> logs = RaftLog_load_snapshot Snapshot_default (rn_logs n)"
  proof
    assume "n' = m entry"
    then show thesis 
      by (intro that [where disk = "rn_disk n" and sp = "rn_snapshotter n" and logs = "rn_logs n"]) (simp_all add: m_def)
  next
    assume "snapshot_step E (m entry) = Done n'"
    then show thesis by (rule snapshot_step_cases) (rule that, simp_all add: m_def)
  qed
  with e rs show thesis by (intro that) (simp_all add: m_def)
qed

lemma apply_one_last_applied:
  "apply_one E now n = Done (n', rs) \<Longrightarrow> rn_last_applied n' = rn_last_applied n + 1"
  by (erule apply_one_cases) simp

function apply_loop ::
    "('db, 'fs, 'tok) env \<Rightarrow> u64 \<Rightarrow> u64 \<Rightarrow> ('db, 'fs) RaftNode \<Rightarrow> (('db, 'fs) RaftNode \<times> resumed) outcome" where
  "apply_loop E now commit_index n =
     (if rn_last_applied n < commit_index
      then (case apply_one E now n of
              Done (n', rs) \<Rightarrow>
                (case apply_loop E now commit_index n' of
                   Done (n'', rs') \<Rightarrow> Done (n'', rs @ rs')
                 | Blocked \<Rightarrow> Blocked
                 | Crashed \<Rightarrow> Crashed)
            | Blocked \<Rightarrow> Blocked
            | Crashed \<Rightarrow> Crashed)
      else Done (n, []))"
  by pat_completeness auto
termination
  by (relation "measure (\<lambda>(E, now, commit_index, n). unat commit_index - unat (rn_last_applied n))")
    (auto dest!: apply_one_last_applied simp: unat_add_one word_less_nat_alt)

declare apply_loop.simps [simp del]

definition apply_entry ::
    "('db, 'fs, 'tok) env \<Rightarrow> u64 \<Rightarrow> ('db, 'fs) RaftNode \<Rightarrow> (('db, 'fs) RaftNode \<times> resumed) outcome" where
  "apply_entry E now n = apply_loop E now (rn_commit_index n) n"

end
