(* ===== verification/Raft_Handlers.thy ===== *)
theory Raft_Handlers
  imports Raft_Node
begin

text \<open>
  The handlers of \<open>RaftNode\<close> (\<open>src/raft/node.cpp\<close>): the requests and responses of the Raft
  protocol, the client requests, one iteration of each background loop, and the construction
  of a node from what is on disk.
\<close>

section \<open>Elections\<close>

text \<open>
  One iteration of \<open>election_loop\<close> up to the broadcast: nothing when the timer was reset in
  the meantime or the node leads, otherwise a new candidacy and the request that is sent to
  every other member. \<open>election_loop_end\<close> is the assignment after the broadcast.
\<close>

definition election_loop_body ::
    "('db, 'fs, 'tok) env \<Rightarrow> u64 \<Rightarrow> u64 \<Rightarrow> ('db, 'fs) RaftNode
     \<Rightarrow> (('db, 'fs) RaftNode \<times> RequestVoteRequest option) outcome" where
  "election_loop_body E now election_timeout n =
     (let timeout = now - rn_last_reset_time n in
      if timeout < election_timeout \<or> rn_role n = kLeader then Done (n, None)
      else
        (let current_term = hs_current_term (rn_hard_state n) + 1;
             self = member_id (rn_transport n);
             n1 = n\<lparr>rn_votes := 0,
                    rn_hard_state := (rn_hard_state n)\<lparr>hs_current_term := current_term, hs_voted_for := Some self\<rparr>,
                    rn_role := kCandidate\<rparr>
         in co_await (persist_hard_state E n1)
              (\<lambda>n2.
                 let log_index = last_log_index (rn_logs n2);
                     log_term = last_log_term (rn_logs n2);
                     n3 = n2\<lparr>rn_votes := rn_votes n2 + 1\<rparr>;
                     request = make_request_vote_request current_term self log_index log_term
                 in co_await
                      (if rn_votes n3 > cluster_size (rn_transport n3) div 2 \<and> rn_role n3 = kCandidate
                       then become_leader E n3 else Done n3)
                      (\<lambda>n4. Done (n4, Some request)))))"

definition election_loop_end :: "u64 \<Rightarrow> ('db, 'fs) RaftNode \<Rightarrow> ('db, 'fs) RaftNode" where
  "election_loop_end now n = n\<lparr>rn_last_reset_time := now\<rparr>"

definition handle_request_vote_request ::
    "('db, 'fs, 'tok) env \<Rightarrow> u64 \<Rightarrow> RequestVoteRequest \<Rightarrow> ('db, 'fs) RaftNode
     \<Rightarrow> (('db, 'fs) RaftNode \<times> RequestVoteResponse) outcome" where
  "handle_request_vote_request E now request n =
     (let self = member_id (rn_transport n);
          t = rvq_term request;
          current_term = hs_current_term (rn_hard_state n)
      in if t < current_term then Done (n, make_request_vote_response self current_term False)
         else
           co_await (if t > current_term then increase_term_to E now t n else Done n)
             (\<lambda>n1.
                let current_term' = (if t > current_term then t else current_term);
                    up_to_date_log =
                      (rvq_last_log_index request > last_log_index (rn_logs n1) \<or>
                       rvq_last_log_index request = last_log_index (rn_logs n1) \<and>
                       rvq_last_log_term request = last_log_term (rn_logs n1));
                    can_vote =
                      ((hs_voted_for (rn_hard_state n1) = None \<or>
                        hs_voted_for (rn_hard_state n1) = Some (rvq_candidate_id request)) \<and> up_to_date_log);
                    n2 = (if can_vote
                          then n1\<lparr>rn_hard_state := (rn_hard_state n1)\<lparr>hs_voted_for := Some (rvq_candidate_id request)\<rparr>,
                                  rn_last_reset_time := now\<rparr>
                          else n1)
                in Done (n2, make_request_vote_response self current_term' can_vote)))"

definition handle_request_vote_response ::
    "('db, 'fs, 'tok) env \<Rightarrow> u64 \<Rightarrow> RequestVoteResponse \<Rightarrow> ('db, 'fs) RaftNode \<Rightarrow> ('db, 'fs) RaftNode outcome" where
  "handle_request_vote_response E now response n =
     (let t = rvr_term response;
          current_term = hs_current_term (rn_hard_state n)
      in if t < current_term then Done n
         else if t > current_term then increase_term_to E now t n
         else if rn_role n = kLeader then Done n
         else if rvr_vote_granted response then
           (let n1 = n\<lparr>rn_votes := rn_votes n + 1\<rparr> in
            if rn_votes n1 > cluster_size (rn_transport n1) div 2 \<and> rn_role n1 = kCandidate
            then become_leader E n1 else Done n1)
         else Done n)"

section \<open>Replication\<close>

text \<open>
  The loop that deletes conflicting entries: the first entry whose term differs from the local
  one cuts the log there, in the database first.
\<close>

fun delete_conflicts ::
    "('db, 'fs, 'tok) env \<Rightarrow> LogEntry list \<Rightarrow> 'db \<Rightarrow> RaftLog \<Rightarrow> ('db \<times> RaftLog) outcome" where
  "delete_conflicts E [] db logs = Done (db, logs)"
| "delete_conflicts E (entry # entries) db logs =
     (let idx = le_index entry in
      if idx > last_log_index logs then Done (db, logs)
      else co_await (from_option (get_term logs idx))
        (\<lambda>t. if t \<noteq> le_term entry
              then co_await (truncate_entries (env_db E) idx (last_log_index logs) db)
                     (\<lambda>db'. co_await (from_option (truncate_entries_before idx logs))
                        (\<lambda>logs'. Done (db', logs')))
              else delete_conflicts E entries db logs))"

definition store_entries ::
    "('db, 'fs, 'tok) env \<Rightarrow> LogEntry list \<Rightarrow> ('db, 'fs) RaftNode \<Rightarrow> ('db, 'fs) RaftNode outcome" where
  "store_entries E entries n =
     (if entries = [] then Done n
      else co_await (delete_conflicts E entries (rn_persister n) (rn_logs n))
        (\<lambda>(db, logs). co_await (save_entries (env_db E) (env_codec E) entries db)
           (\<lambda>db'. Done (n\<lparr>rn_persister := db', rn_logs := append_entries entries logs\<rparr>))))"

text \<open>
  The test on the entry before the new ones; \<open>&&\<close> calls \<open>get_term\<close> only inside the log.
\<close>

definition prev_log_ok :: "AppendEntriesRequest \<Rightarrow> RaftLog \<Rightarrow> bool outcome" where
  "prev_log_ok request logs =
     (if aeq_prev_log_index request \<le> last_log_index logs \<and>
         aeq_prev_log_index request \<ge> last_included_index logs
      then co_await (from_option (get_term logs (aeq_prev_log_index request)))
             (\<lambda>t. Done (aeq_prev_log_term request = t))
      else Done False)"

definition handle_append_entries_request ::
    "('db, 'fs, 'tok) env \<Rightarrow> u64 \<Rightarrow> AppendEntriesRequest \<Rightarrow> ('db, 'fs) RaftNode
     \<Rightarrow> (('db, 'fs) RaftNode \<times> AppendEntriesResponse \<times> resumed) outcome" where
  "handle_append_entries_request E now request n =
     (let self = member_id (rn_transport n);
          t = aeq_term request;
          current_term = hs_current_term (rn_hard_state n)
      in if t < current_term
         then Done (n, make_append_entries_response self current_term False (last_log_index (rn_logs n)) None, [])
         else
           co_await (if t > current_term then increase_term_to E now t n else Done n)
             (\<lambda>n1.
                let current_term' = (if t > current_term then t else current_term);
                    n2 = n1\<lparr>rn_leader_id := Some (aeq_leader_id request), rn_last_reset_time := now\<rparr>
                in co_await (prev_log_ok request (rn_logs n2))
                     (\<lambda>log_ok.
                        if \<not> log_ok
                        then Done (n2, make_append_entries_response self current_term' False
                               (last_log_index (rn_logs n2)) (Some (aeq_prev_log_index request)), [])
                        else
                          co_await (store_entries E (aeq_entries request) n2)
                            (\<lambda>n3.
                               co_await
                                 (if aeq_leader_commit request > rn_commit_index n3
                                  then apply_entry E now
                                         (n3\<lparr>rn_commit_index := min (last_log_index (rn_logs n3)) (aeq_leader_commit request)\<rparr>)
                                  else Done (n3, []))
                                 (\<lambda>(n4, rs).
                                    Done (n4, make_append_entries_response self current_term' True
                                      (last_log_index (rn_logs n4)) None, rs))))))"

text \<open>
  The leader's side: record what the follower holds, and commit the element in the middle of
  the sorted match indices. \<open>idxs[idxs.size() / 2]\<close> is defined, since the follower's own
  element has just been stored.
\<close>

definition commit_candidate :: "(u64, u64) umap \<Rightarrow> u64" where
  "commit_candidate match_index =
     (let idxs = sort (um_values match_index) in idxs ! (length idxs div 2))"

definition handle_append_entries_response ::
    "('db, 'fs, 'tok) env \<Rightarrow> u64 \<Rightarrow> AppendEntriesResponse \<Rightarrow> ('db, 'fs) RaftNode
     \<Rightarrow> (('db, 'fs) RaftNode \<times> resumed) outcome" where
  "handle_append_entries_response E now response n =
     (let i = aer_id response;
          t = aer_term response;
          current_term = hs_current_term (rn_hard_state n)
      in if t < current_term \<or> rn_role n \<noteq> kLeader then Done (n, [])
         else if t > current_term then co_await (increase_term_to E now t n) (\<lambda>n1. Done (n1, []))
         else if \<not> aer_success response then
           (case aer_conflict_index response of
              None \<Rightarrow> Done (n, [])
            | Some c \<Rightarrow> Done (n\<lparr>rn_next_index := um_assign i c (rn_next_index n)\<rparr>, []))
         else
           (let n1 = n\<lparr>rn_match_index := um_assign i (aer_last_log_index response) (rn_match_index n),
                       rn_next_index := um_assign i (aer_last_log_index response + 1) (rn_next_index n)\<rparr>;
                idx = commit_candidate (rn_match_index n1)
            in if idx > rn_commit_index n1 then apply_entry E now (n1\<lparr>rn_commit_index := idx\<rparr>)
               else Done (n1, [])))"

section \<open>Snapshots\<close>

definition send_snapshot ::
    "('db, 'fs, 'tok) env \<Rightarrow> u64 \<Rightarrow> ('db, 'fs) RaftNode
     \<Rightarrow> (('db, 'fs) RaftNode \<times> (u64 \<times> InstallSnapshotRequest) list) outcome" where
  "send_snapshot E m n =
     (if rn_snapshot_data n = [] then Done (n, [])
      else co_await (offset_at m (rn_snapshotter n))
        (\<lambda>(offset, sp).
           let n1 = n\<lparr>rn_snapshotter := sp\<rparr> in
           if offset \<noteq> 0 then Done (n1, [])
           else
             (let request = make_install_snapshot_request (hs_current_term (rn_hard_state n1))
                    (member_id (rn_transport n1)) (last_included_index (rn_logs n1)) (last_included_term (rn_logs n1))
              in co_await (load_snapshot_data (env_files E) (rn_disk n1) m request (rn_snapshotter n1))
                   (\<lambda>(ret, request', sp').
                      let n2 = n1\<lparr>rn_snapshotter := sp'\<rparr> in
                      case ret of
                        Inl _ \<Rightarrow> Done (n2, [])
                      | Inr _ \<Rightarrow>
                          (case unicast_target (rn_transport n2) m of
                             None \<Rightarrow> Crashed
                           | Some _ \<Rightarrow> Done (n2, [(m, request')]))))))"

definition handle_install_snapshot_request ::
    "('db, 'fs, 'tok) env \<Rightarrow> u64 \<Rightarrow> InstallSnapshotRequest \<Rightarrow> ('db, 'fs) RaftNode
     \<Rightarrow> (('db, 'fs) RaftNode \<times> InstallSnapshotResponse) outcome" where
  "handle_install_snapshot_request E now request n =
     (let self = member_id (rn_transport n);
          t = isq_term request;
          current_term = hs_current_term (rn_hard_state n)
      in if t < current_term then Done (n, make_install_snapshot_response self current_term)
         else
           co_await (if t > current_term then increase_term_to E now t n else Done n)
             (\<lambda>n1.
                let current_term' = (if t > current_term then t else current_term);
                    data = (if isq_offset request = 0 then [] else rn_snapshot_data n1) @ isq_data request;
                    n2 = n1\<lparr>rn_leader_id := Some (isq_leader_id request), rn_last_reset_time := now,
                            rn_snapshot_data := data\<rparr>;
                    response = make_install_snapshot_response self current_term'
                in if \<not> isq_done request then Done (n2, response)
                   else
                     (case par_snapshot (env_codec E) (rn_snapshot_data n2) of
                        None \<Rightarrow> Done (n2\<lparr>rn_snapshot_data := []\<rparr>, response)
                      | Some snapshot \<Rightarrow>
                          Done (n2\<lparr>rn_logs := RaftLog_load_snapshot snapshot (rn_logs n2),
                                   rn_state_machine := StateMachine_load_snapshot snapshot (rn_state_machine n2)\<rparr>,
                                response))))"

definition handle_install_snapshot_response ::
    "('db, 'fs, 'tok) env \<Rightarrow> u64 \<Rightarrow> InstallSnapshotResponse \<Rightarrow> ('db, 'fs) RaftNode
     \<Rightarrow> (('db, 'fs) RaftNode \<times> (u64 \<times> InstallSnapshotRequest) list) outcome" where
  "handle_install_snapshot_response E now response n =
     (let t = isr_term response;
          current_term = hs_current_term (rn_hard_state n)
      in if t > current_term then co_await (increase_term_to E now t n) (\<lambda>n1. Done (n1, []))
         else send_snapshot E (isr_id response) n)"

section \<open>Heartbeats\<close>

record messages =
  ms_append :: "(u64 \<times> AppendEntriesRequest) list"
  ms_install :: "(u64 \<times> InstallSnapshotRequest) list"

text \<open>The body of the loop over \<open>next_index_\<close> for one member.\<close>

definition heartbeat_member ::
    "('db, 'fs, 'tok) env \<Rightarrow> u64 \<times> u64 \<Rightarrow> ('db, 'fs) RaftNode \<times> messages \<Rightarrow> (('db, 'fs) RaftNode \<times> messages) outcome" where
  "heartbeat_member E = (\<lambda>(m, next_index) (n, out).
     let self = member_id (rn_transport n);
         log_index = last_log_index (rn_logs n);
         finish = (\<lambda>entries.
           let prev_log_index = next_index - 1 in
           co_await (from_option (get_term (rn_logs n) prev_log_index))
             (\<lambda>prev_log_term.
                let request = make_append_entries_request (hs_current_term (rn_hard_state n)) self
                      prev_log_index prev_log_term entries (rn_commit_index n)
                in Done (n, out\<lparr>ms_append := um_emplace m request (ms_append out)\<rparr>)))
     in if m = self then Done (n, out)
        else if next_index \<le> log_index then
          (if next_index \<le> last_included_index (rn_logs n) then
             co_await (send_snapshot E m n)
               (\<lambda>(n1, sent). Done (n1, out\<lparr>ms_install := ms_install out @ sent\<rparr>))
           else
             (let batch_size = min MAX_APPEND_ENTRIES_SIZE (log_index - next_index + 1) in
              co_await (from_option (get_entries (rn_logs n) next_index batch_size)) finish))
        else finish [])"

fun heartbeat_members ::
    "('db, 'fs, 'tok) env \<Rightarrow> (u64, u64) umap \<Rightarrow> ('db, 'fs) RaftNode \<times> messages \<Rightarrow> (('db, 'fs) RaftNode \<times> messages) outcome" where
  "heartbeat_members E [] s = Done s"
| "heartbeat_members E (p # ps) s = co_await (heartbeat_member E p s) (heartbeat_members E ps)"

text \<open>
  One iteration of \<open>heartbeat_loop\<close>; sending to a member that is not a peer dereferences a
  null pointer.
\<close>

definition heartbeat_loop_body ::
    "('db, 'fs, 'tok) env \<Rightarrow> ('db, 'fs) RaftNode \<Rightarrow> (('db, 'fs) RaftNode \<times> messages) outcome" where
  "heartbeat_loop_body E n =
     (if rn_role n \<noteq> kLeader then Done (n, \<lparr>ms_append = [], ms_install = []\<rparr>)
      else co_await (heartbeat_members E (rn_next_index n) (n, \<lparr>ms_append = [], ms_install = []\<rparr>))
        (\<lambda>(n1, out).
           if list_all (\<lambda>(m, _). unicast_target (rn_transport n1) m \<noteq> None) (ms_append out)
           then Done (n1, out) else Crashed))"

section \<open>Client requests\<close>

text \<open>
  The handlers check the token, then, under the mutex, that the node leads; a node that does
  not lead answers with the id of the leader it knows. A write is wrapped as a log entry, and
  the coroutine with handle \<open>h\<close> is suspended: no response yet (\<open>None\<close>). The response is sent
  when the state machine resumes \<open>h\<close>.
\<close>

definition leader_text :: "('db, 'fs) RaftNode \<Rightarrow> string" where
  "leader_text n = (case rn_leader_id n of None \<Rightarrow> [] | Some i \<Rightarrow> to_string i)"

definition handle_list_dir_request ::
    "('db, 'fs, 'tok) env \<Rightarrow> ListDirRequest \<Rightarrow> ('db, 'fs) RaftNode \<Rightarrow> ListDirResponse" where
  "handle_list_dir_request E request n =
     (if \<not> vertify_token (env_jwt E) (ldq_token request)
      then make_list_dir_response kPermissionDenied msg_invalid_token
      else if rn_role n \<noteq> kLeader then make_list_dir_response kNotLeader (leader_text n)
      else ls request ListDirResponse_default (rn_state_machine n))"

definition submit ::
    "('db, 'fs, 'tok) env \<Rightarrow> nat \<Rightarrow> EntryCommand \<Rightarrow> PendingResponse \<Rightarrow> ('db, 'fs) RaftNode \<Rightarrow> ('db, 'fs) RaftNode" where
  "submit E h command response n =
     (let log_index = last_log_index (rn_logs n) + 1;
          entry = LogEntry_default\<lparr>le_term := hs_current_term (rn_hard_state n), le_index := log_index,
            le_command := ser_command (env_codec E) command\<rparr>
      in n\<lparr>rn_logs := append_entry entry (rn_logs n),
           rn_state_machine := append_request log_index \<lparr>pr_handle = Some h, pr_response = response\<rparr> (rn_state_machine n)\<rparr>)"

definition handle_make_dir_request ::
    "('db, 'fs, 'tok) env \<Rightarrow> u64 \<Rightarrow> nat \<Rightarrow> MakeDirRequest \<Rightarrow> ('db, 'fs) RaftNode
     \<Rightarrow> ('db, 'fs) RaftNode \<times> MakeDirResponse option" where
  "handle_make_dir_request E now h request n =
     (if \<not> vertify_token (env_jwt E) (mdq_token request)
      then (n, Some (make_make_dir_response kPermissionDenied msg_invalid_token))
      else if rn_role n \<noteq> kLeader
      then (n, Some (make_make_dir_response kNotLeader (leader_text n)))
      else (submit E h (CmdMkdir (request\<lparr>mdq_timestamp := now\<rparr>))
              (RespMkdir (MakeDirResponse_default\<lparr>mdr_status_code := kFailed, mdr_message := msg_mkdir_unknown\<rparr>)) n,
            None))"

definition handle_prepare_upload_file_request ::
    "('db, 'fs, 'tok) env \<Rightarrow> PrepareUploadFileRequest \<Rightarrow> ('db, 'fs) RaftNode
     \<Rightarrow> (('db, 'fs) RaftNode \<times> PrepareUploadFileResponse) outcome" where
  "handle_prepare_upload_file_request E request n =
     (if \<not> vertify_token (env_jwt E) (puq_token request)
      then Done (n, make_prepare_upload_file_response kPermissionDenied msg_invalid_token)
      else if rn_role n \<noteq> kLeader
      then Done (n, make_prepare_upload_file_response kNotLeader (leader_text n))
      else co_await (prepare_upload_file (env_hash E) request PrepareUploadFileResponse_default (rn_state_machine n))
        (\<lambda>(sm, response). Done (n\<lparr>rn_state_machine := sm\<rparr>, response)))"

definition handle_upload_file_request ::
    "('db, 'fs, 'tok) env \<Rightarrow> nat \<Rightarrow> UploadFileRequest \<Rightarrow> ('db, 'fs) RaftNode
     \<Rightarrow> ('db, 'fs) RaftNode \<times> UploadFileResponse option" where
  "handle_upload_file_request E h request n =
     (let ino = ufq_ino request in
      if \<not> vertify_token (env_jwt E) (ufq_token request)
      then (n, Some (make_upload_file_response kPermissionDenied msg_invalid_token ino))
      else if rn_role n \<noteq> kLeader
      then (n, Some (make_upload_file_response kNotLeader (leader_text n) ino))
      else (submit E h (CmdUploadFile request)
              (RespUploadFile (UploadFileResponse_default\<lparr>ufr_status_code := kFailed, ufr_message := msg_upload_unknown\<rparr>)) n,
            None))"

definition handle_prepare_download_file_request ::
    "('db, 'fs, 'tok) env \<Rightarrow> PrepareDownloadFileRequest \<Rightarrow> ('db, 'fs) RaftNode \<Rightarrow> PrepareDownloadFileResponse" where
  "handle_prepare_download_file_request E request n =
     (if \<not> vertify_token (env_jwt E) (pdq_token request)
      then make_prepare_download_file_response kPermissionDenied msg_invalid_token
      else if rn_role n \<noteq> kLeader
      then make_prepare_download_file_response kNotLeader (leader_text n)
      else prepare_download_file request PrepareDownloadFileResponse_default (rn_state_machine n))"

section \<open>Construction\<close>

definition SNAPSHOT_DIR :: string where "SNAPSHOT_DIR = ''raft/snapshot''"
definition SNAPSHOT_TEMP_FILE_NAME :: string where "SNAPSHOT_TEMP_FILE_NAME = ''snapshot.tmp''"
definition SNAPSHOT_FILE_NAME :: string where "SNAPSHOT_FILE_NAME = ''snapshot.bin''"
definition DB_DIR :: string where "DB_DIR = ''raft/db''"

text \<open>\<open>operator/\<close> of \<open>std::filesystem::path\<close> with a relative right operand.\<close>

definition path_append :: "string \<Rightarrow> string \<Rightarrow> string" where
  "path_append p q = (if p = [] \<or> last p = CHR ''/'' then p @ q else p @ ''/'' @ q)"

definition RaftNode_init ::
    "Snapshotter \<Rightarrow> StateMachine \<Rightarrow> 'db \<Rightarrow> 'fs \<Rightarrow> RaftLog \<Rightarrow> Transport \<Rightarrow> HardState \<Rightarrow> ('db, 'fs) RaftNode" where
  "RaftNode_init snapshotter state_machine persister disk logs transport hard_state =
     \<lparr>rn_is_shutdown = False, rn_last_reset_time = 0, rn_snapshotter = snapshotter, rn_snapshot_data = [],
      rn_state_machine = state_machine, rn_persister = persister, rn_disk = disk, rn_logs = logs,
      rn_transport = transport, rn_hard_state = hard_state, rn_votes = 0, rn_role = kFollower,
      rn_commit_index = 0, rn_last_applied = 0, rn_leader_id = None, rn_next_index = [], rn_match_index = []\<rparr>"

definition Persister_create :: "('db, 'fs, 'tok) env \<Rightarrow> string \<Rightarrow> 'db Result" where
  "Persister_create E db_dir =
     (case env_open E db_dir of
        None \<Rightarrow> Inl (make_error kDatabaseConnectionFailed)
      | Some db \<Rightarrow> Inr db)"

text \<open>The snapshot found at start, if any: its position and the state machine that holds it.\<close>

definition load_start_snapshot ::
    "('db, 'fs, 'tok) env \<Rightarrow> 'fs \<Rightarrow> string \<Rightarrow> Snapshotter \<Rightarrow> StateMachine
     \<Rightarrow> (u64 \<times> u64 \<times> Snapshotter \<times> StateMachine) Result" where
  "load_start_snapshot E disk path snapshotter state_machine =
     (let ret = get_file_size (fs_statx (env_files E) disk path) in
      if ret = - 1 then Inl (make_error kFileError)
      else if sint ret > 0 then
        (case Snapshotter_load_snapshot (env_files E) (env_codec E) disk snapshotter of
           (Inl err, _) \<Rightarrow> Inl err
         | (Inr snapshot, snapshotter') \<Rightarrow>
             Inr (sn_last_included_index snapshot, sn_last_included_term snapshot, snapshotter',
                  StateMachine_load_snapshot snapshot state_machine))
      else Inr (0, 0, snapshotter, state_machine))"

definition RaftNode_create ::
    "('db, 'fs, 'tok) env \<Rightarrow> Config Result \<Rightarrow> 'fs \<Rightarrow> ('db, 'fs) RaftNode Result outcome" where
  "RaftNode_create E has_config disk =
     (case has_config of
        Inl err \<Rightarrow> Done (Inl err)
      | Inr config \<Rightarrow>
          (let snapshot_dir = path_append (cfg_data_dir config) SNAPSHOT_DIR;
               db_dir = path_append (cfg_data_dir config) DB_DIR;
               snapshotter = Snapshotter_create (path_append snapshot_dir SNAPSHOT_FILE_NAME)
                 (path_append snapshot_dir SNAPSHOT_TEMP_FILE_NAME)
           in case load_start_snapshot E disk (path_append snapshot_dir SNAPSHOT_FILE_NAME) snapshotter
                     (StateMachine_create config) of
                Inl err \<Rightarrow> Done (Inl err)
              | Inr (index, t, snapshotter', state_machine) \<Rightarrow>
                  (case Persister_create E db_dir of
                     Inl err \<Rightarrow> Done (Inl err)
                   | Inr persister \<Rightarrow>
                       (case load_entries (env_db E) (env_codec E) index persister of
                          None \<Rightarrow> Blocked
                        | Some (Inl err) \<Rightarrow> Done (Inl err)
                        | Some (Inr entries) \<Rightarrow>
                            (let logs = \<lparr>rl_last_included_index = index, rl_last_included_term = t, rl_entries = entries\<rparr>;
                                 transport = Transport_create config
                             in case load_hard_state (env_db E) (env_codec E) persister of
                                  (Inl err, _) \<Rightarrow> Done (Inl err)
                                | (Inr hard_state, persister') \<Rightarrow>
                                    Done (Inr (RaftNode_init snapshotter' state_machine persister' disk logs
                                      transport hard_state)))))))"

definition shutdown :: "('db, 'fs) RaftNode \<Rightarrow> ('db, 'fs) RaftNode" where
  "shutdown n = (if rn_is_shutdown n then n else n\<lparr>rn_is_shutdown := True\<rparr>)"

end
