(* ===== verification/Fs_Invariant.thy ===== *)
theory Fs_Invariant
  imports Fs_State
begin

text \<open>
  The name space is a tree. \<open>tree_wf\<close> states on the two tables, read as maps, what every
  operation keeps whatever the inode numbers are; \<open>tree_strict\<close> adds what holds as long as no
  inode number is used twice. \<open>fs_wf\<close> and \<open>fs_strict\<close> state them of a state machine.
\<close>

section \<open>Invariants\<close>

definition parent_path :: "string \<Rightarrow> string option" where
  "parent_path p = map_option (parent_of p) (find_last_of (CHR ''/'') p)"

definition tree_wf :: "(u64 \<rightharpoonup> Inode) \<Rightarrow> (string \<rightharpoonup> DirEntry) \<Rightarrow> bool" where
  "tree_wf I D \<longleftrightarrow>
     (\<forall>ino i. I ino = Some i \<longrightarrow> nd_ino i = ino) \<and>
     (\<forall>p e. D p = Some e \<longrightarrow> de_path e = p \<and> I (de_ino e) \<noteq> None) \<and>
     (\<exists>e i. D ''/'' = Some e \<and> de_is_dir e \<and> I (de_ino e) = Some i \<and> nd_is_dir i) \<and>
     (\<forall>ino i c. I ino = Some i \<longrightarrow> c \<in> set (nd_dir_entries i) \<longrightarrow>
        nd_is_dir i \<and> de_path c \<noteq> ''/'' \<and> D (de_path c) = Some c) \<and>
     (\<forall>p e. D p = Some e \<longrightarrow> p \<noteq> ''/'' \<longrightarrow>
        (\<exists>pp pe i. parent_path p = Some pp \<and> D pp = Some pe \<and> I (de_ino pe) = Some i \<and> e \<in> set (nd_dir_entries i)))"

definition tree_strict :: "(u64 \<rightharpoonup> Inode) \<Rightarrow> (string \<rightharpoonup> DirEntry) \<Rightarrow> bool" where
  "tree_strict I D \<longleftrightarrow>
     (\<forall>p e i. D p = Some e \<longrightarrow> I (de_ino e) = Some i \<longrightarrow> de_is_dir e = nd_is_dir i) \<and>
     (\<forall>p q e f. D p = Some e \<longrightarrow> D q = Some f \<longrightarrow> de_ino e = de_ino f \<longrightarrow> p = q) \<and>
     (\<forall>p e i c. D p = Some e \<longrightarrow> I (de_ino e) = Some i \<longrightarrow> c \<in> set (nd_dir_entries i) \<longrightarrow> parent_path (de_path c) = Some p)"

definition fs_wf :: "StateMachine \<Rightarrow> bool" where
  "fs_wf sm \<longleftrightarrow> um_wf (sm_inodes sm) \<and> um_wf (sm_dir_entries sm) \<and>
     tree_wf (um_find (sm_inodes sm)) (um_find (sm_dir_entries sm))"

definition ino_fresh :: "StateMachine \<Rightarrow> bool" where
  "ino_fresh sm \<longleftrightarrow> (\<forall>ino. um_contains (sm_inodes sm) ino \<longrightarrow> ino < sm_next_ino sm)"

definition fs_strict :: "StateMachine \<Rightarrow> bool" where
  "fs_strict sm \<longleftrightarrow> fs_wf sm \<and> ino_fresh sm \<and> tree_strict (um_find (sm_inodes sm)) (um_find (sm_dir_entries sm))"

lemma tree_wf_entry: "tree_wf I D \<Longrightarrow> D p = Some e \<Longrightarrow> de_path e = p \<and> I (de_ino e) \<noteq> None"
  unfolding tree_wf_def by blast

lemma tree_wf_child:
  "tree_wf I D \<Longrightarrow> I ino = Some i \<Longrightarrow> c \<in> set (nd_dir_entries i) \<Longrightarrow>
     nd_is_dir i \<and> de_path c \<noteq> ''/'' \<and> D (de_path c) = Some c"
  unfolding tree_wf_def by blast

lemma tree_wf_parent:
  assumes "tree_wf I D" and "D p = Some e" and "p \<noteq> ''/''" and "parent_path p = Some d" and "D d = Some pe"
    and "I (de_ino pe) = Some i"
  shows "e \<in> set (nd_dir_entries i)"
proof -
  from assms(1-3) obtain pp qe j where "parent_path p = Some pp" "D pp = Some qe" "I (de_ino qe) = Some j"
    "e \<in> set (nd_dir_entries j)" unfolding tree_wf_def by blast
  with assms(4-6) show ?thesis by simp
qed

lemma tree_strict_dir: "tree_strict I D \<Longrightarrow> D p = Some e \<Longrightarrow> I (de_ino e) = Some i \<Longrightarrow> de_is_dir e = nd_is_dir i"
  unfolding tree_strict_def by blast

lemma tree_strict_child:
  "tree_strict I D \<Longrightarrow> D p = Some e \<Longrightarrow> I (de_ino e) = Some i \<Longrightarrow> c \<in> set (nd_dir_entries i) \<Longrightarrow> parent_path (de_path c) = Some p"
  unfolding tree_strict_def by blast

section \<open>Paths\<close>

lemma parent_path_child:
  assumes "\<not> bad_name name" and "pp \<noteq> []"
  shows "parent_path (child_path pp name) = Some pp"
proof (cases "pp = ''/''")
  case True
  with assms find_last_of_append [of "CHR ''/''" name "[]"] show ?thesis
    by (simp add: child_path_def parent_path_def parent_of_def bad_name_def)
next
  case False
  with assms find_last_of_append [of "CHR ''/''" name pp] show ?thesis
    by (simp add: child_path_def parent_path_def parent_of_def bad_name_def)
qed

lemma tree_key_nonempty:
  assumes "tree_wf I D" and "D p = Some e"
  shows "p \<noteq> []"
  using assms by (cases "p = ''/''") (fastforce simp: tree_wf_def parent_path_def)+

section \<open>Adding one entry\<close>

text \<open>The two tables after \<open>add_child\<close>, as maps.\<close>

definition add_inode :: "u64 \<Rightarrow> Inode \<Rightarrow> DirEntry \<Rightarrow> Inode \<Rightarrow> (u64 \<rightharpoonup> Inode) \<Rightarrow> (u64 \<rightharpoonup> Inode)" where
  "add_inode pino pi e n I =
     (let I' = I(pino \<mapsto> pi\<lparr>nd_dir_entries := nd_dir_entries pi @ [e]\<rparr>) in
      if I' (nd_ino n) = None then I'(nd_ino n \<mapsto> n) else I')"

lemma add_inode_parent: "I pino = Some pi \<Longrightarrow> add_inode pino pi e n I pino = Some (pi\<lparr>nd_dir_entries := nd_dir_entries pi @ [e]\<rparr>)"
  by (simp add: add_inode_def Let_def)

lemma add_inode_new: "nd_ino n \<noteq> pino \<Longrightarrow> I (nd_ino n) = None \<Longrightarrow> add_inode pino pi e n I (nd_ino n) = Some n"
  by (simp add: add_inode_def Let_def)

lemma add_inode_other: "k \<noteq> pino \<Longrightarrow> I k = Some i \<Longrightarrow> add_inode pino pi e n I k = Some i"
  by (auto simp: add_inode_def Let_def)

lemma add_inode_cases:
  assumes "add_inode pino pi e n I k = Some i"
  obtains (parent) "k = pino" "i = pi\<lparr>nd_dir_entries := nd_dir_entries pi @ [e]\<rparr>"
    | (new) "k = nd_ino n" "I k = None" "k \<noteq> pino" "i = n"
    | (old) "I k = Some i" "k \<noteq> pino"
proof (cases "k = pino")
  case True
  with assms have "i = pi\<lparr>nd_dir_entries := nd_dir_entries pi @ [e]\<rparr>"
    by (simp add: add_inode_def Let_def split: if_splits)
  with True show ?thesis by (rule parent)
next
  case False
  show ?thesis
  proof (cases "I k")
    case None
    with False assms have "k = nd_ino n" "i = n" by (simp_all add: add_inode_def Let_def split: if_splits)
    with None False show ?thesis by (intro new)
  next
    case (Some j)
    with False assms have "i = j" by (simp add: add_inode_other)
    with Some False show ?thesis by (intro old) simp_all
  qed
qed

lemma add_inode_dom: "I pino = Some pi \<Longrightarrow> add_inode pino pi e n I k = None \<longleftrightarrow> I k = None \<and> k \<noteq> nd_ino n"
  by (auto simp: add_inode_def Let_def)

lemma add_inode_grows:
  assumes "I pino = Some pi" and "I k = Some i"
  shows "\<exists>i'. add_inode pino pi e n I k = Some i' \<and> nd_is_dir i' = nd_is_dir i \<and> set (nd_dir_entries i) \<subseteq> set (nd_dir_entries i')"
  using assms by (cases "k = pino") (auto simp: add_inode_parent add_inode_other)

lemma tree_wf_add:
  assumes wf: "tree_wf I D" and pe: "D pp = Some pe" and pi: "I (de_ino pe) = Some pi" and dir: "nd_is_dir pi"
    and fresh: "D p = None" and par: "parent_path p = Some pp"
    and e: "de_path e = p" and n: "nd_ino n = de_ino e" "nd_dir_entries n = []"
  shows "tree_wf (add_inode (de_ino pe) pi e n I) (D(p \<mapsto> e))" (is "tree_wf ?I ?D")
proof -
  from wf have inv: "\<And>ino i. I ino = Some i \<Longrightarrow> nd_ino i = ino"
    "\<And>q f. D q = Some f \<Longrightarrow> de_path f = q \<and> I (de_ino f) \<noteq> None"
    "\<And>ino i c. I ino = Some i \<Longrightarrow> c \<in> set (nd_dir_entries i) \<Longrightarrow>
       nd_is_dir i \<and> de_path c \<noteq> ''/'' \<and> D (de_path c) = Some c"
    and root: "D ''/'' \<noteq> None"
    unfolding tree_wf_def by blast+
  have 1: "nd_ino i = ino" if "?I ino = Some i" for ino i
    using that by (cases rule: add_inode_cases) (use inv(1) pi in auto)
  have 2: "de_path f = q \<and> ?I (de_ino f) \<noteq> None" if "?D q = Some f" for q f
    using that inv(2) [of q f] e n by (auto simp: add_inode_dom pi split: if_splits)
  have 3: "\<exists>f i. ?D ''/'' = Some f \<and> de_is_dir f \<and> ?I (de_ino f) = Some i \<and> nd_is_dir i"
  proof -
    from wf obtain f i where f: "D ''/'' = Some f" "de_is_dir f" "I (de_ino f) = Some i" "nd_is_dir i"
      unfolding tree_wf_def by blast
    with fresh have "?D ''/'' = Some f" by auto
    with f add_inode_grows [OF pi f(3), of e n] show ?thesis by metis
  qed
  have 4: "nd_is_dir i \<and> de_path c \<noteq> ''/'' \<and> ?D (de_path c) = Some c" if "?I ino = Some i" "c \<in> set (nd_dir_entries i)" for ino i c
    using that(1)
  proof (cases rule: add_inode_cases)
    case parent
    then show ?thesis using that(2) inv(3) [OF pi] dir e fresh root by force
  next
    case new
    then show ?thesis using that(2) n by simp
  next
    case old
    then show ?thesis using that(2) inv(3) [OF old(1)] fresh by auto
  qed
  have 5: "\<exists>qq qe i. parent_path q = Some qq \<and> ?D qq = Some qe \<and> ?I (de_ino qe) = Some i \<and> f \<in> set (nd_dir_entries i)"
    if "?D q = Some f" "q \<noteq> ''/''" for q f
  proof (cases "q = p")
    case True
    with that par pe fresh show ?thesis by (auto simp: add_inode_parent pi)
  next
    case False
    with that have "D q = Some f" by simp
    with wf that(2) obtain qq qe i where q: "parent_path q = Some qq" "D qq = Some qe" "I (de_ino qe) = Some i"
      "f \<in> set (nd_dir_entries i)" unfolding tree_wf_def by blast
    then have "?D qq = Some qe" using fresh by auto
    with q add_inode_grows [OF pi q(3), of e n] show ?thesis by blast
  qed
  show ?thesis unfolding tree_wf_def using 1 2 3 4 5 by blast
qed

lemma tree_strict_add:
  assumes wf: "tree_wf I D" and st: "tree_strict I D"
    and pe: "D pp = Some pe" and pi: "I (de_ino pe) = Some pi"
    and fresh: "D p = None" "I (de_ino e) = None" and par: "parent_path p = Some pp"
    and e: "de_path e = p" and n: "nd_ino n = de_ino e" "nd_dir_entries n = []" "nd_is_dir n = de_is_dir e"
  shows "tree_strict (add_inode (de_ino pe) pi e n I) (D(p \<mapsto> e))" (is "tree_strict ?I ?D")
proof -
  have used: "de_ino f \<noteq> de_ino e" if "D q = Some f" for q f
    using that wf fresh(2) unfolding tree_wf_def by metis
  have 1: "de_is_dir f = nd_is_dir i" if "?D q = Some f" "?I (de_ino f) = Some i" for q f i
  proof (cases "q = p")
    case True
    with that(1) have "f = e" by simp
    moreover have "?I (de_ino e) = Some n"
      using add_inode_new [of n "de_ino pe" I pi e] used [OF pe] fresh(2) n(1) by metis
    ultimately show ?thesis using that(2) n(3) by simp
  next
    case False
    then have f: "D q = Some f" using that by simp
    from that(2) show ?thesis
    proof (cases rule: add_inode_cases)
      case parent
      then show ?thesis using f st pi unfolding tree_strict_def by fastforce
    next
      case new
      then show ?thesis using used [OF f] n by simp
    next
      case old
      then show ?thesis using f st unfolding tree_strict_def by blast
    qed
  qed
  have 2: "q = r" if "?D q = Some f" "?D r = Some g" "de_ino f = de_ino g" for q r f g
    using that used st unfolding tree_strict_def by (metis fun_upd_apply option.inject)
  have 3: "parent_path (de_path c) = Some q"
    if "?D q = Some f" "?I (de_ino f) = Some i" "c \<in> set (nd_dir_entries i)" for q f i c
    using that(2)
  proof (cases rule: add_inode_cases)
    case parent
    have "?D pp = Some pe" using pe fresh by auto
    then have "q = pp" using 2 [OF that(1)] parent by simp
    then show ?thesis using that(3) parent par e st pe pi unfolding tree_strict_def by fastforce
  next
    case new
    then show ?thesis using that(3) n by simp
  next
    case old
    then have "de_ino f \<noteq> de_ino e" using fresh by auto
    then have "D q = Some f" using that(1) by (auto split: if_splits)
    then show ?thesis using old that(3) st unfolding tree_strict_def by blast
  qed
  show ?thesis unfolding tree_strict_def using 1 2 3 by blast
qed

section \<open>\<open>add_child\<close> on the state machine\<close>

lemma add_child_maps:
  assumes "um_find (sm_inodes sm) pino = Some pi" and "um_find (sm_dir_entries sm) (de_path e) = None"
  shows "um_find (sm_inodes (add_child pino pi n e sm)) = add_inode pino pi e n (um_find (sm_inodes sm))"
    and "um_find (sm_dir_entries (add_child pino pi n e sm)) = (um_find (sm_dir_entries sm))(de_path e \<mapsto> e)"
  using assms by (auto simp: add_child_def add_inode_def Let_def fun_eq_iff)

lemma add_child_frame [simp]:
  "sm_next_ino (add_child pino pi n e sm) = sm_next_ino sm"
  "sm_pending (add_child pino pi n e sm) = sm_pending sm"
  "sm_data_nodes (add_child pino pi n e sm) = sm_data_nodes sm"
  by (simp_all add: add_child_def)

lemma add_child_um_wf:
  "um_wf (sm_inodes sm) \<Longrightarrow> um_wf (sm_inodes (add_child pino pi n e sm))"
  "um_wf (sm_dir_entries sm) \<Longrightarrow> um_wf (sm_dir_entries (add_child pino pi n e sm))"
  by (simp_all add: add_child_def)

end
