(* ===== verification/Fs_Refine.thy ===== *)
theory Fs_Refine
  imports Fs_Props
begin

text \<open>
  The name space refines the abstract file system; applying a log entry has the same effect on
  leader and follower; a snapshot restores the name space; block placement.
\<close>

section \<open>Refinement\<close>

lemma abs_fs_None: "fs_wf sm \<Longrightarrow> abs_fs sm p = None \<longleftrightarrow> um_find (sm_dir_entries sm) p = None"
  by (cases "um_find (sm_dir_entries sm) p") (auto simp: abs_fs_def fs_wf_def tree_wf_def)

lemma abs_fs_next_ino [simp]: "abs_fs (sm\<lparr>sm_next_ino := x\<rparr>) = abs_fs sm"
  by (simp add: abs_fs_def fun_eq_iff)

lemma abs_fs_Dir:
  "abs_fs sm p = Some ADir \<longleftrightarrow>
     (\<exists>e i. um_find (sm_dir_entries sm) p = Some e \<and> um_find (sm_inodes sm) (de_ino e) = Some i \<and> nd_is_dir i)"
  by (auto simp: abs_fs_def anode_of_def bind_eq_Some_conv split: if_splits)

lemma abs_fs_add_child:
  assumes wf: "fs_wf sm" and pi: "um_find (sm_inodes sm) pino = Some pi"
    and fresh: "um_find (sm_inodes sm) (nd_ino n) = None" "um_find (sm_dir_entries sm) (de_path e) = None"
    and e: "nd_ino n = de_ino e"
  shows "abs_fs (add_child pino pi n e sm) = (abs_fs sm)(de_path e \<mapsto> anode_of n)"
proof
  fix p
  have I: "um_find (sm_inodes (add_child pino pi n e sm)) = add_inode pino pi e n (um_find (sm_inodes sm))"
    and D: "um_find (sm_dir_entries (add_child pino pi n e sm)) = (um_find (sm_dir_entries sm))(de_path e \<mapsto> e)"
    using add_child_maps [OF pi fresh(2)] by simp_all
  have new: "add_inode pino pi e n (um_find (sm_inodes sm)) (de_ino e) = Some n"
    using fresh(1) pi e by (metis add_inode_new option.distinct(1))
  have old: "map_option anode_of (add_inode pino pi e n (um_find (sm_inodes sm)) (de_ino f)) =
      map_option anode_of (um_find (sm_inodes sm) (de_ino f))"
    if f: "um_find (sm_dir_entries sm) p = Some f" for f
  proof -
    from wf f obtain i where i: "um_find (sm_inodes sm) (de_ino f) = Some i"
      by (fastforce simp: fs_wf_def tree_wf_def)
    then show ?thesis
      using pi by (cases "de_ino f = pino") (simp_all add: add_inode_parent add_inode_other anode_of_def)
  qed
  show "abs_fs (add_child pino pi n e sm) p = ((abs_fs sm)(de_path e \<mapsto> anode_of n)) p"
    unfolding abs_fs_def I D using new old
    by (cases "p = de_path e"; cases "um_find (sm_dir_entries sm) p") simp_all
qed

lemma afs_mkdir_iff:
  assumes "fs_wf sm"
  shows "afs_mkdir (mdq_parent_path q) (mdq_name q) (abs_fs sm) \<noteq> None \<longleftrightarrow> (\<exists>pe pi. mkdir_ok q pe pi sm)"
  by (auto simp: afs_mkdir_def mkdir_ok_def abs_fs_None [OF assms] abs_fs_Dir)

section \<open>Applying a log entry\<close>

text \<open>The replicated part of the state: everything but the pending client requests.\<close>

definition replica :: "StateMachine \<Rightarrow> StateMachine" where
  "replica sm = sm\<lparr>sm_pending := []\<rparr>"

lemma mkdir_pending: "mkdir q (sm\<lparr>sm_pending := p\<rparr>) = (mkdir q sm)\<lparr>sm_pending := p\<rparr>"
  by (simp add: mkdir_def add_child_def Let_def split: option.splits)

lemma upload_pending: "upload_file now q (sm\<lparr>sm_pending := p\<rparr>) = (upload_file now q sm)\<lparr>sm_pending := p\<rparr>"
  by (simp add: upload_file_def add_child_def Let_def split: option.splits)

lemma apply_entry_replica:
  "replica (fst (sm_apply_entry C now e sm)) = replica (sm_apply_entry_no_response C now e sm)"
proof -
  obtain pr pend where i: "um_index PendingRequest_default (le_index e) (sm_pending sm) = (pr, pend)"
    by fastforce
  show ?thesis
  proof (cases "par_command C (le_command e)")
    case None
    with i show ?thesis by (simp add: sm_apply_entry_def sm_apply_entry_no_response_def replica_def)
  next
    case (Some c)
    with i show ?thesis
      by (cases c) (simp_all add: sm_apply_entry_def sm_apply_entry_no_response_def replica_def Let_def
          split_beta mkdir_response_state upload_response_state mkdir_pending upload_pending)
  qed
qed

lemma replica_no_response:
  "replica (sm_apply_entry_no_response C now e sm) = sm_apply_entry_no_response C now e (replica sm)"
  by (simp add: sm_apply_entry_no_response_def replica_def mkdir_pending upload_pending
      split: option.splits EntryCommand.splits)

lemma fs_wf_replica [simp]: "fs_wf (replica sm) = fs_wf sm"
  by (simp add: fs_wf_def replica_def)

lemma apply_no_response_fs_wf: "fs_wf sm \<Longrightarrow> fs_wf (sm_apply_entry_no_response C now e sm)"
  by (simp add: sm_apply_entry_no_response_def mkdir_fs_wf upload_fs_wf split: option.splits EntryCommand.splits)

lemma apply_entry_fs_wf: "fs_wf sm \<Longrightarrow> fs_wf (fst (sm_apply_entry C now e sm))"
  by (metis apply_entry_replica apply_no_response_fs_wf fs_wf_replica)

text \<open>A client whose coroutine waits at the entry's position is resumed, once, with the answer.\<close>

lemma apply_entry_resumes:
  assumes "um_find (sm_pending sm) (le_index e) = Some pr" and "pr_handle pr = Some h"
  shows "\<exists>r. snd (sm_apply_entry C now e sm) = [(h, r)]"
  using assms
  by (auto simp: sm_apply_entry_def um_index_def resume_def Let_def split_beta split: option.splits EntryCommand.splits)

section \<open>Snapshots\<close>

lemma StateMachine_create_wf: "fs_wf (StateMachine_create config)"
  by (auto simp: fs_wf_def StateMachine_create_def Let_def tree_wf_def root_inode_def root_entry_def
      Inode_default_def DirEntry_default_def split: if_splits)

lemma max_ino_bound_aux: "m \<le> fold (\<lambda>i m. max m (nd_ino i)) is m \<and> (\<forall>i \<in> set is. nd_ino i \<le> fold (\<lambda>i m. max m (nd_ino i)) is m)"
proof (induction "is" arbitrary: m)
  case Nil
  then show ?case by simp
next
  case (Cons i "is")
  from Cons.IH [of "max m (nd_ino i)"] show ?case by (auto intro: order_trans [rotated])
qed

lemma max_ino_bound: "um_find inodes k = Some i \<Longrightarrow> nd_ino i \<le> max_ino inodes"
  using max_ino_bound_aux [of 0 "um_values inodes"] um_find_Some_value [of inodes k i] by (simp add: max_ino_def)

lemma load_take_snapshot_maps:
  assumes wf: "fs_wf sm"
  shows "um_find (sm_inodes (StateMachine_load_snapshot (take_snapshot sm Snapshot_default) sm')) = um_find (sm_inodes sm)"
    and "um_find (sm_dir_entries (StateMachine_load_snapshot (take_snapshot sm Snapshot_default) sm')) = um_find (sm_dir_entries sm)"
    and "um_wf (sm_inodes (StateMachine_load_snapshot (take_snapshot sm Snapshot_default) sm'))"
    and "um_wf (sm_dir_entries (StateMachine_load_snapshot (take_snapshot sm Snapshot_default) sm'))"
proof -
  let ?is = "fold (\<lambda>i. um_emplace (nd_ino i) i) (um_values (sm_inodes sm)) []"
  let ?es = "fold (\<lambda>e. um_emplace (de_path e) e) (um_values (sm_dir_entries sm)) []"
  have "um_find ?is = um_find (sm_inodes sm)"
    unfolding um_values_def using wf by (intro um.rebuild) (auto simp: fs_wf_def tree_wf_def)
  moreover have es: "um_find ?es = um_find (sm_dir_entries sm)"
    unfolding um_values_def using wf by (intro um.rebuild) (auto simp: fs_wf_def tree_wf_def)
  moreover have "?es \<noteq> []"
  proof
    assume "?es = []"
    with es have "um_find (sm_dir_entries sm) ''/'' = None" by (metis um.find_clear)
    with wf show False by (auto simp: fs_wf_def tree_wf_def)
  qed
  moreover have "um_wf ?is" "um_wf ?es" by (intro um.inv_emplace_all um.inv_clear)+
  ultimately show "um_find (sm_inodes (StateMachine_load_snapshot (take_snapshot sm Snapshot_default) sm')) = um_find (sm_inodes sm)"
    "um_find (sm_dir_entries (StateMachine_load_snapshot (take_snapshot sm Snapshot_default) sm')) = um_find (sm_dir_entries sm)"
    "um_wf (sm_inodes (StateMachine_load_snapshot (take_snapshot sm Snapshot_default) sm'))"
    "um_wf (sm_dir_entries (StateMachine_load_snapshot (take_snapshot sm Snapshot_default) sm'))"
    by (simp_all add: StateMachine_load_snapshot_def take_snapshot_def Snapshot_default_def Let_def)
qed

lemma load_snapshot_next_ino:
  "sm_next_ino (StateMachine_load_snapshot s sm) = max_ino (sm_inodes (StateMachine_load_snapshot s sm)) + 1"
  by (simp add: StateMachine_load_snapshot_def Let_def split: prod.splits)

lemma load_take_snapshot_ino_fresh:
  assumes wf: "fs_wf sm" and max: "max_ino (sm_inodes (StateMachine_load_snapshot (take_snapshot sm Snapshot_default) sm')) \<noteq> - 1"
  shows "ino_fresh (StateMachine_load_snapshot (take_snapshot sm Snapshot_default) sm')" (is "ino_fresh ?s")
proof -
  have "k < sm_next_ino ?s" if "um_find (sm_inodes ?s) k = Some i" for k i
  proof -
    have "nd_ino i = k" using that wf by (simp add: load_take_snapshot_maps(1) [OF wf] fs_wf_def tree_wf_def)
    with max_ino_bound [OF that] max show ?thesis
      by (simp add: load_snapshot_next_ino less_succ_iff)
  qed
  then show ?thesis by (auto simp: ino_fresh_def um_contains_def)
qed

section \<open>Block placement\<close>

lemma replica_ids_two: "replica_ids nodes i 2 = [ni_id (nodes ! i), ni_id (nodes ! ((i + 1) mod length nodes))]"
  by (simp add: numeral_2_eq_2)

lemma place_block_replicas:
  assumes "2 \<le> length nodes" and "distinct (map ni_id nodes)" and "bi_data_node_id b = []"
  shows "length (bi_data_node_id (place_block hash nodes ino b)) = 2 \<and>
    distinct (bi_data_node_id (place_block hash nodes ino b)) \<and>
    set (bi_data_node_id (place_block hash nodes ino b)) \<subseteq> ni_id ` set nodes"
proof -
  define i where "i = unat (hash (push_bit 32 ino OR bi_id b)) mod length nodes"
  define j where "j = Suc i mod length nodes"
  have "0 < length nodes" using assms(1) by linarith
  then have ij: "i < length nodes" "j < length nodes" by (simp_all add: i_def j_def)
  have "i \<noteq> j"
    using ij(1) assms(1) by (cases "Suc i = length nodes") (auto simp: j_def)
  then have "ni_id (nodes ! i) \<noteq> ni_id (nodes ! j)"
    using assms(2) ij nth_eq_iff_index_eq [of "map ni_id nodes" i j] by simp
  then show ?thesis
    using ij assms(3)
    by (simp add: place_block_def Let_def REPLICA_NODE_SIZE_def replica_ids_two i_def [symmetric] j_def [symmetric])
qed

section \<open>A fresh name space\<close>

lemma StateMachine_create_strict: "fs_strict (StateMachine_create config)"
proof -
  have "sm_next_ino (StateMachine_create config) = 1"
    by (simp add: StateMachine_create_def Let_def max_ino_def um_emplace_def um_contains_def um_find_def um_values_def
        root_inode_def Inode_default_def)
  then show ?thesis
    unfolding fs_strict_def using StateMachine_create_wf
    by (auto simp: ino_fresh_def tree_strict_def StateMachine_create_def Let_def root_inode_def root_entry_def
        Inode_default_def DirEntry_default_def um_contains_def split: if_splits)
qed

lemma abs_fs_create: "abs_fs (StateMachine_create config) = [''/'' \<mapsto> ADir]"
  by (auto simp: fun_eq_iff abs_fs_def StateMachine_create_def Let_def root_inode_def root_entry_def
      Inode_default_def DirEntry_default_def anode_of_def)

end
