(* ===== verification/Raft_Step.thy ===== *)
theory Raft_Step
  imports Raft_Handlers Fs_Refine
begin

text \<open>
  The node as a transition system: every message, timer and client request is an event, and
  \<open>node_step\<close> dispatches it to its handler. The contract all handlers share (terms never go
  back, the term on disk is the term in memory, a vote given in a term stays given until the
  node leads) is the interpretation \<open>node\<close> of \<open>transition_system\<close> at the end.
\<close>

datatype event =
    EvElection u64 u64
  | EvElectionEnd u64
  | EvHeartbeat
  | EvVoteRequest u64 RequestVoteRequest
  | EvVoteResponse u64 RequestVoteResponse
  | EvAppendRequest u64 AppendEntriesRequest
  | EvAppendResponse u64 AppendEntriesResponse
  | EvInstallRequest u64 InstallSnapshotRequest
  | EvInstallResponse u64 InstallSnapshotResponse
  | EvMakeDir u64 nat MakeDirRequest
  | EvPrepareUpload PrepareUploadFileRequest
  | EvUpload nat UploadFileRequest
  | EvShutdown

fun node_step :: "('db, 'fs, 'tok) env \<Rightarrow> event \<Rightarrow> ('db, 'fs) RaftNode \<Rightarrow> ('db, 'fs) RaftNode outcome" where
  "node_step E (EvElection now timeout) n = map_outcome fst (election_loop_body E now timeout n)"
| "node_step E (EvElectionEnd now) n = Done (election_loop_end now n)"
| "node_step E EvHeartbeat n = map_outcome fst (heartbeat_loop_body E n)"
| "node_step E (EvVoteRequest now q) n = map_outcome fst (handle_request_vote_request E now q n)"
| "node_step E (EvVoteResponse now r) n = handle_request_vote_response E now r n"
| "node_step E (EvAppendRequest now q) n = map_outcome fst (handle_append_entries_request E now q n)"
| "node_step E (EvAppendResponse now r) n = map_outcome fst (handle_append_entries_response E now r n)"
| "node_step E (EvInstallRequest now q) n = map_outcome fst (handle_install_snapshot_request E now q n)"
| "node_step E (EvInstallResponse now r) n = map_outcome fst (handle_install_snapshot_response E now r n)"
| "node_step E (EvMakeDir now h q) n = Done (fst (handle_make_dir_request E now h q n))"
| "node_step E (EvPrepareUpload q) n = map_outcome fst (handle_prepare_upload_file_request E q n)"
| "node_step E (EvUpload h q) n = Done (fst (handle_upload_file_request E h q n))"
| "node_step E EvShutdown n = Done (shutdown n)"

section \<open>The contract\<close>

text \<open>What the code relies on in RocksDB and in the protocol buffer runtime.\<close>

definition env_ok :: "('db, 'fs, 'tok) env \<Rightarrow> ('db \<Rightarrow> string \<rightharpoonup> string) \<Rightarrow> bool" where
  "env_ok E view \<longleftrightarrow> rocksdb_spec (env_db E) view \<and>
     (\<forall>hs. par_hard_state (env_codec E) (ser_hard_state (env_codec E) hs) = Some hs) \<and>
     (\<forall>e. par_entry (env_codec E) (ser_entry (env_codec E) e) = Some e)"

abbreviation current_term :: "('db, 'fs) RaftNode \<Rightarrow> u64" where
  "current_term n \<equiv> hs_current_term (rn_hard_state n)"

abbreviation voted_for :: "('db, 'fs) RaftNode \<Rightarrow> u64 option" where
  "voted_for n \<equiv> hs_voted_for (rn_hard_state n)"

abbreviation on_disk :: "('db, 'fs, 'tok) env \<Rightarrow> ('db \<Rightarrow> string \<rightharpoonup> string) \<Rightarrow> 'db \<Rightarrow> stored" where
  "on_disk E view db \<equiv> stored_of (env_codec E) (view db)"

definition durable_term :: "('db, 'fs, 'tok) env \<Rightarrow> ('db \<Rightarrow> string \<rightharpoonup> string) \<Rightarrow> ('db, 'fs) RaftNode \<Rightarrow> bool" where
  "durable_term E view n \<longleftrightarrow>
     map_option hs_current_term (st_hard (on_disk E view (rn_persister n))) = Some (current_term n)"

definition node_inv :: "('db, 'fs, 'tok) env \<Rightarrow> ('db \<Rightarrow> string \<rightharpoonup> string) \<Rightarrow> ('db, 'fs) RaftNode \<Rightarrow> bool" where
  "node_inv E view n \<longleftrightarrow> env_ok E view \<and> durable_term E view n \<and> um_wf (rn_next_index n) \<and> um_wf (rn_match_index n)"

definition term_le :: "('db, 'fs) RaftNode \<Rightarrow> ('db, 'fs) RaftNode \<Rightarrow> bool" where
  "term_le n n' \<longleftrightarrow> rn_transport n' = rn_transport n \<and>
     (current_term n < current_term n' \<or>
      current_term n = current_term n' \<and>
      (rn_role n = kLeader \<longrightarrow> rn_role n' = kLeader) \<and>
      (\<forall>c. voted_for n = Some c \<longrightarrow> voted_for n' = Some c \<or> rn_role n' = kLeader))"

definition term_guard :: "('db, 'fs) RaftNode \<Rightarrow> bool" where
  "term_guard n \<longleftrightarrow> current_term n \<noteq> - 1"

text \<open>A transition that satisfies both halves of the contract.\<close>

definition keeps :: "('db, 'fs, 'tok) env \<Rightarrow> ('db \<Rightarrow> string \<rightharpoonup> string) \<Rightarrow> ('db, 'fs) RaftNode \<Rightarrow> ('db, 'fs) RaftNode \<Rightarrow> bool" where
  "keeps E view n n' \<longleftrightarrow> (node_inv E view n \<longrightarrow> node_inv E view n' \<and> term_le n n')"

lemma term_le_refl: "term_le n n"
  by (simp add: term_le_def)

lemma term_le_trans: "term_le n n' \<Longrightarrow> term_le n' n'' \<Longrightarrow> term_le n n''"
  unfolding term_le_def by auto

lemma keeps_refl: "keeps E view n n"
  by (simp add: keeps_def term_le_refl)

lemma keeps_trans: "keeps E view n n' \<Longrightarrow> keeps E view n' n'' \<Longrightarrow> keeps E view n n''"
  unfolding keeps_def by (auto intro: term_le_trans)

text \<open>The parts of the state that the contract reads.\<close>

definition core :: "('db, 'fs) RaftNode \<Rightarrow> HardState \<times> 'db \<times> Role \<times> Transport \<times> (u64, u64) umap \<times> (u64, u64) umap" where
  "core n = (rn_hard_state n, rn_persister n, rn_role n, rn_transport n, rn_next_index n, rn_match_index n)"

lemma keeps_core: "core n' = core n \<Longrightarrow> keeps E view n n'"
  by (simp add: core_def keeps_def node_inv_def durable_term_def term_le_def)

section \<open>The building blocks\<close>

lemma persist_hard_state_cases:
  assumes "persist_hard_state E n = Done n'"
  obtains db where "n' = n\<lparr>rn_persister := db\<rparr>"
    and "save_hard_state (env_db E) (env_codec E) (rn_hard_state n) (rn_persister n) = Done db"
  using assms by (auto simp: persist_hard_state_def co_await_Done_iff)

lemma persist_durable:
  assumes "env_ok E view" and "persist_hard_state E n = Done n'"
  shows "durable_term E view n'"
  using assms(2)
proof (cases rule: persist_hard_state_cases)
  case (1 db)
  with assms(1) stored_save_hard_state [of "env_db E" view "env_codec E"] show ?thesis
    by (simp add: durable_term_def env_ok_def)
qed

lemma keeps_persist:
  assumes "persist_hard_state E m = Done n'" and "env_ok E view \<Longrightarrow> term_le n m"
    and "um_wf (rn_next_index n) \<Longrightarrow> um_wf (rn_next_index m)" "um_wf (rn_match_index n) \<Longrightarrow> um_wf (rn_match_index m)"
  shows "keeps E view n n'"
proof (unfold keeps_def, intro impI)
  assume inv: "node_inv E view n"
  then have "durable_term E view n'" using persist_durable [OF _ assms(1)] by (simp add: node_inv_def)
  with assms inv show "node_inv E view n' \<and> term_le n n'"
    by (auto simp: node_inv_def term_le_def elim!: persist_hard_state_cases)
qed

lemma keeps_increase_term:
  assumes "increase_term_to E now t n = Done n'" and "current_term n < t"
  shows "keeps E view n n'"
  using assms unfolding increase_term_to_def by (elim keeps_persist) (simp_all add: term_le_def)

lemma um_wf_fold_assign: "um_wf m \<Longrightarrow> um_wf (fold (\<lambda>i. um_assign i v) ids m)"
  by (induction ids arbitrary: m) simp_all

lemma keeps_become_leader:
  assumes "become_leader E n = Done n'"
  shows "keeps E view n n'"
proof -
  from assms obtain n1 where p: "persist_hard_state E
      (n\<lparr>rn_votes := 0, rn_hard_state := (rn_hard_state n)\<lparr>hs_voted_for := None\<rparr>, rn_role := kLeader\<rparr>) = Done n1"
    and n': "n' = reset_peers n1"
    by (auto simp: become_leader_def co_await_Done_iff)
  from p have "keeps E view n n1" by (rule keeps_persist) (simp_all add: term_le_def)
  moreover from n' have "keeps E view n1 n'"
    by (auto simp: keeps_def node_inv_def durable_term_def term_le_def um_wf_fold_assign reset_peers_def Let_def)
  ultimately show ?thesis by (rule keeps_trans)
qed

lemma apply_loop_core: "apply_loop E now c n = Done (n', rs) \<Longrightarrow> core n' = core n \<and> rn_commit_index n' = rn_commit_index n"
proof (induction E now c n arbitrary: n' rs rule: apply_loop.induct)
  case (1 E now c n)
  show ?case
  proof (cases "rn_last_applied n < c")
    case False
    with "1.prems" show ?thesis by (simp add: apply_loop.simps)
  next
    case True
    with "1.prems" obtain n1 rs1 rs2 where one: "apply_one E now n = Done (n1, rs1)"
      and rest: "apply_loop E now c n1 = Done (n', rs2)"
      by (subst (asm) apply_loop.simps) (auto split: outcome.splits)
    from one have "core n1 = core n \<and> rn_commit_index n1 = rn_commit_index n"
      by (cases rule: apply_one_cases) (simp add: core_def)
    with "1.IH" [OF True one refl rest] show ?thesis by simp
  qed
qed

lemma keeps_apply_entry: "apply_entry E now n = Done (n', rs) \<Longrightarrow> keeps E view n n'"
  unfolding apply_entry_def by (intro keeps_core) (simp add: apply_loop_core)

lemma delete_conflicts_hard:
  assumes "env_ok E view" and "delete_conflicts E es db logs = Done (db', logs')"
  shows "st_hard (on_disk E view db') = st_hard (on_disk E view db)"
  using assms(2)
proof (induction es)
  case (Cons e es)
  from assms(1) have "rocksdb_spec (env_db E) view" by (simp add: env_ok_def)
  note cut = stored_truncate_entries [OF this, where C = "env_codec E"]
  from Cons show ?case
    by (auto simp: Let_def co_await_Done_iff cut split: if_splits)
qed simp

lemma keeps_persister:
  assumes "n' = n\<lparr>rn_persister := db, rn_logs := logs\<rparr>"
    and "env_ok E view \<Longrightarrow> st_hard (on_disk E view db) = st_hard (on_disk E view (rn_persister n))"
  shows "keeps E view n n'"
  using assms by (auto simp: keeps_def node_inv_def durable_term_def term_le_def)

lemma keeps_store_entries:
  assumes "store_entries E es n = Done n'"
  shows "keeps E view n n'"
proof (cases "es = []")
  case True
  with assms show ?thesis by (simp add: store_entries_def keeps_refl)
next
  case False
  with assms obtain db logs db' where d: "delete_conflicts E es (rn_persister n) (rn_logs n) = Done (db, logs)"
    and s: "save_entries (env_db E) (env_codec E) es db = Done db'"
    and n': "n' = n\<lparr>rn_persister := db', rn_logs := append_entries es logs\<rparr>"
    by (auto simp: store_entries_def co_await_Done_iff)
  from n' show ?thesis
  proof (rule keeps_persister)
    assume ok: "env_ok E view"
    then show "st_hard (on_disk E view db') = st_hard (on_disk E view (rn_persister n))"
      using delete_conflicts_hard [OF ok d] stored_save_entries [of "env_db E" view es "env_codec E" db db'] s
      by (simp add: env_ok_def)
  qed
qed

section \<open>The handlers\<close>

lemma keeps_rise:
  assumes "(if t > current_term n then increase_term_to E now t n else Done n) = Done n1"
  shows "keeps E view n n1"
  using assms by (auto simp: keeps_refl keeps_increase_term split: if_splits)

lemma term_rise: "w \<noteq> - 1 \<Longrightarrow> w < w + 1" for w :: u64
  by (simp add: less_succ_iff)

lemma keeps_election:
  assumes "election_loop_body E now timeout n = Done (n', q)" and "term_guard n"
  shows "keeps E view n n'"
proof (cases "now - rn_last_reset_time n < timeout \<or> rn_role n = kLeader")
  case True
  with assms(1) show ?thesis by (simp add: election_loop_body_def Let_def keeps_refl)
next
  case False
  define m where "m = n\<lparr>rn_votes := 0, rn_hard_state := (rn_hard_state n)\<lparr>hs_current_term := current_term n + 1,
    hs_voted_for := Some (member_id (rn_transport n))\<rparr>, rn_role := kCandidate\<rparr>"
  from False assms(1) obtain n2 where p: "persist_hard_state E m = Done n2"
    and l: "(if rn_votes n2 + 1 > cluster_size (rn_transport n2) div 2 \<and> rn_role n2 = kCandidate
             then become_leader E (n2\<lparr>rn_votes := rn_votes n2 + 1\<rparr>) else Done (n2\<lparr>rn_votes := rn_votes n2 + 1\<rparr>)) = Done n'"
    by (auto simp: election_loop_body_def Let_def co_await_Done_iff m_def)
  from p have "keeps E view n n2"
    by (rule keeps_persist) (use assms(2) in \<open>simp_all add: m_def term_le_def term_rise term_guard_def\<close>)
  moreover have "keeps E view n2 (n2\<lparr>rn_votes := rn_votes n2 + 1\<rparr>)" by (rule keeps_core) (simp add: core_def)
  moreover from l have "keeps E view (n2\<lparr>rn_votes := rn_votes n2 + 1\<rparr>) n'"
    by (auto simp: keeps_refl keeps_become_leader split: if_splits)
  ultimately show ?thesis by (blast intro: keeps_trans)
qed

lemma keeps_vote:
  assumes "voted_for n = None \<or> voted_for n = Some c"
  shows "keeps E view n (n\<lparr>rn_hard_state := (rn_hard_state n)\<lparr>hs_voted_for := Some c\<rparr>, rn_last_reset_time := now\<rparr>)"
  using assms by (auto simp: keeps_def node_inv_def durable_term_def term_le_def)

lemma keeps_vote_request:
  assumes "handle_request_vote_request E now q n = Done (n', r)"
  shows "keeps E view n n'"
proof (cases "rvq_term q < current_term n")
  case True
  with assms show ?thesis by (simp add: handle_request_vote_request_def Let_def keeps_refl)
next
  case False
  with assms obtain n1 where i: "(if rvq_term q > current_term n then increase_term_to E now (rvq_term q) n else Done n) = Done n1"
    and n': "n' = n1 \<or> (voted_for n1 = None \<or> voted_for n1 = Some (rvq_candidate_id q)) \<and>
      n' = n1\<lparr>rn_hard_state := (rn_hard_state n1)\<lparr>hs_voted_for := Some (rvq_candidate_id q)\<rparr>, rn_last_reset_time := now\<rparr>"
    by (auto simp: handle_request_vote_request_def Let_def co_await_Done_iff split: if_splits)
  from n' have "keeps E view n1 n'" by (auto intro: keeps_refl keeps_vote)
  with keeps_rise [OF i] show ?thesis by (rule keeps_trans)
qed

lemma keeps_vote_response:
  assumes "handle_request_vote_response E now r n = Done n'"
  shows "keeps E view n n'"
proof -
  have "keeps E view n (n\<lparr>rn_votes := rn_votes n + 1\<rparr>)" by (rule keeps_core) (simp add: core_def)
  with assms show ?thesis
    by (auto simp: handle_request_vote_response_def Let_def keeps_refl keeps_increase_term
        intro: keeps_trans keeps_become_leader split: if_splits)
qed

lemma keeps_append_request:
  assumes "handle_append_entries_request E now q n = Done (n', r, rs)"
  shows "keeps E view n n'"
proof (cases "aeq_term q < current_term n")
  case True
  with assms show ?thesis by (simp add: handle_append_entries_request_def Let_def keeps_refl)
next
  case False
  define m where "m n1 = n1\<lparr>rn_leader_id := Some (aeq_leader_id q), rn_last_reset_time := now\<rparr>" for n1 :: "('a, 'b) RaftNode"
  from False assms obtain n1 where i: "(if aeq_term q > current_term n then increase_term_to E now (aeq_term q) n else Done n) = Done n1"
    and n': "n' = m n1 \<or> (\<exists>n3. store_entries E (aeq_entries q) (m n1) = Done n3 \<and>
       (n' = n3 \<or> (\<exists>c rs. apply_entry E now (n3\<lparr>rn_commit_index := c\<rparr>) = Done (n', rs))))"
    by (auto simp: handle_append_entries_request_def Let_def co_await_Done_iff m_def split: if_splits)
  have "keeps E view n1 (m n1)" by (rule keeps_core) (simp add: core_def m_def)
  moreover have "keeps E view (m n1) n'"
    using n'
  proof (elim disjE exE conjE)
    fix n3 c rs
    assume "store_entries E (aeq_entries q) (m n1) = Done n3" and a: "apply_entry E now (n3\<lparr>rn_commit_index := c\<rparr>) = Done (n', rs)"
    then have "keeps E view (m n1) n3" by (intro keeps_store_entries)
    moreover have "keeps E view n3 (n3\<lparr>rn_commit_index := c\<rparr>)" by (rule keeps_core) (simp add: core_def)
    ultimately show ?thesis using keeps_apply_entry [OF a] by (blast intro: keeps_trans)
  qed (auto intro: keeps_refl keeps_store_entries)
  ultimately show ?thesis using keeps_rise [OF i] by (blast intro: keeps_trans)
qed

lemma keeps_append_response:
  assumes "handle_append_entries_response E now r n = Done (n', rs)"
  shows "keeps E view n n'"
proof -
  define m where "m = n\<lparr>rn_match_index := um_assign (aer_id r) (aer_last_log_index r) (rn_match_index n),
    rn_next_index := um_assign (aer_id r) (aer_last_log_index r + 1) (rn_next_index n)\<rparr>"
  have m: "keeps E view n m" "keeps E view n (m\<lparr>rn_commit_index := c\<rparr>)" for c
    by (simp_all add: keeps_def node_inv_def durable_term_def term_le_def m_def)
  have c: "keeps E view n (n\<lparr>rn_next_index := um_assign i v (rn_next_index n)\<rparr>)" for i v
    by (simp add: keeps_def node_inv_def durable_term_def term_le_def)
  from assms have "n' = n \<or> current_term n < aer_term r \<and> increase_term_to E now (aer_term r) n = Done n' \<or>
      (\<exists>i v. n' = n\<lparr>rn_next_index := um_assign i v (rn_next_index n)\<rparr>) \<or> n' = m \<or>
      (\<exists>c. apply_entry E now (m\<lparr>rn_commit_index := c\<rparr>) = Done (n', rs))"
    by (auto simp: handle_append_entries_response_def Let_def co_await_Done_iff m_def
        split: if_splits option.splits)
  then show ?thesis
    using m(1) c keeps_trans [OF m(2) keeps_apply_entry] by (auto intro: keeps_refl keeps_increase_term)
qed

text \<open>
  \<open>offset_at\<close> leaves the snapshotter's mutex locked, so the call of \<open>load_snapshot_data\<close> that
  follows it never returns.
\<close>

lemma send_snapshot_eq:
  "send_snapshot E m n =
     (if rn_snapshot_data n = [] then Done (n, [])
      else co_await (offset_at m (rn_snapshotter n))
        (\<lambda>(offset, sp). if offset \<noteq> 0 then Done (n\<lparr>rn_snapshotter := sp\<rparr>, []) else Blocked))"
  by (cases "offset_at m (rn_snapshotter n)")
    (auto simp: send_snapshot_def Let_def locked_blocks(3) dest: offset_at_locks)

lemma send_snapshot_core: "send_snapshot E m n = Done (n', out) \<Longrightarrow> core n' = core n \<and> out = []"
  by (auto simp: send_snapshot_eq co_await_Done_iff core_def split: if_splits)

lemma keeps_install_request:
  assumes "handle_install_snapshot_request E now q n = Done (n', r)"
  shows "keeps E view n n'"
proof (cases "isq_term q < current_term n")
  case True
  with assms show ?thesis by (simp add: handle_install_snapshot_request_def Let_def keeps_refl)
next
  case False
  with assms obtain n1 where i: "(if isq_term q > current_term n then increase_term_to E now (isq_term q) n else Done n) = Done n1"
    and n': "core n' = core n1"
    by (auto simp: handle_install_snapshot_request_def Let_def co_await_Done_iff core_def split: if_splits option.splits)
  show ?thesis by (rule keeps_trans [OF keeps_rise [OF i] keeps_core [OF n']])
qed

lemma keeps_install_response:
  assumes "handle_install_snapshot_response E now r n = Done (n', out)"
  shows "keeps E view n n'"
  using assms
  by (auto simp: handle_install_snapshot_response_def Let_def co_await_Done_iff keeps_increase_term
      intro: keeps_core dest!: send_snapshot_core split: if_splits)

lemma heartbeat_member_core: "heartbeat_member E p (n, out) = Done (n', out') \<Longrightarrow> core n' = core n"
  by (auto simp: heartbeat_member_def Let_def co_await_Done_iff dest: send_snapshot_core
      split: prod.splits if_splits)

lemma heartbeat_members_core: "heartbeat_members E ps s = Done s' \<Longrightarrow> core (fst s') = core (fst s)"
proof (induction ps arbitrary: s)
  case (Cons p ps)
  then show ?case
    by (cases s) (auto simp: co_await_Done_iff dest: heartbeat_member_core)
qed simp

lemma keeps_heartbeat:
  assumes "heartbeat_loop_body E n = Done (n', out)"
  shows "keeps E view n n'"
proof (rule keeps_core)
  show "core n' = core n"
    using assms heartbeat_members_core [of E "rn_next_index n" "(n, \<lparr>ms_append = [], ms_install = []\<rparr>)"]
    by (fastforce simp: heartbeat_loop_body_def co_await_Done_iff split: if_splits)
qed

lemma client_core:
  "core (fst (handle_make_dir_request E now h q n)) = core n"
  "core (fst (handle_upload_file_request E h u n)) = core n"
  by (simp_all add: handle_make_dir_request_def handle_upload_file_request_def submit_def core_def Let_def)

lemma prepare_upload_core:
  "handle_prepare_upload_file_request E q n = Done (n', r) \<Longrightarrow> core n' = core n"
  by (auto simp: handle_prepare_upload_file_request_def co_await_Done_iff core_def split: if_splits)

lemma map_fst_Done: "map_outcome fst m = Done n \<longleftrightarrow> (\<exists>r. m = Done (n, r))"
  by (cases m) auto

lemmas keeps_handlers =
  keeps_election keeps_heartbeat keeps_vote_request keeps_vote_response keeps_append_request
  keeps_append_response keeps_install_request keeps_install_response

lemma keeps_node_step:
  assumes "node_step E ev n = Done n'" and "term_guard n"
  shows "keeps E view n n'"
proof (cases ev)
  case (EvElectionEnd now)
  with assms show ?thesis by (auto intro: keeps_core simp: core_def election_loop_end_def)
next
  case EvShutdown
  with assms show ?thesis by (auto intro: keeps_core simp: core_def shutdown_def)
next
  case (EvMakeDir now h q)
  with assms show ?thesis by (auto intro: keeps_core simp: client_core)
next
  case (EvUpload h q)
  with assms show ?thesis by (auto intro: keeps_core simp: client_core)
next
  case (EvPrepareUpload q)
  with assms show ?thesis by (auto intro: keeps_core dest: prepare_upload_core simp: map_fst_Done)
qed (use assms in \<open>auto simp: map_fst_Done intro: keeps_handlers\<close>)

interpretation node: transition_system "node_step E" term_guard "node_inv E view" term_le
  for E :: "('db, 'fs, 'tok) env" and view
proof (unfold_locales, goal_cases)
  case (1 s e s')
  then show ?case using keeps_node_step [of E e s s' view] by (simp add: keeps_def)
next
  case (2 s e s')
  then show ?case using keeps_node_step [of E e s s' view] by (simp add: keeps_def)
qed (blast intro: term_le_refl term_le_trans)+

end
