(* ===== verification/Raft_Append.thy ===== *)
theory Raft_Append
  imports Raft_Step
begin

text \<open>
  Storing the entries of an \<open>AppendEntries\<close> request: what the conflict loop cuts, what the log
  and the database hold afterwards, and exactly when the log stays well-formed.
\<close>

section \<open>The position where the log is cut\<close>

text \<open>How many local entries survive the loop over the new entries.\<close>

fun cut_point :: "RaftLog \<Rightarrow> LogEntry list \<Rightarrow> nat" where
  "cut_point l [] = length (rl_entries l)"
| "cut_point l (e # es) =
     (if le_index e > last_log_index l then length (rl_entries l)
      else if get_term l (le_index e) \<noteq> Some (le_term e) then arr_idx l (le_index e)
      else cut_point l es)"

definition writes_ok :: "'db rocksdb \<Rightarrow> bool" where
  "writes_ok R \<longleftrightarrow> (\<forall>db b. fst (DB_Write R db b) = StOk) \<and> (\<forall>db k v. fst (DB_Put R db k v) = StOk)"

lemma truncate_entries_Done:
  "writes_ok R \<Longrightarrow> e \<noteq> - 1 \<Longrightarrow> \<exists>db'. truncate_entries R s e db = Done db'"
  by (auto simp: truncate_entries_def writes_ok_def engine_batch_write_def split: prod.splits) (metis fst_conv)

lemma save_entries_Done: "writes_ok R \<Longrightarrow> \<exists>db'. save_entries R C es db = Done db'"
  by (auto simp: save_entries_def writes_ok_def engine_batch_write_def Let_def split: prod.splits) (metis fst_conv)

lemma save_hard_state_Done: "writes_ok R \<Longrightarrow> \<exists>db'. save_hard_state R C hs db = Done db'"
  by (auto simp: save_hard_state_def writes_ok_def engine_put_def split: prod.splits) (metis fst_conv)

lemma cut_point_le: "log_wf l \<Longrightarrow> \<forall>e \<in> set es. last_included_index l < le_index e \<Longrightarrow> cut_point l es \<le> length (rl_entries l)"
proof (induction es)
  case (Cons e es)
  then have "le_index e \<le> last_log_index l \<Longrightarrow> arr_idx l (le_index e) < length (rl_entries l)"
    by (intro arr_idx_bound) (simp_all add: in_log_def)
  with Cons show ?case by (auto simp: not_less intro: less_imp_le)
qed simp

text \<open>Every position of the log lies below the end of the vector.\<close>

lemma nothing_cut: "log_wf l \<Longrightarrow> (in_log l i \<and> length (rl_entries l) \<le> arr_idx l i) = False"
  using arr_idx_bound [of l i] by auto

lemma in_log_cut:
  assumes "log_wf l" and "in_log l j"
  shows "j \<le> i \<and> i \<le> last_log_index l \<longleftrightarrow> in_log l i \<and> arr_idx l j \<le> arr_idx l i"
  using assms by (auto simp: in_log_wf arr_idx_in_log word_le_nat_alt last_log_index_wf)

text \<open>The loop, with the effect on the database.\<close>

lemma delete_conflicts_total:
  assumes wf: "log_wf l" and wr: "writes_ok (env_db E)" and spec: "rocksdb_spec (env_db E) view"
    and max: "last_log_index l \<noteq> - 1" and es: "\<forall>e \<in> set es. last_included_index l < le_index e"
  shows "\<exists>db'. delete_conflicts E es db l = Done (db', l\<lparr>rl_entries := take (cut_point l es) (rl_entries l)\<rparr>) \<and>
    st_log (on_disk E view db') =
      (\<lambda>i. if in_log l i \<and> cut_point l es \<le> arr_idx l i then None else st_log (on_disk E view db) i)"
  using es
proof (induction es)
  case Nil
  show ?case by (simp add: nothing_cut [OF wf])
next
  case (Cons e es)
  show ?case
  proof (cases "le_index e > last_log_index l")
    case True
    then show ?thesis by (simp add: Let_def nothing_cut [OF wf])
  next
    case False
    with Cons.prems have i: "in_log l (le_index e)" by (simp add: in_log_def)
    then obtain t where t: "get_term l (le_index e) = Some t"
      using rlog.term_at_iff [OF wf, of "le_index e"] by (auto simp: in_log_def)
    show ?thesis
    proof (cases "t = le_term e")
      case True
      with Cons False t show ?thesis by (simp add: Let_def)
    next
      case tneq: False
      obtain db' where d: "truncate_entries (env_db E) (le_index e) (last_log_index l) db = Done db'"
        using truncate_entries_Done [OF wr max] by blast
      have "st_log (on_disk E view db') = (\<lambda>j. if in_log l j \<and> arr_idx l (le_index e) \<le> arr_idx l j
          then None else st_log (on_disk E view db) j)"
        by (simp add: stored_truncate_entries [OF spec d] in_log_cut [OF wf i])
      with d t tneq False i show ?thesis
        by (simp add: Let_def truncate_entries_before_def)
    qed
  qed
qed

lemma store_entries_total:
  assumes wf: "log_wf (rn_logs n)" and wr: "writes_ok (env_db E)" and ok: "env_ok E view"
    and max: "last_log_index (rn_logs n) \<noteq> - 1"
    and es: "\<forall>e \<in> set es. last_included_index (rn_logs n) < le_index e" "es \<noteq> []"
  obtains db where
    "store_entries E es n = Done (n\<lparr>rn_persister := db, rn_logs := (rn_logs n)\<lparr>rl_entries :=
       take (cut_point (rn_logs n) es) (rl_entries (rn_logs n)) @ es\<rparr>\<rparr>)"
    "st_log (on_disk E view db) = fold put_log es
       (\<lambda>i. if in_log (rn_logs n) i \<and> cut_point (rn_logs n) es \<le> arr_idx (rn_logs n) i then None
            else st_log (on_disk E view (rn_persister n)) i)"
proof -
  let ?l = "(rn_logs n)\<lparr>rl_entries := take (cut_point (rn_logs n) es) (rl_entries (rn_logs n))\<rparr>"
  from ok have spec: "rocksdb_spec (env_db E) view" by (simp add: env_ok_def)
  from delete_conflicts_total [OF wf wr spec max es(1)] obtain db1 where
    d: "delete_conflicts E es (rn_persister n) (rn_logs n) = Done (db1, ?l)" and
    s1: "st_log (on_disk E view db1) = (\<lambda>i. if in_log (rn_logs n) i \<and> cut_point (rn_logs n) es \<le> arr_idx (rn_logs n) i
       then None else st_log (on_disk E view (rn_persister n)) i)" by blast
  obtain db where s: "save_entries (env_db E) (env_codec E) es db1 = Done db" using save_entries_Done [OF wr] by blast
  show thesis
  proof (rule that)
    show "store_entries E es n = Done (n\<lparr>rn_persister := db, rn_logs := (rn_logs n)\<lparr>rl_entries :=
       take (cut_point (rn_logs n) es) (rl_entries (rn_logs n)) @ es\<rparr>\<rparr>)"
      using d s es(2) by (simp add: store_entries_def append_entries_list)
    show "st_log (on_disk E view db) = fold put_log es
       (\<lambda>i. if in_log (rn_logs n) i \<and> cut_point (rn_logs n) es \<le> arr_idx (rn_logs n) i then None
            else st_log (on_disk E view (rn_persister n)) i)"
      using stored_save_entries [OF spec _ s] ok by (simp add: env_ok_def s1)
  qed
qed

section \<open>When the log stays well-formed\<close>

lemma follows_Cons:
  "follows prev (e # es) \<longleftrightarrow> unat (le_index e) = unat prev + 1 \<and> follows (le_index e) es"
  by (auto simp: follows_def less_Suc_eq_0_disj all_conj_distrib)

lemma follows_above: "follows prev es \<Longrightarrow> base \<le> prev \<Longrightarrow> \<forall>e \<in> set es. base < le_index e"
  by (auto simp: follows_def in_set_conv_nth word_le_nat_alt word_less_nat_alt)

lemma cut_point_ge:
  assumes "log_wf l" and "follows prev es" and "last_included_index l \<le> prev" and "prev \<le> last_log_index l"
  shows "unat prev - unat (rl_last_included_index l) \<le> cut_point l es"
  using assms(2-)
proof (induction es arbitrary: prev)
  case Nil
  then show ?case by (simp add: word_le_nat_alt last_log_index_wf [OF assms(1)] last_included_index_def)
next
  case (Cons e es)
  from Cons.prems have e: "unat (le_index e) = unat prev + 1" "follows (le_index e) es"
    by (simp_all add: follows_Cons)
  show ?case
  proof (cases "le_index e > last_log_index l")
    case True
    with Cons.prems(3) show ?thesis
      by (simp add: word_le_nat_alt last_log_index_wf [OF assms(1)] last_included_index_def)
  next
    case False
    then have "in_log l (le_index e)" using Cons.prems(2) e
      by (simp add: in_log_def word_le_nat_alt word_less_nat_alt last_included_index_def)
    moreover have "unat (le_index e) - unat (rl_last_included_index l) \<le> cut_point l es"
      using Cons.IH [OF e(2)] Cons.prems e False by (simp add: word_le_nat_alt word_less_nat_alt last_included_index_def)
    ultimately show ?thesis using False e by (auto simp: arr_idx_in_log)
  qed
qed

lemma append_wf_iff:
  assumes wf: "log_wf l" and es: "follows prev es" "es \<noteq> []" and k: "k \<le> length (rl_entries l)"
    and prev: "last_included_index l \<le> prev"
  shows "log_wf (l\<lparr>rl_entries := take k (rl_entries l) @ es\<rparr>) \<longleftrightarrow> k = unat prev - unat (rl_last_included_index l)"
proof
  assume "log_wf (l\<lparr>rl_entries := take k (rl_entries l) @ es\<rparr>)"
  then have "unat (le_index ((take k (rl_entries l) @ es) ! k)) = unat (rl_last_included_index l) + 1 + k"
    using k es(2) by (simp add: log_wf_def follows_def)
  moreover have "unat (le_index (es ! 0)) = unat prev + 1" using es by (simp add: follows_def)
  ultimately show "k = unat prev - unat (rl_last_included_index l)" using k by (simp add: nth_append)
next
  assume "k = unat prev - unat (rl_last_included_index l)"
  then have "unat prev = unat (rl_last_included_index l) + k"
    using prev by (simp add: word_le_nat_alt last_included_index_def)
  then have "rl_last_included_index l + of_nat k = prev"
    using unat_less_64 [of prev] unat_add_of_nat [of "rl_last_included_index l" k] by (simp add: word_unat_eq_iff)
  with wf es(1) k show "log_wf (l\<lparr>rl_entries := take k (rl_entries l) @ es\<rparr>)"
    by (simp add: log_wf_def follows_append follows_take min_def)
qed

text \<open>
  A batch fits when it starts right after the log, or when its first entry differs in term
  from the local entry at its position.
\<close>

definition batch_fits :: "RaftLog \<Rightarrow> u64 \<Rightarrow> LogEntry list \<Rightarrow> bool" where
  "batch_fits l prev es \<longleftrightarrow> prev = last_log_index l \<or> get_term l (prev + 1) \<noteq> Some (le_term (hd es))"

lemma cut_point_fits:
  assumes wf: "log_wf l" and es: "follows prev es" "es \<noteq> []"
    and prev: "last_included_index l \<le> prev" "prev \<le> last_log_index l"
  shows "cut_point l es = unat prev - unat (rl_last_included_index l) \<longleftrightarrow> batch_fits l prev es"
proof -
  obtain e es' where [simp]: "es = e # es'" using es(2) by (cases es) auto
  from es have e: "unat (le_index e) = unat prev + 1" "follows (le_index e) es'"
    by (simp_all add: follows_Cons)
  have len: "unat (last_log_index l) = unat (rl_last_included_index l) + length (rl_entries l)"
    by (rule last_log_index_wf [OF wf])
  show ?thesis
  proof (cases "prev = last_log_index l")
    case True
    with e have "le_index e > last_log_index l" by (simp add: word_less_nat_alt)
    with True len show ?thesis by (simp add: batch_fits_def)
  next
    case False
    with prev(2) have "prev < last_log_index l" by simp
    then have succ: "prev + 1 = le_index e" using e unat_add_one by (simp add: word_unat_eq_iff)
    then have "in_log l (le_index e)" "\<not> le_index e > last_log_index l"
      using e prev \<open>prev < last_log_index l\<close>
      by (simp_all add: in_log_def word_le_nat_alt word_less_nat_alt last_included_index_def)
    moreover have "unat (le_index e) - unat (rl_last_included_index l) \<le> cut_point l es'"
      using calculation by (intro cut_point_ge [OF wf e(2)]) (auto simp: in_log_def intro: less_imp_le)
    ultimately show ?thesis
      using False succ e prev(1) by (auto simp: batch_fits_def arr_idx_in_log word_le_nat_alt last_included_index_def)
  qed
qed

section \<open>The database follows the log\<close>

text \<open>Above the snapshot position the database holds exactly the entries of the log.\<close>

definition log_on_disk :: "('db, 'fs, 'tok) env \<Rightarrow> ('db \<Rightarrow> string \<rightharpoonup> string) \<Rightarrow> ('db, 'fs) RaftNode \<Rightarrow> bool" where
  "log_on_disk E view n \<longleftrightarrow>
     (\<forall>i. last_included_index (rn_logs n) < i \<longrightarrow> st_log (on_disk E view (rn_persister n)) i = get_entry (rn_logs n) i)"

lemma fold_put_log:
  "follows prev es \<Longrightarrow> fold put_log es f i =
     (if unat prev < unat i \<and> unat i \<le> unat prev + length es then Some (es ! (unat i - unat prev - 1)) else f i)"
proof (induction es arbitrary: prev f)
  case (Cons e es)
  then have e: "unat (le_index e) = unat prev + 1" "follows (le_index e) es" by (simp_all add: follows_Cons)
  have "i = le_index e \<longleftrightarrow> unat i = unat prev + 1" using e by (simp add: word_unat_eq_iff)
  moreover have "es ! (unat i - Suc (Suc (unat prev))) = (e # es) ! (unat i - Suc (unat prev))"
    if "Suc (unat prev) < unat i" using that by (auto simp: nth_Cons')
  ultimately show ?case using Cons.IH [OF e(2)] e(1) by (auto simp: put_log_def)
qed auto

lemma get_entry_take_append:
  assumes wf: "log_wf l" and wf': "log_wf (l\<lparr>rl_entries := take k (rl_entries l) @ es\<rparr>)" (is "log_wf ?l")
    and k: "k \<le> length (rl_entries l)" and prev: "unat prev = unat (rl_last_included_index l) + k"
    and i: "last_included_index l < i"
  shows "get_entry ?l i =
    (if unat prev < unat i \<and> unat i \<le> unat prev + length es then Some (es ! (unat i - unat prev - 1))
     else if in_log l i \<and> k \<le> arr_idx l i then None else get_entry l i)"
proof -
  from i have "unat (rl_last_included_index l) < unat i" by (simp add: last_included_index_def word_less_nat_alt)
  with prev k show ?thesis
    by (auto simp: get_entry_wf [OF wf'] get_entry_wf [OF wf] in_log_wf [OF wf'] in_log_wf [OF wf]
        arr_idx_in_log nth_append min_def diff_diff_left)
qed

lemma store_entries_on_disk:
  assumes wf: "log_wf (rn_logs n)" and wr: "writes_ok (env_db E)" and ok: "env_ok E view"
    and max: "last_log_index (rn_logs n) \<noteq> - 1" and disk: "log_on_disk E view n"
    and es: "follows prev es" "es \<noteq> []"
    and prev: "last_included_index (rn_logs n) \<le> prev" "prev \<le> last_log_index (rn_logs n)"
    and fits: "batch_fits (rn_logs n) prev es" and st: "store_entries E es n = Done n'"
  shows "log_wf (rn_logs n') \<and> log_on_disk E view n'"
proof -
  let ?l = "rn_logs n" and ?k = "unat prev - unat (rl_last_included_index (rn_logs n))"
  have above: "\<forall>e \<in> set es. last_included_index ?l < le_index e" using follows_above [OF es(1) prev(1)] .
  have k: "cut_point ?l es = ?k" using cut_point_fits [OF wf es prev] fits by simp
  have kl: "?k \<le> length (rl_entries ?l)" using cut_point_le [OF wf above] k by simp
  from store_entries_total [OF wf wr ok max above es(2)] obtain db where
    n': "n' = n\<lparr>rn_persister := db, rn_logs := ?l\<lparr>rl_entries := take ?k (rl_entries ?l) @ es\<rparr>\<rparr>" and
    db: "st_log (on_disk E view db) = fold put_log es
       (\<lambda>i. if in_log ?l i \<and> ?k \<le> arr_idx ?l i then None else st_log (on_disk E view (rn_persister n)) i)"
    using st k by auto
  have wf': "log_wf (?l\<lparr>rl_entries := take ?k (rl_entries ?l) @ es\<rparr>)"
    using append_wf_iff [OF wf es kl prev(1)] by simp
  have p: "unat prev = unat (rl_last_included_index ?l) + ?k"
    using prev(1) by (simp add: word_le_nat_alt last_included_index_def)
  have "st_log (on_disk E view db) i = get_entry (?l\<lparr>rl_entries := take ?k (rl_entries ?l) @ es\<rparr>) i"
    if i: "last_included_index ?l < i" for i
    unfolding get_entry_take_append [OF wf wf' kl p i] db fold_put_log [OF es(1)]
    using disk i by (simp add: log_on_disk_def)
  with wf' n' show ?thesis by (simp add: log_on_disk_def last_included_index_def)
qed

section \<open>The handler\<close>

text \<open>The part of the state that a change of term leaves alone.\<close>

lemma rise_Done:
  assumes wr: "writes_ok (env_db E)" and ok: "env_ok E view" and t: "current_term n \<le> t"
  obtains n1 where "(if t > current_term n then increase_term_to E now t n else Done n) = Done n1"
    "rn_logs n1 = rn_logs n" "rn_transport n1 = rn_transport n" "rn_commit_index n1 = rn_commit_index n"
    "rn_last_applied n1 = rn_last_applied n" "rn_state_machine n1 = rn_state_machine n"
    "rn_snapshotter n1 = rn_snapshotter n" "rn_disk n1 = rn_disk n" "rn_snapshot_data n1 = rn_snapshot_data n"
    "current_term n1 = t" "st_log (on_disk E view (rn_persister n1)) = st_log (on_disk E view (rn_persister n))"
    "rn_role n1 = (if t > current_term n then kFollower else rn_role n)"
proof (cases "t > current_term n")
  case True
  define m where "m = n\<lparr>rn_votes := 0, rn_hard_state := (rn_hard_state n)\<lparr>hs_voted_for := None, hs_current_term := t\<rparr>,
          rn_role := kFollower, rn_last_reset_time := now\<rparr>"
  obtain db where db: "save_hard_state (env_db E) (env_codec E) (rn_hard_state m) (rn_persister n) = Done db"
    using save_hard_state_Done [OF wr] by blast
  then have i: "increase_term_to E now t n = Done (m\<lparr>rn_persister := db\<rparr>)"
    by (simp add: increase_term_to_def persist_hard_state_def m_def)
  have "st_log (on_disk E view db) = st_log (on_disk E view (rn_persister n))"
    using stored_save_hard_state [OF _ _ db] ok by (simp add: env_ok_def)
  with i True show thesis by (intro that [of "m\<lparr>rn_persister := db\<rparr>"]) (simp_all add: m_def)
next
  case False
  with t show thesis by (intro that [of n]) simp_all
qed

text \<open>What follows the storing of the entries: the commit, and the response.\<close>

definition append_finish ::
    "('db, 'fs, 'tok) env \<Rightarrow> u64 \<Rightarrow> AppendEntriesRequest \<Rightarrow> ('db, 'fs) RaftNode
     \<Rightarrow> (('db, 'fs) RaftNode \<times> AppendEntriesResponse \<times> resumed) outcome" where
  "append_finish E now q n3 =
     co_await
       (if aeq_leader_commit q > rn_commit_index n3
        then apply_entry E now (n3\<lparr>rn_commit_index := min (last_log_index (rn_logs n3)) (aeq_leader_commit q)\<rparr>)
        else Done (n3, []))
       (\<lambda>(n4, rs). Done (n4, make_append_entries_response (member_id (rn_transport n3)) (aeq_term q) True
          (last_log_index (rn_logs n4)) None, rs))"

lemma store_entries_transport: "store_entries E es n = Done n' \<Longrightarrow> rn_transport n' = rn_transport n"
  by (auto simp: store_entries_def co_await_Done_iff split: if_splits)

lemma append_request_accept:
  assumes wr: "writes_ok (env_db E)" and ok: "env_ok E view" and t: "current_term n \<le> aeq_term q"
    and wf: "log_wf (rn_logs n)"
    and prev: "get_term (rn_logs n) (aeq_prev_log_index q) = Some (aeq_prev_log_term q)"
  obtains n2 where "rn_logs n2 = rn_logs n" "rn_transport n2 = rn_transport n" "rn_commit_index n2 = rn_commit_index n"
    "rn_last_applied n2 = rn_last_applied n" "rn_state_machine n2 = rn_state_machine n"
    "rn_snapshotter n2 = rn_snapshotter n" "current_term n2 = aeq_term q"
    "st_log (on_disk E view (rn_persister n2)) = st_log (on_disk E view (rn_persister n))"
    "handle_append_entries_request E now q n =
       co_await (store_entries E (aeq_entries q) n2) (append_finish E now q)"
proof -
  from rise_Done [OF wr ok t] obtain n1 where
    n1: "(if aeq_term q > current_term n then increase_term_to E now (aeq_term q) n else Done n) = Done n1"
    and same: "rn_logs n1 = rn_logs n" "rn_transport n1 = rn_transport n" "rn_commit_index n1 = rn_commit_index n"
    "rn_last_applied n1 = rn_last_applied n" "rn_state_machine n1 = rn_state_machine n"
    "rn_snapshotter n1 = rn_snapshotter n" "current_term n1 = aeq_term q"
    "st_log (on_disk E view (rn_persister n1)) = st_log (on_disk E view (rn_persister n))" by blast
  define n2 where "n2 = n1\<lparr>rn_leader_id := Some (aeq_leader_id q), rn_last_reset_time := now\<rparr>"
  have n2: "rn_logs n2 = rn_logs n" by (simp add: n2_def same)
  have "prev_log_ok q (rn_logs n2) = Done True"
    using rlog.term_at_iff [OF wf, of "aeq_prev_log_index q"] prev by (simp add: prev_log_ok_def n2)
  moreover have "\<not> aeq_term q < current_term n"
    "(if current_term n < aeq_term q then aeq_term q else current_term n) = aeq_term q"
    using t by auto
  ultimately have "handle_append_entries_request E now q n =
      co_await (store_entries E (aeq_entries q) n2) (append_finish E now q)"
    using n1 same by (cases "store_entries E (aeq_entries q) n2")
      (simp_all add: n2_def handle_append_entries_request_def append_finish_def Let_def store_entries_transport)
  with same show thesis by (intro that [OF n2]) (simp_all add: n2_def)
qed

lemma append_request_store:
  assumes wf: "log_wf (rn_logs n)" and wr: "writes_ok (env_db E)" and ok: "env_ok E view"
    and max: "last_log_index (rn_logs n) \<noteq> - 1" and t: "current_term n \<le> aeq_term q"
    and prev: "get_term (rn_logs n) (aeq_prev_log_index q) = Some (aeq_prev_log_term q)"
    and es: "follows (aeq_prev_log_index q) (aeq_entries q)" "aeq_entries q \<noteq> []"
  obtains n2 n3 where "rn_logs n2 = rn_logs n" "store_entries E (aeq_entries q) n2 = Done n3"
    "st_log (on_disk E view (rn_persister n2)) = st_log (on_disk E view (rn_persister n))"
    "handle_append_entries_request E now q n = append_finish E now q n3"
    "rn_logs n3 = (rn_logs n)\<lparr>rl_entries :=
       take (cut_point (rn_logs n) (aeq_entries q)) (rl_entries (rn_logs n)) @ aeq_entries q\<rparr>"
    "rn_transport n3 = rn_transport n" "rn_commit_index n3 = rn_commit_index n"
    "rn_last_applied n3 = rn_last_applied n" "rn_state_machine n3 = rn_state_machine n"
    "rn_snapshotter n3 = rn_snapshotter n"
proof -
  have rng: "last_included_index (rn_logs n) \<le> aeq_prev_log_index q"
    using rlog.term_at_iff [OF wf, of "aeq_prev_log_index q"] prev by simp_all
  from append_request_accept [OF wr ok t wf prev] obtain n2 where
    n2: "rn_logs n2 = rn_logs n" "rn_transport n2 = rn_transport n" "rn_commit_index n2 = rn_commit_index n"
    "rn_last_applied n2 = rn_last_applied n" "rn_state_machine n2 = rn_state_machine n"
    "rn_snapshotter n2 = rn_snapshotter n"
    "st_log (on_disk E view (rn_persister n2)) = st_log (on_disk E view (rn_persister n))"
    and h: "handle_append_entries_request E now q n =
       co_await (store_entries E (aeq_entries q) n2) (append_finish E now q)" by blast
  have "\<forall>e \<in> set (aeq_entries q). last_included_index (rn_logs n2) < le_index e"
    using follows_above [OF es(1) rng(1)] n2 by simp
  with store_entries_total [of n2 E view "aeq_entries q"] wf wr ok max es(2) n2 obtain db where
    s: "store_entries E (aeq_entries q) n2 = Done (n2\<lparr>rn_persister := db, rn_logs := (rn_logs n)\<lparr>rl_entries :=
       take (cut_point (rn_logs n) (aeq_entries q)) (rl_entries (rn_logs n)) @ aeq_entries q\<rparr>\<rparr>)" by auto
  with h n2 show thesis
    by (intro that [OF n2(1) s n2(7)]) simp_all
qed

end
