(* ===== verification/Raft_Commit.thy ===== *)
theory Raft_Commit
  imports Raft_Append
begin

text \<open>
  Commitment and application: the middle of the sorted match indices is held by half of the
  members, a run of \<open>apply_entry\<close> applies the committed entries in order and ends, and leader
  and follower reach the same replica of the name space.
\<close>

section \<open>The middle of the match indices\<close>

lemma filter_sort_length: "length (filter P (sort xs)) = length (filter P xs)"
  by (metis filter_sort length_sort)

lemma sort_middle:
  fixes xs :: "'a::linorder list"
  assumes "xs \<noteq> []"
  defines "m \<equiv> sort xs ! (length xs div 2)"
  shows "m \<in> set xs" and "length xs - length xs div 2 \<le> length (filter (\<lambda>x. m \<le> x) xs)"
proof -
  let ?s = "sort xs" and ?k = "length xs div 2"
  have k: "?k < length ?s" using assms by (cases xs) auto
  then show "m \<in> set xs" unfolding m_def by (metis nth_mem set_sort)
  have "m \<le> ?s ! (?k + i)" if "i < length ?s - ?k" for i
    unfolding m_def using that by (intro sorted_nth_mono) auto
  then have "\<forall>x \<in> set (drop ?k ?s). m \<le> x" by (auto simp: in_set_conv_nth)
  then have "filter (\<lambda>x. m \<le> x) (drop ?k ?s) = drop ?k ?s" by (simp add: filter_id_conv)
  then have "length ?s - ?k \<le> length (filter (\<lambda>x. m \<le> x) (take ?k ?s @ drop ?k ?s))"
    by (simp del: append_take_drop_id)
  then show "length xs - ?k \<le> length (filter (\<lambda>x. m \<le> x) xs)" by (simp add: filter_sort_length)
qed

text \<open>The members whose match index has reached \<open>i\<close>.\<close>

definition acknowledged :: "(u64, u64) umap \<Rightarrow> u64 \<Rightarrow> u64 set" where
  "acknowledged m i = {k. \<exists>v. um_find m k = Some v \<and> i \<le> v}"

lemma acknowledged_card:
  assumes "um_wf m"
  shows "card (acknowledged m i) = length (filter (\<lambda>v. i \<le> v) (um_values m))"
proof -
  have "acknowledged m i = fst ` set (filter (\<lambda>(k, v). i \<le> v) m)"
    using assms by (force simp: acknowledged_def um_find_def um_wf_def)
  moreover have "distinct (map fst (filter (\<lambda>(k, v). i \<le> v) m))"
    using assms by (simp add: um_wf_def distinct_map_filter)
  ultimately have "card (acknowledged m i) = length (filter (\<lambda>(k, v). i \<le> v) m)"
    by (metis distinct_card length_map list.set_map)
  then show ?thesis by (simp add: um_values_def filter_map comp_def split_def)
qed

lemma commit_candidate_quorum:
  assumes "um_wf m" and "m \<noteq> []"
  shows "length m - length m div 2 \<le> card (acknowledged m (commit_candidate m))"
  using sort_middle(2) [of "um_values m"] assms
  by (simp add: acknowledged_card commit_candidate_def Let_def um_values_def)

lemma commit_candidate_member:
  "m \<noteq> [] \<Longrightarrow> commit_candidate m \<in> set (um_values m)"
  using sort_middle(1) [of "um_values m"] by (simp add: commit_candidate_def Let_def um_values_def)

lemma finite_acknowledged: "finite (acknowledged m i)"
proof (rule finite_subset)
  show "acknowledged m i \<subseteq> fst ` set m" by (force simp: acknowledged_def um_find_def dest: map_of_SomeD)
qed simp

lemma um_assign_nonempty: "um_assign k v m \<noteq> []"
  by (metis um.find_assign um.find_clear option.distinct(1))

text \<open>How the leader's commit index moves when a follower answers.\<close>

lemma append_response_commit:
  assumes "handle_append_entries_response E now r n = Done (n', rs)"
  shows "rn_commit_index n' = rn_commit_index n \<or>
    rn_role n = kLeader \<and> aer_term r = current_term n \<and> aer_success r \<and>
    rn_match_index n' = um_assign (aer_id r) (aer_last_log_index r) (rn_match_index n) \<and>
    rn_commit_index n' = commit_candidate (rn_match_index n') \<and> rn_commit_index n < rn_commit_index n'"
proof -
  define m where "m = n\<lparr>rn_match_index := um_assign (aer_id r) (aer_last_log_index r) (rn_match_index n),
    rn_next_index := um_assign (aer_id r) (aer_last_log_index r + 1) (rn_next_index n)\<rparr>"
  define k where "k = commit_candidate (rn_match_index m)"
  have inc: "rn_commit_index n1 = rn_commit_index n" if "increase_term_to E now t n = Done n1" for t n1
    using that by (auto simp: increase_term_to_def elim!: persist_hard_state_cases)
  have app: "rn_commit_index n' = k \<and> rn_match_index n' = rn_match_index m"
    if "apply_entry E now (m\<lparr>rn_commit_index := k\<rparr>) = Done (n', rs)"
    using that apply_loop_core [of E now k "m\<lparr>rn_commit_index := k\<rparr>" n' rs] by (simp add: apply_entry_def core_def)
  show ?thesis
  proof (cases "aer_term r = current_term n \<and> rn_role n = kLeader \<and> aer_success r \<and> k > rn_commit_index n")
    case True
    with assms have "apply_entry E now (m\<lparr>rn_commit_index := k\<rparr>) = Done (n', rs)"
      by (simp add: handle_append_entries_response_def Let_def m_def k_def)
    with True app show ?thesis by (simp add: k_def m_def)
  next
    case False
    with assms show ?thesis
      by (auto simp: handle_append_entries_response_def Let_def co_await_Done_iff m_def k_def dest: inc
          split: if_splits option.splits)
  qed
qed

section \<open>Applying the committed entries\<close>

text \<open>A log that no snapshot has been installed into; \<open>apply_entry\<close> itself keeps it so.\<close>

definition fresh_log :: "RaftLog \<Rightarrow> bool" where
  "fresh_log l \<longleftrightarrow> log_wf l \<and> rl_last_included_index l = 0 \<and> rl_last_included_term l = 0"

lemma load_default_fresh: "fresh_log l \<Longrightarrow> RaftLog_load_snapshot Snapshot_default l = l"
  by (simp add: fresh_log_def RaftLog_load_snapshot_def Snapshot_default_def)

lemma save_snapshot_unlocked:
  assumes "\<not> sp_locked s"
  shows "\<exists>ret fs' s'. save_snapshot F C sn fs s = Done (ret, fs', s') \<and> \<not> sp_locked s'"
  using assms by (auto simp: save_snapshot_def Let_def split: prod.splits)

lemma snapshot_step_ok:
  assumes "fresh_log (rn_logs n)" and "\<not> sp_locked (rn_snapshotter n)" and "get_term (rn_logs n) (rn_last_applied n) \<noteq> None"
  shows "\<exists>disk sp. snapshot_step E n = Done (n\<lparr>rn_disk := disk, rn_snapshotter := sp\<rparr>) \<and> \<not> sp_locked sp"
proof -
  from assms(3) obtain t where t: "get_term (rn_logs n) (rn_last_applied n) = Some t" by blast
  define sn where "sn = take_snapshot (rn_state_machine n)
    (Snapshot_default\<lparr>sn_last_included_index := rn_last_applied n, sn_last_included_term := t\<rparr>)"
  obtain ret fs' s' where "save_snapshot (env_files E) (env_codec E) sn (rn_disk n) (rn_snapshotter n) = Done (ret, fs', s')"
    and "\<not> sp_locked s'"
    using save_snapshot_unlocked [OF assms(2), where F = "env_files E" and C = "env_codec E" and sn = sn and fs = "rn_disk n"]
    by blast
  with t load_default_fresh [OF assms(1)] show ?thesis
    by (cases ret)
      (auto simp: snapshot_step_def Snapshot_move_def Let_def sn_def [symmetric] intro!: exI [of _ fs'] exI [of _ s'])
qed

lemma replica_applied:
  "replica (fst (applied_state E now e n)) = sm_apply_entry_no_response (env_codec E) now e (replica (rn_state_machine n))"
  by (simp add: applied_state_def apply_entry_replica replica_no_response)

lemma apply_one_ok:
  assumes l: "fresh_log (rn_logs n)" and s: "\<not> sp_locked (rn_snapshotter n)"
    and a: "rn_last_applied n < last_log_index (rn_logs n)"
  obtains n' where
    "apply_one E now n = Done (n', snd (applied_state E now (rl_entries (rn_logs n) ! unat (rn_last_applied n)) n))"
    "rn_last_applied n' = rn_last_applied n + 1" "rn_logs n' = rn_logs n" "\<not> sp_locked (rn_snapshotter n')"
    "rn_role n' = rn_role n" "rn_transport n' = rn_transport n"
    "rn_state_machine n' = fst (applied_state E now (rl_entries (rn_logs n) ! unat (rn_last_applied n)) n)"
proof -
  from l have wf: "log_wf (rn_logs n)" and base: "rl_last_included_index (rn_logs n) = 0" by (simp_all add: fresh_log_def)
  let ?e = "rl_entries (rn_logs n) ! unat (rn_last_applied n)"
  define m where "m = n\<lparr>rn_last_applied := rn_last_applied n + 1, rn_state_machine := fst (applied_state E now ?e n)\<rparr>"
  have u: "unat (rn_last_applied n + 1) = Suc (unat (rn_last_applied n))" using a by (rule unat_add_one)
  have i: "in_log (rn_logs n) (rn_last_applied n + 1)"
    using a u last_log_index_wf [OF wf] by (simp add: in_log_wf [OF wf] base word_less_nat_alt)
  then have ge: "get_entry (rn_logs n) (rn_last_applied n + 1) = Some ?e"
    using u base by (simp add: get_entry_wf [OF wf] arr_idx_in_log)
  have gt: "get_term (rn_logs n) (rn_last_applied n + 1) \<noteq> None"
    using rlog.term_at_iff [OF wf, of "rn_last_applied n + 1"] i by (auto simp: in_log_def)
  obtain disk sp where sn: "snapshot_step E m = Done (m\<lparr>rn_disk := disk, rn_snapshotter := sp\<rparr>)" "\<not> sp_locked sp"
    using snapshot_step_ok [of m E] l s gt by (auto simp: m_def)
  have one: "apply_one E now n = (if (rn_last_applied n + 1) mod SNAPSHOT_INTERVAL = 0
      then Done (m\<lparr>rn_disk := disk, rn_snapshotter := sp\<rparr>, snd (applied_state E now ?e n))
      else Done (m, snd (applied_state E now ?e n)))"
    using ge sn(1) unfolding apply_one_def m_def applied_state_def
    by (cases "rn_role n = kLeader") (simp_all add: Let_def split_beta)
  show thesis
  proof (cases "(rn_last_applied n + 1) mod SNAPSHOT_INTERVAL = 0")
    case True
    with one sn(2) show thesis by (intro that [of "m\<lparr>rn_disk := disk, rn_snapshotter := sp\<rparr>"]) (simp_all add: m_def)
  next
    case False
    with one s show thesis by (intro that [of m]) (simp_all add: m_def)
  qed
qed

lemma apply_loop_done: "c \<le> rn_last_applied n \<Longrightarrow> apply_loop E now c n = Done (n, [])"
  by (subst apply_loop.simps) (simp add: not_less [symmetric])

text \<open>
  \<open>apply_entry\<close> returns, with every committed entry applied exactly once and in order.
\<close>

lemma apply_loop_ok:
  assumes "fresh_log (rn_logs n)" and "\<not> sp_locked (rn_snapshotter n)" and "c \<le> last_log_index (rn_logs n)"
    and "rn_last_applied n \<le> c"
  shows "\<exists>n' rs. apply_loop E now c n = Done (n', rs) \<and> rn_last_applied n' = c \<and> rn_logs n' = rn_logs n \<and>
    \<not> sp_locked (rn_snapshotter n') \<and>
    replica (rn_state_machine n') =
      fold (sm_apply_entry_no_response (env_codec E) now)
        (take (unat c - unat (rn_last_applied n)) (drop (unat (rn_last_applied n)) (rl_entries (rn_logs n))))
        (replica (rn_state_machine n))"
  using assms
proof (induction "unat c - unat (rn_last_applied n)" arbitrary: n)
  case 0
  then have "rn_last_applied n = c" by (simp add: word_le_nat_alt word_unat_eq_iff)
  with 0 show ?case by (simp add: apply_loop_done)
next
  case (Suc k)
  let ?a = "unat (rn_last_applied n)" and ?es = "rl_entries (rn_logs n)"
  from Suc have lt: "rn_last_applied n < c" by (simp add: word_less_nat_alt)
  with Suc.prems(3) have "rn_last_applied n < last_log_index (rn_logs n)" by simp
  with Suc.prems(1,2) obtain n1 where one:
    "apply_one E now n = Done (n1, snd (applied_state E now (?es ! ?a) n))"
    "rn_last_applied n1 = rn_last_applied n + 1" "rn_logs n1 = rn_logs n" "\<not> sp_locked (rn_snapshotter n1)"
    "rn_state_machine n1 = fst (applied_state E now (?es ! ?a) n)"
    by (rule apply_one_ok)
  have u: "unat (rn_last_applied n1) = Suc ?a" using one(2) unat_add_one [OF lt] by simp
  have "k = unat c - unat (rn_last_applied n1)" "rn_last_applied n1 \<le> c"
    using Suc.hyps(2) u lt by (simp_all add: word_le_nat_alt word_less_nat_alt)
  with Suc.hyps(1) [of n1] Suc.prems one obtain n' rs where rest:
    "apply_loop E now c n1 = Done (n', rs)" "rn_last_applied n' = c" "rn_logs n' = rn_logs n"
    "\<not> sp_locked (rn_snapshotter n')"
    "replica (rn_state_machine n') = fold (sm_apply_entry_no_response (env_codec E) now)
        (take k (drop (Suc ?a) ?es)) (replica (rn_state_machine n1))"
    using u by auto
  have "?a < length ?es"
    using lt Suc.prems(1,3) last_log_index_wf [of "rn_logs n"]
    by (simp add: fresh_log_def word_less_nat_alt word_le_nat_alt)
  then have "take (Suc k) (drop ?a ?es) = ?es ! ?a # take k (drop (Suc ?a) ?es)"
    by (metis Cons_nth_drop_Suc take_Suc_Cons)
  with rest one(1,5) lt Suc.hyps(2) show ?case
    by (subst apply_loop.simps) (simp add: replica_applied flip: Suc.hyps(2))
qed

end
