(* ===== verification/Raft_Replicate.thy ===== *)
theory Raft_Replicate
  imports Raft_Commit
begin

text \<open>
  Leader and follower together: the request a heartbeat builds for a member, what the member's
  handler does with it, and the cases in which building it stops the leader.
\<close>

section \<open>The requests of a heartbeat\<close>

definition heartbeat_request :: "('db, 'fs) RaftNode \<Rightarrow> u64 \<Rightarrow> AppendEntriesRequest" where
  "heartbeat_request n nxt =
     make_append_entries_request (current_term n) (member_id (rn_transport n)) (nxt - 1)
       (the (get_term (rn_logs n) (nxt - 1)))
       (take 64 (drop (unat nxt - unat (rl_last_included_index (rn_logs n)) - 1) (rl_entries (rn_logs n))))
       (rn_commit_index n)"

lemma unat_pred: "0 < w \<Longrightarrow> unat (w - 1) = unat w - 1" for w :: u64
  by (simp add: unat_sub_le word_le_nat_alt word_less_nat_alt)

lemma batch_take:
  fixes lst nxt :: u64
  assumes "0 < nxt" and "nxt \<le> lst" and "length xs = unat lst - unat nxt + 1"
  shows "take (unat (min MAX_APPEND_ENTRIES_SIZE (lst - nxt + 1))) xs = take 64 xs"
proof -
  have "lst - nxt \<noteq> - 1"
  proof
    assume "lst - nxt = - 1"
    moreover have "unat (- 1 :: u64) = 2 ^ 64 - 1"
      by (simp add: unsigned_minus_1_eq_mask mask_eq_exp_minus_1)
    ultimately have "unat lst - unat nxt = 2 ^ 64 - 1" using assms(2) by (metis unat_sub_le)
    then show False using assms(1) unat_less_64 [of lst] by (simp add: word_less_nat_alt)
  qed
  then have "unat (lst - nxt + 1) = length xs" using assms(2,3) by (simp add: unat_succ unat_sub_le)
  moreover have "unat (min MAX_APPEND_ENTRIES_SIZE (lst - nxt + 1)) = min 64 (unat (lst - nxt + 1))"
    by (simp add: min_def MAX_APPEND_ENTRIES_SIZE_def word_le_nat_alt)
  ultimately show ?thesis by (simp add: min_def)
qed

lemma heartbeat_member_ok:
  assumes wf: "log_wf (rn_logs n)" and m: "m \<noteq> member_id (rn_transport n)"
    and nxt: "last_included_index (rn_logs n) < nxt" "unat nxt \<le> unat (last_log_index (rn_logs n)) + 1"
  shows "heartbeat_member E (m, nxt) (n, out) =
    Done (n, out\<lparr>ms_append := um_emplace m (heartbeat_request n nxt) (ms_append out)\<rparr>)"
proof -
  let ?l = "rn_logs n"
  have base: "unat (rl_last_included_index ?l) < unat nxt" using nxt(1) by (simp add: last_included_index_def word_less_nat_alt)
  then have pos: "0 < nxt" by (simp add: word_less_nat_alt)
  have "last_included_index ?l \<le> nxt - 1" "nxt - 1 \<le> last_log_index ?l"
    using nxt base unat_pred [OF pos] by (simp_all add: word_le_nat_alt word_less_nat_alt last_included_index_def)
  then obtain t where t: "get_term ?l (nxt - 1) = Some t"
    using rlog.term_at_iff [OF wf, of "nxt - 1"] by auto
  have len: "unat (last_log_index ?l) = unat (rl_last_included_index ?l) + length (rl_entries ?l)"
    by (rule last_log_index_wf [OF wf])
  show ?thesis
  proof (cases "nxt \<le> last_log_index ?l")
    case True
    then have i: "in_log ?l nxt" using nxt(1) by (simp add: in_log_def)
    let ?d = "drop (unat nxt - unat (rl_last_included_index ?l) - 1) (rl_entries ?l)"
    have "length ?d = unat (last_log_index ?l) - unat nxt + 1"
      using len base True by (simp add: word_le_nat_alt)
    moreover have "\<not> nxt \<le> last_included_index ?l" using nxt(1) by simp
    ultimately show ?thesis
      using batch_take [OF pos True, of ?d] i t True m
      by (simp add: heartbeat_member_def Let_def get_entries_def get_entries_loop_take arr_idx_in_log
          heartbeat_request_def)
  next
    case False
    then have "drop (unat nxt - unat (rl_last_included_index ?l) - 1) (rl_entries ?l) = []"
      using nxt(2) len by (simp add: word_le_nat_alt)
    with False t m show ?thesis by (simp add: heartbeat_member_def Let_def heartbeat_request_def)
  qed
qed

lemma heartbeat_member_self: "heartbeat_member E (member_id (rn_transport n), nxt) (n, out) = Done (n, out)"
  by (simp add: heartbeat_member_def Let_def)

text \<open>A member whose next index lies beyond the end of the log fails the assertion of \<open>get_term\<close>.\<close>

lemma heartbeat_member_crash:
  assumes wf: "log_wf (rn_logs n)" and m: "m \<noteq> member_id (rn_transport n)"
    and nxt: "unat nxt > unat (last_log_index (rn_logs n)) + 1"
  shows "heartbeat_member E (m, nxt) (n, out) = Crashed"
proof -
  have pos: "0 < nxt" using nxt by (simp add: word_less_nat_alt)
  have "\<not> nxt - 1 \<le> last_log_index (rn_logs n)" using nxt unat_pred [OF pos] by (simp add: word_le_nat_alt)
  then have "get_term (rn_logs n) (nxt - 1) = None"
    using rlog.term_at_iff [OF wf, of "nxt - 1"] by auto
  moreover have "\<not> nxt \<le> last_log_index (rn_logs n)" using nxt by (simp add: word_le_nat_alt)
  ultimately show ?thesis using m by (simp add: heartbeat_member_def Let_def)
qed

definition next_ok :: "('db, 'fs) RaftNode \<Rightarrow> u64 \<times> u64 \<Rightarrow> bool" where
  "next_ok n p \<longleftrightarrow> fst p = member_id (rn_transport n) \<or>
     last_included_index (rn_logs n) < snd p \<and> unat (snd p) \<le> unat (last_log_index (rn_logs n)) + 1"

lemma heartbeat_member_next_ok:
  assumes "log_wf (rn_logs n)" and "next_ok n p"
  shows "heartbeat_member E p (n, out) = Done (n,
    if fst p = member_id (rn_transport n) then out
    else out\<lparr>ms_append := um_emplace (fst p) (heartbeat_request n (snd p)) (ms_append out)\<rparr>)"
  using assms heartbeat_member_ok [of n "fst p" "snd p" E out] heartbeat_member_self [of E n "snd p" out]
  by (cases p) (auto simp: next_ok_def)

text \<open>The answer to a member is the request built from its own next index.\<close>

lemma heartbeat_members_ok:
  assumes wf: "log_wf (rn_logs n)" and "\<forall>p \<in> set ps. next_ok n p" and "distinct (map fst ps)"
    and "\<forall>p \<in> set ps. um_find (ms_append out) (fst p) = None"
  shows "\<exists>out'. heartbeat_members E ps (n, out) = Done (n, out') \<and> ms_install out' = ms_install out \<and>
    (\<forall>m. um_find (ms_append out') m =
       (case map_of ps m of
          Some nxt \<Rightarrow> if m = member_id (rn_transport n) then um_find (ms_append out) m else Some (heartbeat_request n nxt)
        | None \<Rightarrow> um_find (ms_append out) m)) \<and>
    (\<forall>p \<in> set (ms_append out'). p \<in> set (ms_append out) \<or> fst p \<in> fst ` set ps)"
  using assms(2-)
proof (induction ps arbitrary: out)
  case Nil
  then show ?case by simp
next
  case (Cons p ps)
  define out1 where "out1 = (if fst p = member_id (rn_transport n) then out
    else out\<lparr>ms_append := um_emplace (fst p) (heartbeat_request n (snd p)) (ms_append out)\<rparr>)"
  have step: "heartbeat_member E p (n, out) = Done (n, out1)"
    unfolding out1_def using Cons.prems(1) by (intro heartbeat_member_next_ok [OF wf]) simp
  have keep: "um_find (ms_append out1) m = (if m = fst p \<and> fst p \<noteq> member_id (rn_transport n)
      then Some (heartbeat_request n (snd p)) else um_find (ms_append out) m)" for m
    using Cons.prems(3) by (auto simp: out1_def)
  have mem: "q \<in> set (ms_append out) \<or> fst q = fst p" if "q \<in> set (ms_append out1)" for q
    using that um_emplace_set [of "fst p" "heartbeat_request n (snd p)" "ms_append out"]
    by (auto simp: out1_def split: if_splits)
  have "fst q \<noteq> fst p" if "q \<in> set ps" for q
    using imageI [OF that, of fst] Cons.prems(2) by (metis distinct.simps(2) list.set_map list.simps(9))
  then have "\<forall>q \<in> set ps. um_find (ms_append out1) (fst q) = None"
    using Cons.prems(3) by (simp add: keep)
  from Cons.IH [OF _ _ this] Cons.prems obtain out' where
    r: "heartbeat_members E ps (n, out1) = Done (n, out')" "ms_install out' = ms_install out1"
    "\<forall>m. um_find (ms_append out') m = (case map_of ps m of
          Some nxt \<Rightarrow> if m = member_id (rn_transport n) then um_find (ms_append out1) m else Some (heartbeat_request n nxt)
        | None \<Rightarrow> um_find (ms_append out1) m)"
    "\<forall>p \<in> set (ms_append out'). p \<in> set (ms_append out1) \<or> fst p \<in> fst ` set ps" by auto
  have notin: "map_of ps (fst p) = None" using Cons.prems(2) by (simp add: map_of_eq_None_iff)
  have inst: "ms_install out1 = ms_install out" by (simp add: out1_def)
  show ?case
  proof (intro exI [of _ out'] conjI allI)
    fix m
    show "um_find (ms_append out') m = (case map_of (p # ps) m of
          Some nxt \<Rightarrow> if m = member_id (rn_transport n) then um_find (ms_append out) m else Some (heartbeat_request n nxt)
        | None \<Rightarrow> um_find (ms_append out) m)"
      using r(3) notin by (cases p) (auto simp: keep split: option.splits)
  next
    show "\<forall>q \<in> set (ms_append out'). q \<in> set (ms_append out) \<or> fst q \<in> fst ` set (p # ps)"
      using r(4) mem by fastforce
  qed (use step r inst in simp_all)
qed

lemma heartbeat_members_crash:
  assumes wf: "log_wf (rn_logs n)"
    and "\<forall>p \<in> set ps. next_ok n p \<or> unat (snd p) > unat (last_log_index (rn_logs n)) + 1"
    and "\<exists>p \<in> set ps. fst p \<noteq> member_id (rn_transport n) \<and> unat (snd p) > unat (last_log_index (rn_logs n)) + 1"
  shows "heartbeat_members E ps (n, out) = Crashed"
  using assms(2-)
proof (induction ps arbitrary: out)
  case (Cons p ps)
  show ?case
  proof (cases "fst p \<noteq> member_id (rn_transport n) \<and> unat (snd p) > unat (last_log_index (rn_logs n)) + 1")
    case True
    then have "heartbeat_member E p (n, out) = Crashed"
      using heartbeat_member_crash [OF wf, of "fst p" "snd p" E out] by simp
    then show ?thesis by simp
  next
    case False
    with Cons.prems have "next_ok n p" by (auto simp: next_ok_def)
    then obtain out1 where "heartbeat_member E p (n, out) = Done (n, out1)"
      by (simp add: heartbeat_member_next_ok [OF wf])
    with Cons False show ?thesis by auto
  qed
qed simp

section \<open>A follower that holds a prefix of the leader's log\<close>

definition log_prefix :: "nat \<Rightarrow> RaftLog \<Rightarrow> RaftLog" where
  "log_prefix k l = l\<lparr>rl_entries := take k (rl_entries l)\<rparr>"

lemma log_prefix_wf: "log_wf l \<Longrightarrow> log_wf (log_prefix k l)"
  by (simp add: log_prefix_def log_wf_def follows_take)

lemma log_prefix_last:
  assumes "log_wf l" and "k \<le> length (rl_entries l)"
  shows "last_log_index (log_prefix k l) = rl_last_included_index l + of_nat k"
    and "unat (rl_last_included_index l + of_nat k) = unat (rl_last_included_index l) + k"
proof -
  show "last_log_index (log_prefix k l) = rl_last_included_index l + of_nat k"
    using assms(2) by (simp add: last_log_index_def last_included_index_def log_prefix_def min_def)
  show "unat (rl_last_included_index l + of_nat k) = unat (rl_last_included_index l) + k"
    using assms follows_bound [of "rl_last_included_index l" "rl_entries l"] by (intro unat_add_of_nat) (simp add: log_wf_def)
qed

lemma get_term_prefix:
  assumes wf: "log_wf l" and k: "k \<le> length (rl_entries l)" and i: "unat i \<le> unat (rl_last_included_index l) + k"
  shows "get_term (log_prefix k l) i = get_term l i"
  using assms log_prefix_wf [OF wf, of k]
  by (auto simp: get_term_wf in_log_wf arr_idx_in_log log_prefix_def)

lemma follows_slice:
  assumes "log_wf l" and "k \<le> length (rl_entries l)"
  shows "follows (rl_last_included_index l + of_nat k) (take j (drop k (rl_entries l)))"
  using assms log_prefix_last(2) [OF assms] by (auto simp: follows_def log_wf_def)

lemma append_finish_ok:
  assumes "fresh_log (rn_logs n)" and "\<not> sp_locked (rn_snapshotter n)"
  obtains n' rs where "append_finish E now q n =
      Done (n', make_append_entries_response (member_id (rn_transport n)) (aeq_term q) True (last_log_index (rn_logs n)) None, rs)"
    and "rn_logs n' = rn_logs n"
proof (cases "aeq_leader_commit q > rn_commit_index n")
  case False
  then show thesis by (intro that [of n "[]"]) (simp_all add: append_finish_def)
next
  case True
  define c where "c = min (last_log_index (rn_logs n)) (aeq_leader_commit q)"
  have "\<exists>n' rs. apply_loop E now c (n\<lparr>rn_commit_index := c\<rparr>) = Done (n', rs) \<and> rn_logs n' = rn_logs n"
  proof (cases "rn_last_applied n \<le> c")
    case True
    with assms apply_loop_ok [of "n\<lparr>rn_commit_index := c\<rparr>" c E now] show ?thesis by (auto simp: c_def)
  next
    case False
    with apply_loop_done [of c "n\<lparr>rn_commit_index := c\<rparr>" E now] show ?thesis by auto
  qed
  then obtain n' rs where "apply_loop E now c (n\<lparr>rn_commit_index := c\<rparr>) = Done (n', rs)" "rn_logs n' = rn_logs n" by blast
  with True show thesis by (intro that [of n' rs]) (simp_all add: append_finish_def apply_entry_def c_def)
qed

text \<open>
  One heartbeat to a follower whose log is the first \<open>k\<close> entries of the leader's: afterwards it
  holds the first \<open>k + 64\<close>. First the request that the leader sends, then what the follower
  stores.
\<close>

lemma heartbeat_prefix_request:
  fixes k ld
  assumes wf: "log_wf (rn_logs ld)" and k: "k \<le> length (rl_entries (rn_logs ld))"
    and base: "rl_last_included_index (rn_logs ld) = 0"
    and max: "length (rl_entries (rn_logs ld)) < 2 ^ 64 - 1"
  defines "q \<equiv> heartbeat_request ld (of_nat k + 1)"
  shows "aeq_term q = current_term ld" and "aeq_prev_log_index q = of_nat k"
    and "aeq_entries q = take 64 (drop k (rl_entries (rn_logs ld)))"
    and "get_term (log_prefix k (rn_logs ld)) (of_nat k) = Some (aeq_prev_log_term q)"
    and "last_log_index (log_prefix k (rn_logs ld)) \<noteq> - 1"
proof -
  let ?l = "rn_logs ld" and ?p = "of_nat k :: u64"
  have last: "last_log_index (log_prefix k ?l) = ?p" "unat ?p = k"
    using log_prefix_last [OF wf k] base by simp_all
  then have "unat ?p < 2 ^ 64 - 1" using k max by simp
  then have p: "?p \<noteq> - 1" by (auto simp: unsigned_minus_1_eq_mask mask_eq_exp_minus_1)
  then have up: "unat (?p + 1) = Suc (unat ?p)" by (rule unat_succ)
  then show "aeq_term q = current_term ld" "aeq_prev_log_index q = ?p"
    "aeq_entries q = take 64 (drop k (rl_entries ?l))"
    using last(2) base by (simp_all add: q_def heartbeat_request_def make_append_entries_request_def)
  have "get_term ?l ?p \<noteq> None"
    using rlog.term_at_iff [OF wf, of ?p] last(2) last_log_index_wf [OF wf] k base
    by (simp add: word_le_nat_alt last_included_index_def)
  moreover have "aeq_prev_log_term q = the (get_term ?l ?p)"
    by (simp add: q_def heartbeat_request_def make_append_entries_request_def)
  ultimately show "get_term (log_prefix k ?l) ?p = Some (aeq_prev_log_term q)"
    using get_term_prefix [OF wf k, of ?p] last(2) base by simp
  show "last_log_index (log_prefix k ?l) \<noteq> - 1" using last(1) p by simp
qed

lemma log_prefix_glue:
  "log_prefix (k + m) l = (log_prefix k l)\<lparr>rl_entries := take k (rl_entries l) @ take m (drop k (rl_entries l))\<rparr>"
  by (simp add: log_prefix_def take_add)

text \<open>What follows the first \<open>k\<close> entries of the leader, stored at a node that holds those.\<close>

lemma prefix_stored:
  fixes n :: "('db, 'fs) RaftNode"
  assumes wf: "log_wf l" and k: "k \<le> length (rl_entries l)" and n: "rn_logs n = log_prefix k l"
    and base: "rl_last_included_index l = 0" and wr: "writes_ok (env_db E)" and ok: "env_ok E view"
    and max: "length (rl_entries l) < 2 ^ 64 - 1"
  obtains db where "store_entries E (take 64 (drop k (rl_entries l))) n = Done (n\<lparr>rn_persister := db, rn_logs := log_prefix (k + 64) l\<rparr>)"
proof (cases "take 64 (drop k (rl_entries l)) = []")
  case True
  then have "log_prefix (k + 64) l = rn_logs n" by (simp add: n log_prefix_def)
  with True show thesis by (intro that [of "rn_persister n"]) (simp add: store_entries_def)
next
  case False
  let ?es = "take 64 (drop k (rl_entries l))" and ?p = "of_nat k :: u64"
  have last: "last_log_index (log_prefix k l) = ?p" "unat ?p = k" using log_prefix_last [OF wf k] base by simp_all
  then have "unat ?p < 2 ^ 64 - 1" using k max by simp
  then have p: "?p \<noteq> - 1" by (auto simp: unsigned_minus_1_eq_mask mask_eq_exp_minus_1)
  have wfn: "log_wf (rn_logs n)" using log_prefix_wf [OF wf] n by simp
  have fol: "follows ?p ?es" using follows_slice [OF wf k, of 64] base by simp
  have above: "last_included_index (rn_logs n) \<le> ?p" by (simp add: n log_prefix_def last_included_index_def base)
  moreover have "batch_fits (rn_logs n) ?p ?es" using last(1) n by (simp add: batch_fits_def)
  ultimately have "cut_point (rn_logs n) ?es = k"
    using cut_point_fits [OF wfn fol False] last n base by (simp add: log_prefix_def last_included_index_def)
  moreover have "\<forall>e \<in> set ?es. last_included_index (rn_logs n) < le_index e" by (rule follows_above [OF fol above])
  ultimately obtain db where "store_entries E ?es n = Done (n\<lparr>rn_persister := db, rn_logs := (rn_logs n)\<lparr>rl_entries :=
      take k (rl_entries (rn_logs n)) @ ?es\<rparr>\<rparr>)"
    using store_entries_total [OF wfn wr ok _ _ False] last(1) p n by metis
  then show thesis by (intro that [of db]) (simp add: n log_prefix_glue, simp add: log_prefix_def)
qed

lemma replicate_store:
  fixes E :: "('db, 'fs, 'tok) env" and fo :: "('db, 'fs) RaftNode" and ld :: "('db1, 'fs1) RaftNode"
  assumes wf: "log_wf (rn_logs ld)" and k: "k \<le> length (rl_entries (rn_logs ld))"
    and fl: "rn_logs fo = log_prefix k (rn_logs ld)" and base: "rl_last_included_index (rn_logs ld) = 0"
    and t: "current_term fo \<le> current_term ld" and wr: "writes_ok (env_db E)" and ok: "env_ok E view"
    and max: "length (rl_entries (rn_logs ld)) < 2 ^ 64 - 1"
  defines "q \<equiv> heartbeat_request ld (of_nat k + 1)"
  obtains n where "handle_append_entries_request E now q fo = append_finish E now q n"
    and "rn_logs n = log_prefix (k + 64) (rn_logs ld)" and "rn_snapshotter n = rn_snapshotter fo"
proof -
  note q = heartbeat_prefix_request [OF wf k base max, folded q_def]
  have wff: "log_wf (rn_logs fo)" using log_prefix_wf [OF wf] fl by simp
  have t': "current_term fo \<le> aeq_term q" using t by (simp add: q)
  have prev: "get_term (rn_logs fo) (aeq_prev_log_index q) = Some (aeq_prev_log_term q)" using q(2,4) fl by simp
  from append_request_accept [OF wr ok t' wff prev] obtain n2 where
    n2: "rn_logs n2 = rn_logs fo" "rn_snapshotter n2 = rn_snapshotter fo"
    "handle_append_entries_request E now q fo = co_await (store_entries E (aeq_entries q) n2) (append_finish E now q)" by blast
  obtain db where "store_entries E (aeq_entries q) n2 = Done (n2\<lparr>rn_persister := db, rn_logs := log_prefix (k + 64) (rn_logs ld)\<rparr>)"
    unfolding q(3) by (rule prefix_stored [OF wf k _ base wr ok max]) (use n2(1) fl in simp_all)
  with n2 show thesis
    by (intro that [of "n2\<lparr>rn_persister := db, rn_logs := log_prefix (k + 64) (rn_logs ld)\<rparr>"]) simp_all
qed

lemma replicate_prefix:
  fixes E :: "('db, 'fs, 'tok) env" and fo :: "('db, 'fs) RaftNode" and ld :: "('db1, 'fs1) RaftNode"
  assumes wf: "log_wf (rn_logs ld)" and k: "k \<le> length (rl_entries (rn_logs ld))"
    and fl: "rn_logs fo = log_prefix k (rn_logs ld)" and fresh: "fresh_log (rn_logs fo)"
    and un: "\<not> sp_locked (rn_snapshotter fo)" and t: "current_term fo \<le> current_term ld"
    and wr: "writes_ok (env_db E)" and ok: "env_ok E view"
    and max: "length (rl_entries (rn_logs ld)) < 2 ^ 64 - 1"
  obtains fo' r rs where
    "handle_append_entries_request E now (heartbeat_request ld (rl_last_included_index (rn_logs ld) + of_nat k + 1)) fo = Done (fo', r, rs)"
    "aer_success r" "rn_logs fo' = log_prefix (k + 64) (rn_logs ld)"
    "aer_last_log_index r = last_log_index (log_prefix (k + 64) (rn_logs ld))"
proof -
  let ?q = "heartbeat_request ld (of_nat k + 1)"
  have base: "rl_last_included_index (rn_logs ld) = 0" using fresh fl by (simp add: fresh_log_def log_prefix_def)
  obtain n where h: "handle_append_entries_request E now ?q fo = append_finish E now ?q n"
    and n: "rn_logs n = log_prefix (k + 64) (rn_logs ld)" "rn_snapshotter n = rn_snapshotter fo"
    using replicate_store [OF wf k fl base t wr ok max] by blast
  have "fresh_log (rn_logs n)"
    using fresh fl n(1) log_prefix_wf [OF wf] by (simp add: fresh_log_def log_prefix_def)
  then obtain n' rs where fin: "append_finish E now ?q n =
      Done (n', make_append_entries_response (member_id (rn_transport n)) (aeq_term ?q) True (last_log_index (rn_logs n)) None, rs)"
    and n': "rn_logs n' = rn_logs n"
    using append_finish_ok [of n E now ?q] un n(2) by metis
  have "rl_last_included_index (rn_logs ld) + of_nat k + 1 = of_nat k + 1" by (simp add: base)
  note that' = that [unfolded this]
  show thesis
    by (rule that' [OF trans [OF h fin]]) (simp_all add: make_append_entries_response_def Let_def n' n(1))
qed

end
