(* ===== verification/Raft_Client.thy ===== *)
theory Raft_Client
  imports Raft_Replicate
begin

text \<open>
  A client write from its arrival at the leader to the response; a snapshot from its chunks;
  a node from what is on disk.
\<close>

section \<open>A write and its response\<close>

lemma submit_log:
  assumes "log_wf (rn_logs n)" and "last_log_index (rn_logs n) \<noteq> - 1"
  shows "log_wf (rn_logs (submit E h c r n))"
    and "last_log_index (rn_logs (submit E h c r n)) = last_log_index (rn_logs n) + 1"
proof -
  let ?e = "LogEntry_default\<lparr>le_term := current_term n, le_index := last_log_index (rn_logs n) + 1,
    le_command := ser_command (env_codec E) c\<rparr>"
  have s: "rn_logs (submit E h c r n) = append_entries [?e] (rn_logs n)"
    by (simp add: submit_def Let_def append_entries_def)
  have "follows (last_log_index (rn_logs n)) [?e]"
    using unat_succ [OF assms(2)] by (simp add: follows_Cons)
  from log_append_wf [OF assms(1) this] s show "log_wf (rn_logs (submit E h c r n))" by simp
  show "last_log_index (rn_logs (submit E h c r n)) = last_log_index (rn_logs n) + 1"
    unfolding s by (simp add: append_entries_list last_log_index_def last_included_index_def)
qed

text \<open>The entry a write adds, applied next at the leader, resumes the client with the answer.\<close>

lemma submit_apply:
  fixes E :: "('db, 'fs, 'tok) env" and n :: "('db, 'fs) RaftNode" and c h r now
  assumes l: "fresh_log (rn_logs n)" and s: "\<not> sp_locked (rn_snapshotter n)" and ld: "rn_role n = kLeader"
    and max: "last_log_index (rn_logs n) \<noteq> - 1" and a: "rn_last_applied n = last_log_index (rn_logs n)"
  defines "e \<equiv> LogEntry_default\<lparr>le_term := current_term n, le_index := last_log_index (rn_logs n) + 1,
    le_command := ser_command (env_codec E) c\<rparr>"
  defines "p \<equiv> \<lparr>pr_handle = Some h, pr_response = r\<rparr>"
  obtains n' where
    "apply_entry E now ((submit E h c r n)\<lparr>rn_commit_index := last_log_index (rn_logs n) + 1\<rparr>) =
       Done (n', snd (sm_apply_entry (env_codec E) now e (append_request (last_log_index (rn_logs n) + 1) p (rn_state_machine n))))"
    "rn_state_machine n' =
       fst (sm_apply_entry (env_codec E) now e (append_request (last_log_index (rn_logs n) + 1) p (rn_state_machine n)))"
    "rn_last_applied n' = last_log_index (rn_logs n) + 1"
proof -
  define m where "m = (submit E h c r n)\<lparr>rn_commit_index := last_log_index (rn_logs n) + 1\<rparr>"
  have wf: "log_wf (rn_logs n)" and base: "rl_last_included_index (rn_logs n) = 0" using l by (simp_all add: fresh_log_def)
  have lm: "fresh_log (rn_logs m)" "last_log_index (rn_logs m) = last_log_index (rn_logs n) + 1"
    using l submit_log [OF wf max] by (simp_all add: m_def fresh_log_def submit_def Let_def append_entry_def)
  have lt: "rn_last_applied m < last_log_index (rn_logs n) + 1"
    using a max by (simp add: m_def submit_def Let_def less_succ_iff)
  have "unat (last_log_index (rn_logs n)) = length (rl_entries (rn_logs n))" using last_log_index_wf [OF wf] base by simp
  then have ent: "rl_entries (rn_logs m) ! unat (rn_last_applied m) = e"
    by (simp add: m_def submit_def Let_def append_entry_def a e_def nth_append)
  have ap: "applied_state E now e m =
      sm_apply_entry (env_codec E) now e (append_request (last_log_index (rn_logs n) + 1) p (rn_state_machine n))"
    using ld by (simp add: applied_state_def m_def submit_def Let_def p_def)
  have "\<not> sp_locked (rn_snapshotter m)" using s by (simp add: m_def submit_def Let_def)
  with lm lt obtain n' where n': "apply_one E now m = Done (n', snd (applied_state E now e m))"
    "rn_last_applied n' = rn_last_applied m + 1" "rn_state_machine n' = fst (applied_state E now e m)"
    using apply_one_ok [of m E now] ent by metis
  have "rn_last_applied n' = last_log_index (rn_logs n) + 1" using n'(2) a by (simp add: m_def submit_def Let_def)
  then have "apply_loop E now (last_log_index (rn_logs n) + 1) m = Done (n', snd (applied_state E now e m))"
    using lt n'(1) apply_loop_done [of "last_log_index (rn_logs n) + 1" n' E now]
    by (subst apply_loop.simps) simp
  then show thesis
    using n' ap a by (intro that [of n']) (simp_all add: apply_entry_def m_def submit_def Let_def)
qed

lemma pending_after_append:
  assumes "\<not> um_contains (sm_pending sm) i"
  shows "um_index PendingRequest_default i (sm_pending (append_request i p sm)) = (p, sm_pending (append_request i p sm))"
  using assms by (simp add: um_index_def append_request_def um_contains_def)

section \<open>Receiving a snapshot\<close>

fun feed :: "('db, 'fs, 'tok) env \<Rightarrow> u64 \<Rightarrow> InstallSnapshotRequest list \<Rightarrow> ('db, 'fs) RaftNode \<Rightarrow> ('db, 'fs) RaftNode outcome" where
  "feed E now [] n = Done n"
| "feed E now (q # qs) n = co_await (handle_install_snapshot_request E now q n) (\<lambda>(n', r). feed E now qs n')"

definition accept_chunk :: "u64 \<Rightarrow> InstallSnapshotRequest \<Rightarrow> ('db, 'fs) RaftNode \<Rightarrow> ('db, 'fs) RaftNode" where
  "accept_chunk now q n = n\<lparr>rn_leader_id := Some (isq_leader_id q), rn_last_reset_time := now,
     rn_snapshot_data := (if isq_offset q = 0 then [] else rn_snapshot_data n) @ isq_data q\<rparr>"

lemma accept_chunk_frame [simp]:
  "rn_state_machine (accept_chunk now q n) = rn_state_machine n" "rn_logs (accept_chunk now q n) = rn_logs n"
  "rn_hard_state (accept_chunk now q n) = rn_hard_state n"
  "rn_snapshot_data (accept_chunk now q n) = (if isq_offset q = 0 then [] else rn_snapshot_data n) @ isq_data q"
  by (simp_all add: accept_chunk_def)

lemma install_chunk:
  assumes "isq_term q = current_term n" and "\<not> isq_done q"
  shows "handle_install_snapshot_request E now q n =
    Done (accept_chunk now q n, make_install_snapshot_response (member_id (rn_transport n)) (current_term n))"
  using assms by (simp add: handle_install_snapshot_request_def Let_def accept_chunk_def)

lemma install_last_chunk:
  assumes "isq_term q = current_term n" and "isq_done q"
    and "par_snapshot (env_codec E) (rn_snapshot_data (accept_chunk now q n)) = Some sn"
  shows "\<exists>n'. handle_install_snapshot_request E now q n =
      Done (n', make_install_snapshot_response (member_id (rn_transport n)) (current_term n)) \<and>
    rn_state_machine n' = StateMachine_load_snapshot sn (rn_state_machine n) \<and>
    rn_logs n' = RaftLog_load_snapshot sn (rn_logs n)"
  using assms by (simp add: handle_install_snapshot_request_def Let_def accept_chunk_def)

lemma feed_rest:
  assumes "\<forall>q \<in> set qs. isq_term q = current_term n \<and> isq_offset q \<noteq> 0" and "qs \<noteq> []"
    and "\<forall>q \<in> set (butlast qs). \<not> isq_done q" and "isq_done (last qs)"
    and "par_snapshot (env_codec E) (rn_snapshot_data n @ concat (map isq_data qs)) = Some sn"
  shows "\<exists>n'. feed E now qs n = Done n' \<and> rn_state_machine n' = StateMachine_load_snapshot sn (rn_state_machine n) \<and>
    rn_logs n' = RaftLog_load_snapshot sn (rn_logs n)"
  using assms
proof (induction qs arbitrary: n)
  case (Cons q qs)
  show ?case
  proof (cases "qs = []")
    case True
    with Cons.prems install_last_chunk [of q n E now sn] show ?thesis by force
  next
    case False
    with Cons.prems have q: "isq_term q = current_term n" "\<not> isq_done q" "isq_offset q \<noteq> 0" by simp_all
    have "\<exists>n'. feed E now qs (accept_chunk now q n) = Done n' \<and>
        rn_state_machine n' = StateMachine_load_snapshot sn (rn_state_machine (accept_chunk now q n)) \<and>
        rn_logs n' = RaftLog_load_snapshot sn (rn_logs (accept_chunk now q n))"
      using Cons.prems False q by (intro Cons.IH) simp_all
    with install_chunk [OF q(1,2), of E now] show ?thesis by simp
  qed
qed simp

text \<open>The first chunk has offset 0 and discards what was received before.\<close>

lemma feed_snapshot:
  assumes "qs \<noteq> []" and "\<forall>q \<in> set qs. isq_term q = current_term n" and "isq_offset (hd qs) = 0"
    and "\<forall>q \<in> set (tl qs). isq_offset q \<noteq> 0" and "\<forall>q \<in> set (butlast qs). \<not> isq_done q" and "isq_done (last qs)"
    and "par_snapshot (env_codec E) (concat (map isq_data qs)) = Some sn"
  shows "\<exists>n'. feed E now qs n = Done n' \<and> rn_state_machine n' = StateMachine_load_snapshot sn (rn_state_machine n) \<and>
    rn_logs n' = RaftLog_load_snapshot sn (rn_logs n)"
proof -
  obtain q qs' where [simp]: "qs = q # qs'" using assms(1) by (cases qs) auto
  show ?thesis
  proof (cases "qs' = []")
    case True
    with assms install_last_chunk [of q n E now sn] show ?thesis by force
  next
    case False
    with assms have "\<exists>n'. feed E now qs' (accept_chunk now q n) = Done n' \<and>
        rn_state_machine n' = StateMachine_load_snapshot sn (rn_state_machine (accept_chunk now q n)) \<and>
        rn_logs n' = RaftLog_load_snapshot sn (rn_logs (accept_chunk now q n))"
      by (intro feed_rest) simp_all
    with False assms install_chunk [of q n E now] show ?thesis by simp
  qed
qed

section \<open>Starting from disk\<close>

lemma load_entries_log:
  assumes spec: "rocksdb_spec (env_db E) view" and rd: "reads_ok (env_db E) (rn_persister n)"
    and wf: "log_wf (rn_logs n)" and disk: "log_on_disk E view n"
    and end_of_log: "view (rn_persister n) (get_entry_key (last_log_index (rn_logs n) + 1)) = None"
  shows "load_entries (env_db E) (env_codec E) (last_included_index (rn_logs n)) (rn_persister n) =
    Some (Inr (rl_entries (rn_logs n)))"
proof -
  let ?l = "rn_logs n" and ?b = "last_included_index (rn_logs n)"
  have read: "st_log (on_disk E view (rn_persister n)) (?b + 1 + of_nat k) = Some (rl_entries ?l ! k)"
    if k: "k < length (rl_entries ?l)" for k
  proof -
    have u: "unat (?b + 1 + of_nat k) = unat ?b + Suc k"
      using k follows_bound [of ?b "rl_entries ?l"] wf unat_add_of_nat [of ?b "Suc k"]
      by (simp add: log_wf_def last_included_index_def add.assoc)
    then have i: "in_log ?l (?b + 1 + of_nat k)" using k by (simp add: in_log_wf [OF wf] last_included_index_def)
    then have "get_entry ?l (?b + 1 + of_nat k) = Some (rl_entries ?l ! k)"
      using u by (simp add: get_entry_wf [OF wf] arr_idx_in_log last_included_index_def)
    with disk i show ?thesis by (simp add: log_on_disk_def in_log_def)
  qed
  have "view (rn_persister n) (get_entry_key (?b + 1 + of_nat (length (rl_entries ?l)))) = None"
    using end_of_log by (simp add: last_log_index_def ac_simps)
  with load_entries_loop_reads [OF spec rd read] show ?thesis
    by (simp add: load_entries_def)
qed

end
