(* ===== verification/Raft_Example.thy ===== *)
theory Raft_Example
  imports Raft_Client
begin

text \<open>
  A concrete environment and a three-member cluster, on which the theorems are instantiated:
  a database that is a map, a codec that writes numbers in unary, a disk that is a map from
  paths to contents, and a token library that accepts one token. They satisfy what the
  theorems assume of the libraries (\<open>ex_env_ok\<close>).
\<close>

section \<open>A codec\<close>

definition enc_nat :: "nat \<Rightarrow> string" where
  "enc_nat k = replicate k (CHR ''1'') @ ''.''"

definition dec_nat :: "string \<Rightarrow> nat \<times> string" where
  "dec_nat s = (length (takeWhile (\<lambda>c. c = CHR ''1'') s), tl (dropWhile (\<lambda>c. c = CHR ''1'') s))"

definition enc_str :: "string \<Rightarrow> string" where
  "enc_str s = enc_nat (length s) @ s"

definition dec_str :: "string \<Rightarrow> string \<times> string" where
  "dec_str s = (case dec_nat s of (k, r) \<Rightarrow> (take k r, drop k r))"

lemma dec_enc_nat [simp]: "dec_nat (enc_nat k @ r) = (k, r)"
  by (induction k) (simp_all add: dec_nat_def enc_nat_def)

lemma dec_enc_str [simp]: "dec_str (enc_str s @ r) = (s, r)"
  by (simp add: dec_str_def enc_str_def)

definition ex_ser_hard :: "HardState \<Rightarrow> string" where
  "ex_ser_hard hs = enc_nat (unat (hs_current_term hs)) @
     (case hs_voted_for hs of None \<Rightarrow> [] | Some v \<Rightarrow> enc_nat (unat v))"

definition ex_par_hard :: "string \<Rightarrow> HardState option" where
  "ex_par_hard s = (case dec_nat s of (t, r) \<Rightarrow>
     Some \<lparr>hs_current_term = of_nat t, hs_voted_for = (if r = [] then None else Some (of_nat (fst (dec_nat r))))\<rparr>)"

definition ex_ser_entry :: "LogEntry \<Rightarrow> string" where
  "ex_ser_entry e = enc_nat (unat (le_term e)) @ enc_nat (unat (le_index e)) @ le_command e"

definition ex_par_entry :: "string \<Rightarrow> LogEntry option" where
  "ex_par_entry s = (case dec_nat s of (t, r) \<Rightarrow> case dec_nat r of (i, c) \<Rightarrow>
     Some \<lparr>le_term = of_nat t, le_index = of_nat i, le_command = c\<rparr>)"

text \<open>Commands without tokens and blocks; snapshots of an empty name space.\<close>

definition ex_ser_command :: "EntryCommand \<Rightarrow> string" where
  "ex_ser_command c = (case c of
      CmdMkdir q \<Rightarrow> ''m'' @ enc_nat (unat (mdq_timestamp q)) @ enc_str (mdq_parent_path q) @ enc_str (mdq_name q)
    | CmdUploadFile q \<Rightarrow> ''u'' @ enc_nat (unat (ufq_ino q)) @ enc_str (ufq_path q)
    | CmdNotSet \<Rightarrow> [])"

definition ex_par_command :: "string \<Rightarrow> EntryCommand option" where
  "ex_par_command s = (case s of
      [] \<Rightarrow> Some CmdNotSet
    | c # r \<Rightarrow>
        (case dec_nat r of (k, r1) \<Rightarrow> case dec_str r1 of (p, r2) \<Rightarrow>
           if c = CHR ''m''
           then Some (CmdMkdir \<lparr>mdq_token = [], mdq_parent_path = p, mdq_name = fst (dec_str r2), mdq_timestamp = of_nat k\<rparr>)
           else if c = CHR ''u''
           then Some (CmdUploadFile \<lparr>ufq_token = [], ufq_ino = of_nat k, ufq_path = p, ufq_blocks = []\<rparr>)
           else None))"

definition ex_ser_snapshot :: "Snapshot \<Rightarrow> string" where
  "ex_ser_snapshot s = enc_nat (unat (sn_last_included_index s)) @ enc_nat (unat (sn_last_included_term s))"

definition ex_par_snapshot :: "string \<Rightarrow> Snapshot option" where
  "ex_par_snapshot s = (case dec_nat s of (i, r) \<Rightarrow>
     Some (Snapshot_default\<lparr>sn_last_included_index := of_nat i, sn_last_included_term := of_nat (fst (dec_nat r))\<rparr>))"

definition ex_codec :: codec where
  "ex_codec = \<lparr>ser_hard_state = ex_ser_hard, par_hard_state = ex_par_hard, ser_entry = ex_ser_entry,
     par_entry = ex_par_entry, ser_command = ex_ser_command, par_command = ex_par_command,
     ser_snapshot = ex_ser_snapshot, par_snapshot = ex_par_snapshot\<rparr>"

lemma enc_nat_nonempty [simp]: "enc_nat k \<noteq> []"
  by (simp add: enc_nat_def)

lemma dec_enc_nat_end [simp]: "dec_nat (enc_nat k) = (k, [])"
  using dec_enc_nat [of k "[]"] by simp

lemma dec_enc_str_end [simp]: "dec_str (enc_str s) = (s, [])"
  using dec_enc_str [of s "[]"] by simp

lemma ex_codec_hard [simp]: "ex_par_hard (ex_ser_hard hs) = Some hs"
  by (cases hs) (simp add: ex_par_hard_def ex_ser_hard_def split: option.splits)

lemma ex_codec_entry [simp]: "ex_par_entry (ex_ser_entry e) = Some e"
  by (simp add: ex_par_entry_def ex_ser_entry_def)

lemma ex_codec_mkdir [simp]:
  "mdq_token q = [] \<Longrightarrow> ex_par_command (ex_ser_command (CmdMkdir q)) = Some (CmdMkdir q)"
  by (simp add: ex_par_command_def ex_ser_command_def)

lemma ex_codec_upload [simp]:
  "ufq_token q = [] \<Longrightarrow> ufq_blocks q = [] \<Longrightarrow> ex_par_command (ex_ser_command (CmdUploadFile q)) = Some (CmdUploadFile q)"
  by (simp add: ex_par_command_def ex_ser_command_def)

section \<open>A database, a disk and tokens\<close>

definition ex_db :: "(string \<rightharpoonup> string) rocksdb" where
  "ex_db = \<lparr>DB_Put = (\<lambda>db k v. (StOk, db(k \<mapsto> v))),
     DB_Get = (\<lambda>db k. case db k of None \<Rightarrow> (StNotFound, []) | Some v \<Rightarrow> (StOk, v)),
     DB_Delete = (\<lambda>db k. (StOk, db(k := None))),
     DB_Write = (\<lambda>db b. (StOk, fold apply_batch_op b db)),
     DB_Keys = (\<lambda>db. (StOk, []))\<rparr>"

definition ex_files :: "(string \<rightharpoonup> string) file_api" where
  "ex_files = \<lparr>fs_open_truncate = (\<lambda>fs p. (True, fs(p \<mapsto> []))),
     fs_write_all = (\<lambda>fs p d. (True, fs(p \<mapsto> d))),
     fs_rename = (\<lambda>fs p q. (fs p \<noteq> None, fs(q := fs p, p := None))),
     fs_open = (\<lambda>fs p. fs p \<noteq> None),
     fs_seek = (\<lambda>fs p off. True),
     fs_read_exact = (\<lambda>fs p off sz. case fs p of None \<Rightarrow> None
        | Some d \<Rightarrow> if unat off + unat sz \<le> length d then Some (take (unat sz) (drop (unat off) d)) else None),
     fs_ifstream = (\<lambda>fs p. fs p),
     fs_statx = (\<lambda>fs p. case fs p of None \<Rightarrow> Inl ENOENT | Some d \<Rightarrow> Inr (of_nat (length d)))\<rparr>"

definition ex_jwt :: "unit jwt" where
  "ex_jwt = \<lparr>jwt_decode = (\<lambda>s. if s = [] then Some () else None), jwt_verify = (\<lambda>_ _ _. True), jwt_claim = (\<lambda>_ _. None)\<rparr>"

type_synonym ex_env_type = "(string \<rightharpoonup> string, string \<rightharpoonup> string, unit) env"

definition ex_env :: ex_env_type where
  "ex_env = \<lparr>env_db = ex_db, env_open = (\<lambda>_. Some Map.empty), env_codec = ex_codec, env_files = ex_files,
     env_jwt = ex_jwt, env_hash = (\<lambda>x. x)\<rparr>"

lemma ex_env_simps [simp]:
  "env_db ex_env = ex_db" "env_codec ex_env = ex_codec" "env_files ex_env = ex_files" "env_jwt ex_env = ex_jwt"
  "env_hash ex_env x = x" "ser_hard_state ex_codec = ex_ser_hard" "par_hard_state ex_codec = ex_par_hard"
  "ser_entry ex_codec = ex_ser_entry" "par_entry ex_codec = ex_par_entry"
  "ser_command ex_codec = ex_ser_command" "par_command ex_codec = ex_par_command"
  "ser_snapshot ex_codec = ex_ser_snapshot" "par_snapshot ex_codec = ex_par_snapshot"
  "vertify_token ex_jwt [] = True"
  by (simp_all add: ex_env_def ex_codec_def ex_jwt_def vertify_token_def)

lemma ex_rocksdb_spec: "rocksdb_spec ex_db (\<lambda>db. db)"
  by (auto simp: rocksdb_spec_def ex_db_def split: option.splits)

lemma ex_reads_ok: "reads_ok ex_db db"
  by (simp add: reads_ok_def ex_db_def split: option.splits)

lemma ex_env_ok: "env_ok ex_env (\<lambda>db. db)"
  by (simp add: env_ok_def ex_rocksdb_spec)

lemma ex_save_hard_state [simp]: "save_hard_state ex_db C hs db = Done (db(HARD_STATE_KEY \<mapsto> ser_hard_state C hs))"
  by (simp add: save_hard_state_def engine_put_def ex_db_def)

lemma ex_save_entries [simp]: "save_entries ex_db C es db = Done (fold (put_raw C) es db)"
  using save_entries_view [OF ex_rocksdb_spec, of C es db] by (simp add: save_entries_def engine_batch_write_def ex_db_def)

section \<open>A cluster of three\<close>

definition ex_config :: "u64 \<Rightarrow> Config" where
  "ex_config i = set_member_id i (add_data_node 8 ''d'' ''h'' 1 (add_data_node 7 ''c'' ''h'' 1
     (add_raft_node 3 ''c'' ''h'' 3 (add_raft_node 2 ''b'' ''h'' 2 (add_raft_node 1 ''a'' ''h'' 1 builder_options)))))"

lemma ex_config_wf: "config_wf (ex_config i)"
proof -
  have "config_wf (add_raft_node 3 ''c'' ''h'' 3 (add_raft_node 2 ''b'' ''h'' 2 (add_raft_node 1 ''a'' ''h'' 1 builder_options)))"
    by (intro config_wf_add_raft_node config_wf_default)
  then show ?thesis by (simp add: ex_config_def config_wf_def set_member_id_def add_data_node_def)
qed

lemma ex_config_members: "fst ` set (cfg_raft_nodes (ex_config i)) = {1, 2, 3}" "cfg_member_id (ex_config i) = i"
  by (simp_all add: ex_config_def set_member_id_def add_data_node_def add_raft_node_def builder_options_def Config_default_def
      um_emplace_def um_contains_def um_find_def insert_commute)

definition ex_node :: "u64 \<Rightarrow> (string \<rightharpoonup> string, string \<rightharpoonup> string) RaftNode" where
  "ex_node i = RaftNode_init (Snapshotter_create ''s'' ''t'') (StateMachine_create (ex_config i))
     [HARD_STATE_KEY \<mapsto> ex_ser_hard HardState_default] Map.empty
     \<lparr>rl_last_included_index = 0, rl_last_included_term = 0, rl_entries = []\<rparr>
     (Transport_create (ex_config i)) HardState_default"

lemma ex_node_inv: "node_inv ex_env (\<lambda>db. db) (ex_node i)"
  by (simp add: node_inv_def ex_env_ok durable_term_def ex_node_def RaftNode_init_def stored_of_def)

lemma ex_writes_ok: "writes_ok ex_db"
  by (simp add: writes_ok_def ex_db_def)

text \<open>Logs of the first entries of term 1, and nodes that hold them in memory and on disk.\<close>

definition ex_entry :: "u64 \<Rightarrow> LogEntry" where
  "ex_entry i = \<lparr>le_term = 1, le_index = i, le_command = []\<rparr>"

definition ex_log :: "LogEntry list \<Rightarrow> RaftLog" where
  "ex_log es = \<lparr>rl_last_included_index = 0, rl_last_included_term = 0, rl_entries = es\<rparr>"

definition ex_follower :: "LogEntry list \<Rightarrow> (string \<rightharpoonup> string, string \<rightharpoonup> string) RaftNode" where
  "ex_follower es = (ex_node 2)\<lparr>rn_logs := ex_log es,
     rn_hard_state := \<lparr>hs_current_term = 1, hs_voted_for = None\<rparr>,
     rn_persister := fold (put_raw ex_codec) es [HARD_STATE_KEY \<mapsto> ex_ser_hard \<lparr>hs_current_term = 1, hs_voted_for = None\<rparr>]\<rparr>"

definition ex_leader :: "LogEntry list \<Rightarrow> (string \<rightharpoonup> string, string \<rightharpoonup> string) RaftNode" where
  "ex_leader es = (ex_node 1)\<lparr>rn_logs := ex_log es, rn_role := kLeader, rn_leader_id := Some 1,
     rn_hard_state := \<lparr>hs_current_term = 1, hs_voted_for = None\<rparr>,
     rn_next_index := [(1, 1), (2, 1), (3, 2)], rn_match_index := [(1, 0), (2, 0), (3, 0)]\<rparr>"

lemma ex_follower_simps [simp]:
  "rn_logs (ex_follower es) = ex_log es" "current_term (ex_follower es) = 1" "voted_for (ex_follower es) = None"
  "rn_commit_index (ex_follower es) = 0" "rn_last_applied (ex_follower es) = 0" "rn_role (ex_follower es) = kFollower"
  "rn_snapshotter (ex_follower es) = Snapshotter_create ''s'' ''t''" "member_id (rn_transport (ex_follower es)) = 2"
  by (simp_all add: ex_follower_def ex_node_def RaftNode_init_def Transport_create_def member_id_def ex_config_def set_member_id_def)

lemma ex_leader_simps [simp]:
  "rn_logs (ex_leader es) = ex_log es" "current_term (ex_leader es) = 1" "rn_role (ex_leader es) = kLeader"
  "rn_commit_index (ex_leader es) = 0" "rn_last_applied (ex_leader es) = 0"
  "rn_snapshotter (ex_leader es) = Snapshotter_create ''s'' ''t''" "member_id (rn_transport (ex_leader es)) = 1"
  "rn_next_index (ex_leader es) = [(1, 1), (2, 1), (3, 2)]" "rn_match_index (ex_leader es) = [(1, 0), (2, 0), (3, 0)]"
  by (simp_all add: ex_leader_def ex_node_def RaftNode_init_def Transport_create_def member_id_def ex_config_def set_member_id_def)

lemma ex_log_simps [simp]:
  "rl_last_included_index (ex_log es) = 0" "rl_last_included_term (ex_log es) = 0" "rl_entries (ex_log es) = es"
  "last_included_index (ex_log es) = 0" "last_log_index (ex_log es) = of_nat (length es)"
  by (simp_all add: ex_log_def last_included_index_def last_log_index_def)

lemma ex_entry_simps [simp]: "le_term (ex_entry i) = 1" "le_index (ex_entry i) = i" "le_command (ex_entry i) = []"
  by (simp_all add: ex_entry_def)

lemma ex_log_fresh [simp]: "follows 0 es \<Longrightarrow> fresh_log (ex_log es)" "follows 0 es \<Longrightarrow> log_wf (ex_log es)"
  by (simp_all add: fresh_log_def log_wf_def)

lemma ex_unlocked [simp]: "\<not> sp_locked (Snapshotter_create p q)"
  by (simp add: Snapshotter_create_def)

lemma ex_follows [simp]: "follows 0 [ex_entry 1]" "follows 0 [ex_entry 1, ex_entry 2]" "follows 1 [ex_entry 2]"
  by (simp_all add: follows_Cons)

lemma ex_follower_on_disk:
  assumes "follows 0 es"
  shows "log_on_disk ex_env (\<lambda>db. db) (ex_follower es)"
proof -
  let ?db = "[HARD_STATE_KEY \<mapsto> ex_ser_hard \<lparr>hs_current_term = 1, hs_voted_for = None\<rparr>]"
  have "st_log (stored_of ex_codec (fold (put_raw ex_codec) es ?db)) = fold put_log es (st_log (stored_of ex_codec ?db))"
    by (simp add: stored_put_raws)
  moreover have "st_log (stored_of ex_codec ?db) = Map.empty" by (simp add: stored_of_def fun_eq_iff)
  ultimately show ?thesis
    using assms last_log_index_wf [of "ex_log es"]
    by (auto simp: log_on_disk_def ex_follower_def fold_put_log get_entry_wf in_log_wf arr_idx_in_log word_less_nat_alt)
qed

end
