(* ===== verification/Raft_Cluster.thy ===== *)
theory Raft_Cluster
  imports Raft_Example
begin

text \<open>
  Several members: the state of each and the messages on their way, in the order they were sent.
  \<open>emit_step\<close> is \<open>node_step\<close> together with what the node sends (a request to a peer, the reply of
  an RPC to its caller) and the clients it answers. An action is a timer or a client request at a
  member, or the delivery of one message, which is then gone; a message may be delivered late,
  before earlier ones, or never, and one to somebody who is no member is not. Members do not restart.
\<close>

datatype message =
    VoteRequest u64 RequestVoteRequest
  | VoteResponse u64 RequestVoteResponse
  | AppendRequest u64 AppendEntriesRequest
  | AppendResponse u64 AppendEntriesResponse
  | InstallRequest u64 InstallSnapshotRequest
  | InstallResponse u64 InstallSnapshotResponse

fun addressee :: "message \<Rightarrow> u64" where
  "addressee (VoteRequest i q) = i"
| "addressee (VoteResponse i r) = i"
| "addressee (AppendRequest i q) = i"
| "addressee (AppendResponse i r) = i"
| "addressee (InstallRequest i q) = i"
| "addressee (InstallResponse i r) = i"

text \<open>The handler that a message starts, at the addressee's clock.\<close>

fun event_of :: "u64 \<Rightarrow> message \<Rightarrow> event" where
  "event_of now (VoteRequest i q) = EvVoteRequest now q"
| "event_of now (VoteResponse i r) = EvVoteResponse now r"
| "event_of now (AppendRequest i q) = EvAppendRequest now q"
| "event_of now (AppendResponse i r) = EvAppendResponse now r"
| "event_of now (InstallRequest i q) = EvInstallRequest now q"
| "event_of now (InstallResponse i r) = EvInstallResponse now r"

type_synonym ('db, 'fs) emitted = "('db, 'fs) RaftNode \<times> message list \<times> resumed"

fun emit_step :: "('db, 'fs, 'tok) env \<Rightarrow> event \<Rightarrow> ('db, 'fs) RaftNode \<Rightarrow> ('db, 'fs) emitted outcome" where
  "emit_step E (EvElection now timeout) n =
     co_await (election_loop_body E now timeout n) (\<lambda>(n', q). Done (n',
       (case q of None \<Rightarrow> [] | Some q' \<Rightarrow> map (\<lambda>j. VoteRequest j q') (broadcast_targets (rn_transport n'))), []))"
| "emit_step E (EvElectionEnd now) n = Done (election_loop_end now n, [], [])"
| "emit_step E EvHeartbeat n =
     co_await (heartbeat_loop_body E n) (\<lambda>(n', out). Done (n',
       map (\<lambda>(i, q). InstallRequest i q) (ms_install out) @ map (\<lambda>(i, q). AppendRequest i q) (ms_append out), []))"
| "emit_step E (EvVoteRequest now q) n =
     co_await (handle_request_vote_request E now q n) (\<lambda>(n', r). Done (n', [VoteResponse (rvq_candidate_id q) r], []))"
| "emit_step E (EvVoteResponse now r) n =
     co_await (handle_request_vote_response E now r n) (\<lambda>n'. Done (n', [], []))"
| "emit_step E (EvAppendRequest now q) n =
     co_await (handle_append_entries_request E now q n) (\<lambda>(n', r, rs). Done (n', [AppendResponse (aeq_leader_id q) r], rs))"
| "emit_step E (EvAppendResponse now r) n =
     co_await (handle_append_entries_response E now r n) (\<lambda>(n', rs). Done (n', [], rs))"
| "emit_step E (EvInstallRequest now q) n =
     co_await (handle_install_snapshot_request E now q n) (\<lambda>(n', r). Done (n', [InstallResponse (isq_leader_id q) r], []))"
| "emit_step E (EvInstallResponse now r) n =
     co_await (handle_install_snapshot_response E now r n) (\<lambda>(n', out). Done (n', map (\<lambda>(i, q). InstallRequest i q) out, []))"
| "emit_step E (EvMakeDir now h q) n =
     (case handle_make_dir_request E now h q n of (n', r) \<Rightarrow> Done (n', [], case r of None \<Rightarrow> [] | Some a \<Rightarrow> [(h, RespMkdir a)]))"
| "emit_step E (EvPrepareUpload q) n =
     co_await (handle_prepare_upload_file_request E q n) (\<lambda>(n', r). Done (n', [], []))"
| "emit_step E (EvUpload h q) n =
     (case handle_upload_file_request E h q n of (n', r) \<Rightarrow> Done (n', [], case r of None \<Rightarrow> [] | Some a \<Rightarrow> [(h, RespUploadFile a)]))"
| "emit_step E EvShutdown n = Done (shutdown n, [], [])"

lemma emit_step_node: "emit_step E ev n = Done (n', ms, rs) \<Longrightarrow> node_step E ev n = Done n'"
  by (cases ev) (auto simp: co_await_Done_iff map_fst_Done split: prod.splits)

section \<open>The cluster\<close>

text \<open>
  The last three components are the history of the run: every message that was sent, the members
  that have led with their terms, and the members that granted a vote in a term they were leading.
\<close>

record ('db, 'fs) cluster =
  cl_members :: "u64 list"
  cl_node :: "u64 \<Rightarrow> ('db, 'fs) RaftNode"
  cl_net :: "message list"
  cl_answers :: resumed
  cl_sent :: "message list"
  cl_leaders :: "(u64 \<times> u64) list"
  cl_leader_votes :: "(u64 \<times> u64) list"

fun grants :: "message \<Rightarrow> bool" where
  "grants (VoteResponse i r) \<longleftrightarrow> rvr_vote_granted r"
| "grants _ \<longleftrightarrow> False"

definition cluster_update :: "u64 \<Rightarrow> ('db, 'fs) emitted \<Rightarrow> ('db, 'fs) cluster \<Rightarrow> ('db, 'fs) cluster" where
  "cluster_update i s c =
     (case s of (n', ms, rs) \<Rightarrow>
        c\<lparr>cl_node := (cl_node c)(i := n'), cl_net := cl_net c @ ms, cl_answers := cl_answers c @ rs,
          cl_sent := cl_sent c @ ms,
          cl_leaders := cl_leaders c @ (if rn_role n' = kLeader then [(i, current_term n')] else []),
          cl_leader_votes := cl_leader_votes c @
            (if rn_role n' = kLeader \<and> list_ex grants ms then [(i, current_term n')] else [])\<rparr>)"

text \<open>An action of a member: its timers and the requests of its clients.\<close>

fun own_event :: "event \<Rightarrow> bool" where
  "own_event (EvElection now timeout) \<longleftrightarrow> True"
| "own_event (EvElectionEnd now) \<longleftrightarrow> True"
| "own_event EvHeartbeat \<longleftrightarrow> True"
| "own_event (EvMakeDir now h q) \<longleftrightarrow> True"
| "own_event (EvPrepareUpload q) \<longleftrightarrow> True"
| "own_event (EvUpload h q) \<longleftrightarrow> True"
| "own_event EvShutdown \<longleftrightarrow> True"
| "own_event _ \<longleftrightarrow> False"

datatype action = Act u64 event | Deliver nat u64

fun cluster_step :: "('db, 'fs, 'tok) env \<Rightarrow> action \<Rightarrow> ('db, 'fs) cluster \<Rightarrow> ('db, 'fs) cluster outcome" where
  "cluster_step E (Act i ev) c =
     (if i \<in> set (cl_members c) \<and> own_event ev
      then co_await (emit_step E ev (cl_node c i)) (\<lambda>s. Done (cluster_update i s c))
      else Done c)"
| "cluster_step E (Deliver k now) c =
     (if k < length (cl_net c) \<and> addressee (cl_net c ! k) \<in> set (cl_members c)
      then (let m = cl_net c ! k; i = addressee m in
        co_await (emit_step E (event_of now m) (cl_node c i))
          (\<lambda>s. Done (cluster_update i s (c\<lparr>cl_net := take k (cl_net c) @ drop (Suc k) (cl_net c)\<rparr>))))
      else Done c)"

definition new_cluster :: "u64 list \<Rightarrow> (u64 \<Rightarrow> ('db, 'fs) RaftNode) \<Rightarrow> ('db, 'fs) cluster" where
  "new_cluster members nodes =
     \<lparr>cl_members = members, cl_node = nodes, cl_net = [], cl_answers = [], cl_sent = [], cl_leaders = [], cl_leader_votes = []\<rparr>"

section \<open>Two leaders\<close>

definition ex_cluster :: "(string \<rightharpoonup> string, string \<rightharpoonup> string) cluster" where
  "ex_cluster = new_cluster [1, 2, 3] ex_node"

text \<open>
  Members 1 and 2 start an election for term 1. Member 3 votes for member 1, which leads. Then
  member 1 receives the request of member 2.
\<close>

definition ex_actions :: "action list" where
  "ex_actions = [Act 1 (EvElection 1000 150), Act 2 (EvElection 1000 150), Deliver 1 1000, Deliver 3 1000, Deliver 1 1000, Deliver 2 1000]"

lemma ex_run:
  "case run (cluster_step ex_env) ex_actions ex_cluster of
     Done c \<Rightarrow> rn_role (cl_node c 1) = kLeader \<and> rn_role (cl_node c 2) = kLeader \<and>
       current_term (cl_node c 1) = 1 \<and> current_term (cl_node c 2) = 1
   | _ \<Rightarrow> False"
  by code_simp

end
