(* ===== verification/Raft_Theorems.thy ===== *)
theory Raft_Theorems
  imports Raft_Cluster
begin

text \<open>
  The properties of the Raft node: terms and votes, replication, commitment, snapshots and
  restart, each with an instance on the concrete cluster of \<open>Raft_Example\<close>.
\<close>

section \<open>Terms and votes\<close>

text \<open>
  C20. Whatever messages, timers and client requests a node handles, and in whatever
  order, its current term never goes back (until it has reached the greatest 64-bit value).
\<close>

theorem node_terms_monotone:
  assumes "node_inv E view n0" and "reachable (node_step E) term_guard n0 n"
  shows "current_term n0 \<le> current_term n"
  using node.reachable_le [OF assms(2,1)] by (auto simp: term_le_def)

lemma ex_election_step:
  "\<exists>n. node_step ex_env (EvElection 1000 150) (ex_node 1) = Done n \<and> current_term n = 1 \<and>
     rn_role n = kCandidate \<and> voted_for n = Some 1"
proof -
  have "case node_step ex_env (EvElection 1000 150) (ex_node 1) of
      Done n \<Rightarrow> current_term n = 1 \<and> rn_role n = kCandidate \<and> voted_for n = Some 1 | _ \<Rightarrow> False"
    by code_simp
  then show ?thesis by (auto split: outcome.splits)
qed

lemma ex_election_reachable:
  obtains n where "reachable (node_step ex_env) term_guard (ex_node 1) n" "current_term n = 1"
    "rn_role n = kCandidate" "voted_for n = Some 1"
proof -
  obtain n where n: "node_step ex_env (EvElection 1000 150) (ex_node 1) = Done n" "current_term n = 1"
    "rn_role n = kCandidate" "voted_for n = Some 1" using ex_election_step by blast
  have "term_guard (ex_node 1)" by (simp add: term_guard_def ex_node_def RaftNode_init_def HardState_default_def)
  then have "reachable (node_step ex_env) term_guard (ex_node 1) n"
    using n(1) by (intro reachable.step [OF reachable.start])
  with n(2-) show thesis by (intro that)
qed

theorem node_terms_monotone_witness:
  "\<exists>n. reachable (node_step ex_env) term_guard (ex_node 1) n \<and> current_term n = 1 \<and>
     current_term (ex_node 1) \<le> current_term n"
  using ex_election_reachable node_terms_monotone [OF ex_node_inv] by metis

text \<open>
  C11. In every state a node reaches, the term stored in the database is the term in
  memory: a node that restarts does not forget the term it was in.
\<close>

theorem durable_term_always:
  assumes "node_inv E view n0" and "reachable (node_step E) term_guard n0 n"
  shows "map_option hs_current_term (st_hard (stored_of (env_codec E) (view (rn_persister n)))) =
    Some (current_term n)"
  using node.reachable_inv [OF assms(2,1)] by (simp add: node_inv_def durable_term_def)

theorem durable_term_always_witness:
  "\<exists>n. reachable (node_step ex_env) term_guard (ex_node 1) n \<and>
     map_option hs_current_term (st_hard (stored_of ex_codec (rn_persister n))) = Some 1"
  using ex_election_reachable durable_term_always [OF ex_node_inv] by (metis ex_env_simps(2))

text \<open>
  C10. A node that has given its vote to \<open>c\<close> and has not become leader since grants no
  other candidate its vote in the same term, whatever it has handled in between.
\<close>

theorem vote_once_per_term:
  assumes "node_inv E view n0" and "reachable (node_step E) term_guard n0 n" and "voted_for n0 = Some c"
    and "current_term n = current_term n0" and "rn_role n \<noteq> kLeader"
    and "rvq_term q = current_term n" and "handle_request_vote_request E now q n = Done (n', r)"
    and "rvr_vote_granted r"
  shows "rvq_candidate_id q = c"
proof -
  have "voted_for n = Some c"
    using node.reachable_le [OF assms(2,1)] assms(3-5) by (auto simp: term_le_def)
  with assms(6-8) show ?thesis
    by (auto simp: handle_request_vote_request_def Let_def make_request_vote_response_def split: if_splits)
qed

definition ex_voted :: "(string \<rightharpoonup> string, string \<rightharpoonup> string) RaftNode" where
  "ex_voted = (ex_follower [])\<lparr>rn_hard_state := \<lparr>hs_current_term = 1, hs_voted_for = Some 3\<rparr>\<rparr>"

lemma ex_follower_inv: "follows 0 es \<Longrightarrow> node_inv ex_env (\<lambda>db. db) (ex_follower es)"
  using stored_put_raws [of es ex_codec] ex_env_ok
  by (simp add: node_inv_def durable_term_def ex_follower_def ex_node_def RaftNode_init_def)
    (simp add: stored_of_def)

lemma ex_voted_inv: "node_inv ex_env (\<lambda>db. db) ex_voted"
  using ex_follower_inv [of "[]"] by (simp add: node_inv_def durable_term_def ex_voted_def)

theorem vote_once_per_term_witness:
  "\<exists>n' r. handle_request_vote_request ex_env 5 (make_request_vote_request 1 3 0 0) ex_voted = Done (n', r) \<and>
     rvr_vote_granted r \<and> rvq_candidate_id (make_request_vote_request 1 3 0 0) = 3"
proof -
  have "\<exists>n' r. handle_request_vote_request ex_env 5 (make_request_vote_request 1 3 0 0) ex_voted = Done (n', r) \<and>
      rvr_vote_granted r"
    by (simp add: handle_request_vote_request_def Let_def make_request_vote_request_def ex_voted_def last_log_term_def
        make_request_vote_response_def)
  then obtain n' r where h: "handle_request_vote_request ex_env 5 (make_request_vote_request 1 3 0 0) ex_voted = Done (n', r)"
    "rvr_vote_granted r" by blast
  moreover have "rvq_candidate_id (make_request_vote_request 1 3 0 0) = 3"
    by (rule vote_once_per_term [OF ex_voted_inv reachable.start _ _ _ _ h])
      (simp_all add: ex_voted_def make_request_vote_request_def)
  ultimately show ?thesis by blast
qed

text \<open>
  C35. Election safety does not hold: since a new leader clears its vote, it votes
  for the next candidate of its own term. Three members reach a state with two leaders of term 1,
  each message being delivered once.
\<close>

theorem two_leaders_in_one_term:
  "\<exists>c. reachable (cluster_step ex_env) (\<lambda>_. True) ex_cluster c \<and>
     rn_role (cl_node c 1) = kLeader \<and> rn_role (cl_node c 2) = kLeader \<and>
     current_term (cl_node c 1) = 1 \<and> current_term (cl_node c 2) = 1"
proof (cases "run (cluster_step ex_env) ex_actions ex_cluster")
  case (Done c)
  with ex_run have "rn_role (cl_node c 1) = kLeader \<and> rn_role (cl_node c 2) = kLeader \<and>
    current_term (cl_node c 1) = 1 \<and> current_term (cl_node c 2) = 1" by (simp only: outcome.case)
  with run_reachable [OF Done] show ?thesis by (intro exI conjI) blast+
qed (use ex_run in \<open>simp_all only: outcome.case\<close>)

text \<open>
  A vote, append or snapshot request of an older term changes nothing at the
  node, which answers with its own term and refuses.
\<close>

theorem stale_requests_refused:
  "(rvq_term v < current_term n \<longrightarrow> handle_request_vote_request E now v n =
      Done (n, make_request_vote_response (member_id (rn_transport n)) (current_term n) False)) \<and>
   (aeq_term a < current_term n \<longrightarrow> handle_append_entries_request E now a n =
      Done (n, make_append_entries_response (member_id (rn_transport n)) (current_term n) False
        (last_log_index (rn_logs n)) None, [])) \<and>
   (isq_term i < current_term n \<longrightarrow> handle_install_snapshot_request E now i n =
      Done (n, make_install_snapshot_response (member_id (rn_transport n)) (current_term n)))"
  by (simp add: handle_request_vote_request_def handle_append_entries_request_def
      handle_install_snapshot_request_def Let_def)

theorem stale_requests_refused_witness:
  "rvq_term RequestVoteRequest_default < current_term (ex_follower []) \<and>
   handle_request_vote_request ex_env 5 RequestVoteRequest_default (ex_follower []) =
     Done (ex_follower [], make_request_vote_response 2 1 False)"
  using stale_requests_refused [of RequestVoteRequest_default "ex_follower []" ex_env 5]
  by (simp add: RequestVoteRequest_default_def)

section \<open>Replication\<close>


definition ex_batch :: AppendEntriesRequest where
  "ex_batch = make_append_entries_request 1 1 1 1 [ex_entry 2] 0"

lemma ex_batch_simps [simp]:
  "aeq_term ex_batch = 1" "aeq_prev_log_index ex_batch = 1" "aeq_prev_log_term ex_batch = 1"
  "aeq_entries ex_batch = [ex_entry 2]" "aeq_leader_commit ex_batch = 0" "aeq_leader_id ex_batch = 1"
  by (simp_all add: ex_batch_def make_append_entries_request_def)

lemma ex_get_term [simp]: "get_term (ex_log [ex_entry 1]) 1 = Some 1" "get_term (ex_log [ex_entry 1, ex_entry 2]) 1 = Some 1"
  by (simp_all add: get_term_wf in_log_wf arr_idx_in_log)




text \<open>
  When the entry before the batch is missing or has another term, nothing is
  stored: the log, the entries on disk and the commit index stay, and the answer carries the
  position that did not match.
\<close>

theorem append_mismatch_refused:
  assumes "log_wf (rn_logs n)" and "writes_ok (env_db E)" and "env_ok E view" and "current_term n \<le> aeq_term q"
    and "get_term (rn_logs n) (aeq_prev_log_index q) \<noteq> Some (aeq_prev_log_term q)"
  shows "\<exists>n' r. handle_append_entries_request E now q n = Done (n', r, []) \<and> \<not> aer_success r \<and>
    aer_conflict_index r = Some (aeq_prev_log_index q) \<and> aer_term r = aeq_term q \<and>
    rn_logs n' = rn_logs n \<and> rn_commit_index n' = rn_commit_index n \<and>
    st_log (stored_of (env_codec E) (view (rn_persister n'))) = st_log (stored_of (env_codec E) (view (rn_persister n)))"
proof -
  from rise_Done [OF assms(2,3,4)] obtain n1 where
    n1: "(if aeq_term q > current_term n then increase_term_to E now (aeq_term q) n else Done n) = Done n1"
    "rn_logs n1 = rn_logs n" "rn_commit_index n1 = rn_commit_index n"
    "st_log (stored_of (env_codec E) (view (rn_persister n1))) = st_log (stored_of (env_codec E) (view (rn_persister n)))"
    by metis
  have "prev_log_ok q (rn_logs n) = Done False"
    using rlog.term_at_iff [OF assms(1), of "aeq_prev_log_index q"] assms(5) by (auto simp: prev_log_ok_def)
  moreover have "\<not> aeq_term q < current_term n"
    "(if current_term n < aeq_term q then aeq_term q else current_term n) = aeq_term q"
    using assms(4) by auto
  ultimately show ?thesis
    using n1 by (simp add: handle_append_entries_request_def Let_def make_append_entries_response_def)
qed

theorem append_mismatch_refused_witness:
  "\<exists>n' r. handle_append_entries_request ex_env 5 ex_batch (ex_follower []) = Done (n', r, []) \<and> \<not> aer_success r \<and>
     aer_conflict_index r = Some 1"
proof -
  have "get_term (ex_log []) 1 = None" by (simp add: get_term_wf in_log_wf)
  then have "\<exists>n' r. handle_append_entries_request ex_env 5 ex_batch (ex_follower []) = Done (n', r, []) \<and> \<not> aer_success r \<and>
      aer_conflict_index r = Some (aeq_prev_log_index ex_batch) \<and> aer_term r = aeq_term ex_batch \<and>
      rn_logs n' = rn_logs (ex_follower []) \<and> rn_commit_index n' = rn_commit_index (ex_follower []) \<and>
      st_log (stored_of (env_codec ex_env) (rn_persister n')) = st_log (stored_of (env_codec ex_env) (rn_persister (ex_follower [])))"
    by (intro append_mismatch_refused [where view = "\<lambda>db. db"]) (simp_all add: ex_writes_ok ex_env_ok)
  then show ?thesis by (simp only: ex_batch_simps) blast
qed

text \<open>
  As long as every next index lies in the log or right behind it, an iteration of
  the leader's heartbeat returns without touching the node, and the request to each other member
  names the entry before its next index and carries up to 64 entries from there on.
\<close>

theorem heartbeat_sends_suffix:
  assumes "rn_role n = kLeader" and "log_wf (rn_logs n)" and "um_wf (rn_next_index n)"
    and "\<forall>p \<in> set (rn_next_index n). next_ok n p \<and> unicast_target (rn_transport n) (fst p) \<noteq> None"
  shows "\<exists>out. heartbeat_loop_body E n = Done (n, out) \<and> ms_install out = [] \<and>
    (\<forall>m. um_find (ms_append out) m =
       (if m = member_id (rn_transport n) then None else map_option (heartbeat_request n) (um_find (rn_next_index n) m)))"
proof -
  from heartbeat_members_ok [of n "rn_next_index n" "\<lparr>ms_append = [], ms_install = []\<rparr>" E] assms obtain out where
    o: "heartbeat_members E (rn_next_index n) (n, \<lparr>ms_append = [], ms_install = []\<rparr>) = Done (n, out)" "ms_install out = []"
    "\<And>m. um_find (ms_append out) m = (case map_of (rn_next_index n) m of
       Some nxt \<Rightarrow> if m = member_id (rn_transport n) then None else Some (heartbeat_request n nxt) | None \<Rightarrow> None)"
    "\<forall>p \<in> set (ms_append out). fst p \<in> fst ` set (rn_next_index n)"
    by (auto simp: um_wf_def cong: option.case_cong if_cong)
  have "list_all (\<lambda>(m, _). unicast_target (rn_transport n) m \<noteq> None) (ms_append out)"
    using o(4) assms(4) by (fastforce simp: list_all_iff)
  with o(1) assms(1) have "heartbeat_loop_body E n = Done (n, out)" by (simp add: heartbeat_loop_body_def)
  with o(2,3) show ?thesis by (auto simp: um_find_def split: option.splits)
qed

theorem heartbeat_sends_suffix_witness:
  "\<exists>out. heartbeat_loop_body ex_env (ex_leader [ex_entry 1]) = Done (ex_leader [ex_entry 1], out) \<and>
     um_find (ms_append out) 2 = Some (heartbeat_request (ex_leader [ex_entry 1]) 1)"
proof -
  have "\<exists>out. heartbeat_loop_body ex_env (ex_leader [ex_entry 1]) = Done (ex_leader [ex_entry 1], out) \<and> ms_install out = [] \<and>
    (\<forall>m. um_find (ms_append out) m = (if m = member_id (rn_transport (ex_leader [ex_entry 1])) then None
       else map_option (heartbeat_request (ex_leader [ex_entry 1])) (um_find (rn_next_index (ex_leader [ex_entry 1])) m)))"
  proof (rule heartbeat_sends_suffix)
    have "unicast_target (rn_transport (ex_leader [ex_entry 1])) 1 \<noteq> None" by code_simp
    moreover have "unicast_target (rn_transport (ex_leader [ex_entry 1])) 2 \<noteq> None" by code_simp
    moreover have "unicast_target (rn_transport (ex_leader [ex_entry 1])) 3 \<noteq> None" by code_simp
    ultimately show "\<forall>p \<in> set (rn_next_index (ex_leader [ex_entry 1])).
        next_ok (ex_leader [ex_entry 1]) p \<and> unicast_target (rn_transport (ex_leader [ex_entry 1])) (fst p) \<noteq> None"
      by (simp add: next_ok_def)
  qed (simp_all add: um_wf_def)
  then show ?thesis by (auto simp: um_find_def)
qed

text \<open>
  A leader that has recorded a match index beyond its own log, because a follower with
  a longer log answered a heartbeat with success, fails an assertion at its next heartbeat.
\<close>

theorem heartbeat_crash:
  assumes "rn_role n = kLeader" and "log_wf (rn_logs n)"
    and "\<forall>p \<in> set (rn_next_index n). next_ok n p \<or> unat (snd p) > unat (last_log_index (rn_logs n)) + 1"
    and "(m, v + 1) \<in> set (rn_next_index n)" and "m \<noteq> member_id (rn_transport n)"
    and "v > last_log_index (rn_logs n)" and "v \<noteq> - 1"
  shows "heartbeat_loop_body E n = Crashed"
proof -
  have "unat (v + 1) > unat (last_log_index (rn_logs n)) + 1"
    using assms(6,7) by (simp add: unat_succ word_less_nat_alt)
  then have "heartbeat_members E (rn_next_index n) (n, \<lparr>ms_append = [], ms_install = []\<rparr>) = Crashed"
    using assms(4,5) by (intro heartbeat_members_crash [OF assms(2,3)]) force
  with assms(1) show ?thesis by (simp add: heartbeat_loop_body_def)
qed

text \<open>The leader's log is empty; member 2 holds one entry of an earlier term and says so.\<close>

definition ex_longer :: AppendEntriesResponse where
  "ex_longer = make_append_entries_response 2 1 True 1 None"

theorem heartbeat_crash_witness:
  "\<exists>n. handle_append_entries_response ex_env 5 ex_longer ((ex_leader [])\<lparr>rn_next_index := [(1, 1), (2, 1), (3, 1)]\<rparr>) = Done (n, []) \<and>
     heartbeat_loop_body ex_env n = Crashed"
proof -
  let ?n = "(ex_leader [])\<lparr>rn_next_index := [(1, 1), (2, 2), (3, 1)], rn_match_index := [(1, 0), (2, 1), (3, 0)]\<rparr>"
  have "handle_append_entries_response ex_env 5 ex_longer ((ex_leader [])\<lparr>rn_next_index := [(1, 1), (2, 1), (3, 1)]\<rparr>) = Done (?n, [])"
    by (simp add: handle_append_entries_response_def ex_longer_def make_append_entries_response_def Let_def
        AppendEntriesResponse_default_def um_assign_def commit_candidate_def um_values_def)
  moreover have "heartbeat_loop_body ex_env ?n = Crashed"
    by (rule heartbeat_crash [where m = 2 and v = 1]) (simp_all add: next_ok_def)
  ultimately show ?thesis by blast
qed



section \<open>Commitment and application\<close>

text \<open>
  C12. When the answer of a follower moves the leader's commit index, the new commit
  index is greater than the old one and at least half of the members, the leader itself not
  being among them, have acknowledged it: together with the leader they are a majority.
\<close>

theorem commit_needs_quorum:
  assumes "um_wf (rn_match_index n)" and "handle_append_entries_response E now r n = Done (n', rs)"
    and "rn_commit_index n' \<noteq> rn_commit_index n"
    and "um_find (rn_match_index n') self = Some 0"
  shows "rn_commit_index n < rn_commit_index n' \<and>
    self \<notin> acknowledged (rn_match_index n') (rn_commit_index n') \<and>
    length (rn_match_index n') < 2 * card (insert self (acknowledged (rn_match_index n') (rn_commit_index n')))"
proof -
  let ?m = "rn_match_index n'" and ?c = "rn_commit_index n'"
  from append_response_commit [OF assms(2)] assms(3) have
    m: "?m = um_assign (aer_id r) (aer_last_log_index r) (rn_match_index n)" and c: "?c = commit_candidate ?m"
    and lt: "rn_commit_index n < ?c" by auto
  have wf: "um_wf ?m" "?m \<noteq> []" using assms(1) m um_assign_nonempty by simp_all
  from lt have "0 < ?c" by (metis word_coorder.not_eq_extremum word_coorder.extremum_strict)
  then have self: "self \<notin> acknowledged ?m ?c" using assms(4) by (simp add: acknowledged_def not_le)
  have "length ?m - length ?m div 2 \<le> card (acknowledged ?m ?c)" using commit_candidate_quorum [OF wf] c by simp
  then have "length ?m < 2 * (card (acknowledged ?m ?c) + 1)" by arith
  with lt self show ?thesis by (simp add: finite_acknowledged)
qed

definition ex_ack :: "u64 \<Rightarrow> AppendEntriesResponse" where
  "ex_ack i = make_append_entries_response i 1 True 1 None"

definition ex_acked :: "(string \<rightharpoonup> string, string \<rightharpoonup> string) RaftNode" where
  "ex_acked = (ex_leader [ex_entry 1])\<lparr>rn_match_index := [(1, 0), (2, 1), (3, 0)]\<rparr>"

lemma ex_ack_run:
  "case handle_append_entries_response ex_env 5 (ex_ack 3) ex_acked of
     Done (n, rs) \<Rightarrow> rn_commit_index n = 1 \<and> rn_match_index n = [(1, 0), (2, 1), (3, 1)]
   | _ \<Rightarrow> False"
  by code_simp

theorem commit_needs_quorum_witness:
  "\<exists>n rs. handle_append_entries_response ex_env 5 (ex_ack 3) ex_acked = Done (n, rs) \<and> rn_commit_index n = 1 \<and>
     length (rn_match_index n) < 2 * card (insert 1 (acknowledged (rn_match_index n) (rn_commit_index n)))"
proof (cases "handle_append_entries_response ex_env 5 (ex_ack 3) ex_acked")
  case (Done x)
  obtain n rs where x: "x = (n, rs)" by (cases x)
  from ex_ack_run Done x have n: "rn_commit_index n = 1" "rn_match_index n = [(1, 0), (2, 1), (3, 1)]"
    by (simp_all only: outcome.case prod.case)
  have "rn_commit_index ex_acked < rn_commit_index n \<and> 1 \<notin> acknowledged (rn_match_index n) (rn_commit_index n) \<and>
      length (rn_match_index n) < 2 * card (insert 1 (acknowledged (rn_match_index n) (rn_commit_index n)))"
    by (rule commit_needs_quorum [of ex_acked ex_env 5 "ex_ack 3" n rs])
      (use Done x n in \<open>simp_all add: ex_acked_def um_wf_def um_find_def\<close>)
  with Done x n show ?thesis by blast
qed (use ex_ack_run in \<open>simp_all only: outcome.case\<close>)

text \<open>
  The leader's own element of the match indices stays 0, so with three members of
  which one has acknowledged nothing, no answer of the third one ever moves the commit index: a
  cluster of three does not survive the loss of one member.
\<close>

theorem three_members_one_down:
  assumes "um_wf (rn_match_index n)" and "set (um_keys (rn_match_index n)) = {self, down, other}"
    and "card {self, down, other} = 3"
    and "um_find (rn_match_index n) self = Some 0" and "um_find (rn_match_index n) down = Some 0"
    and "aer_id r = other" and "handle_append_entries_response E now r n = Done (n', rs)"
  shows "rn_commit_index n' = rn_commit_index n"
proof (rule ccontr)
  let ?m = "rn_match_index n'" and ?c = "rn_commit_index n'"
  assume "?c \<noteq> rn_commit_index n"
  with append_response_commit [OF assms(7)] have
    m: "?m = um_assign other (aer_last_log_index r) (rn_match_index n)" and c: "?c = commit_candidate ?m"
    and lt: "rn_commit_index n < ?c" using assms(6) by auto
  have wf: "um_wf ?m" "?m \<noteq> []" using assms(1) m um_assign_nonempty by simp_all
  have keys: "um_keys ?m = um_keys (rn_match_index n)" unfolding m by (rule um_keys_assign_present) (simp add: assms(2))
  have dist: "self \<noteq> other" "down \<noteq> other" using assms(3) by (auto simp: card_insert_if split: if_splits)
  have "0 < ?c" using lt by (metis word_coorder.not_eq_extremum word_coorder.extremum_strict)
  then have out: "self \<notin> acknowledged ?m ?c" "down \<notin> acknowledged ?m ?c"
    using assms(4,5) dist m by (auto simp: acknowledged_def)
  have "acknowledged ?m ?c \<subseteq> set (um_keys ?m)"
    by (auto simp: acknowledged_def um_contains_iff [symmetric] um_contains_def)
  with out keys assms(2) have "acknowledged ?m ?c \<subseteq> {other}" by auto
  then have "card (acknowledged ?m ?c) \<le> 1" using card_mono [of "{other}"] by fastforce
  moreover have "length ?m = 3" using um_length_keys [OF wf(1)] keys assms(2,3) by simp
  ultimately show False using commit_candidate_quorum [OF wf] c by simp
qed

theorem three_members_one_down_witness:
  "\<exists>n rs. handle_append_entries_response ex_env 5 (ex_ack 3) (ex_leader [ex_entry 1]) = Done (n, rs) \<and> rn_commit_index n = 0"
proof -
  have "\<exists>n rs. handle_append_entries_response ex_env 5 (ex_ack 3) (ex_leader [ex_entry 1]) = Done (n, rs)"
    by (simp add: handle_append_entries_response_def ex_ack_def make_append_entries_response_def Let_def
        AppendEntriesResponse_default_def um_assign_def commit_candidate_def um_values_def)
  then obtain n rs where h: "handle_append_entries_response ex_env 5 (ex_ack 3) (ex_leader [ex_entry 1]) = Done (n, rs)" by blast
  have "rn_commit_index n = rn_commit_index (ex_leader [ex_entry 1])"
    by (rule three_members_one_down [where self = 1 and down = 2 and other = 3, OF _ _ _ _ _ _ h])
      (auto simp: um_wf_def um_keys_def um_find_def ex_ack_def make_append_entries_response_def Let_def)
  with h show ?thesis by simp
qed

text \<open>
  C19. \<open>apply_entry\<close> returns with \<open>last_applied\<close> at the commit index, the log as it was, and
  the name space equal to the old one with the entries between the two positions applied once
  each, in log order, whether the node leads or follows.
\<close>

theorem apply_entry_in_order:
  assumes "fresh_log (rn_logs n)" and "\<not> sp_locked (rn_snapshotter n)"
    and "rn_commit_index n \<le> last_log_index (rn_logs n)" and "rn_last_applied n \<le> rn_commit_index n"
  shows "\<exists>n' rs. apply_entry E now n = Done (n', rs) \<and> rn_last_applied n' = rn_commit_index n \<and> rn_logs n' = rn_logs n \<and>
    replica (rn_state_machine n') =
      fold (sm_apply_entry_no_response (env_codec E) now)
        (take (unat (rn_commit_index n) - unat (rn_last_applied n)) (drop (unat (rn_last_applied n)) (rl_entries (rn_logs n))))
        (replica (rn_state_machine n))"
  using apply_loop_ok [OF assms, of E now] unfolding apply_entry_def by blast

theorem apply_entry_in_order_witness:
  "\<exists>n' rs. apply_entry ex_env 5 ((ex_leader [ex_entry 1])\<lparr>rn_commit_index := 1\<rparr>) = Done (n', rs) \<and> rn_last_applied n' = 1"
proof -
  let ?n = "(ex_leader [ex_entry 1])\<lparr>rn_commit_index := 1\<rparr>"
  have "\<exists>n' rs. apply_entry ex_env 5 ?n = Done (n', rs) \<and> rn_last_applied n' = rn_commit_index ?n \<and> rn_logs n' = rn_logs ?n \<and>
    replica (rn_state_machine n') =
      fold (sm_apply_entry_no_response (env_codec ex_env) 5)
        (take (unat (rn_commit_index ?n) - unat (rn_last_applied ?n)) (drop (unat (rn_last_applied ?n)) (rl_entries (rn_logs ?n))))
        (replica (rn_state_machine ?n))"
    by (rule apply_entry_in_order) simp_all
  then show ?thesis by auto
qed

end
