(* ===== verification/Raft_Service.thy ===== *)
theory Raft_Service
  imports Raft_Example
begin

text \<open>
  The properties of the services a node offers on top of replication: client requests,
  snapshots, and the start of a node from its disk.
\<close>

section \<open>Client requests\<close>

lemma mkdir_response_pending:
  "snd (mkdir_response q r (sm\<lparr>sm_pending := p\<rparr>)) = snd (mkdir_response q r sm)"
  by (simp add: mkdir_response_def Let_def split: option.splits)

lemma apply_pending_mkdir:
  assumes "\<not> um_contains (sm_pending sm) (le_index e)" and "par_command C (le_command e) = Some (CmdMkdir q)"
  shows "snd (sm_apply_entry C now e (append_request (le_index e) \<lparr>pr_handle = Some h, pr_response = RespMkdir r\<rparr> sm)) =
      [(h, RespMkdir (snd (mkdir_response q r sm)))]"
    and "replica (fst (sm_apply_entry C now e (append_request (le_index e) \<lparr>pr_handle = Some h, pr_response = RespMkdir r\<rparr> sm))) =
      replica (mkdir q sm)"
proof -
  let ?p = "\<lparr>pr_handle = Some h, pr_response = RespMkdir r\<rparr>"
  show "snd (sm_apply_entry C now e (append_request (le_index e) ?p sm)) = [(h, RespMkdir (snd (mkdir_response q r sm)))]"
    using pending_after_append [OF assms(1), of ?p] assms(2)
    by (simp add: sm_apply_entry_def Let_def split_beta mutable_mkdir_def resume_def append_request_def mkdir_response_pending)
  show "replica (fst (sm_apply_entry C now e (append_request (le_index e) ?p sm))) = replica (mkdir q sm)"
    unfolding apply_entry_replica using assms(2)
    by (simp add: sm_apply_entry_no_response_def append_request_def mkdir_pending replica_def)
qed

text \<open>
  A directory request at the leader is appended to the log and answers nothing
  yet; when its entry is the next one to be applied, the waiting client, and no other, receives
  the answer of the state machine, and the directory is there.
\<close>

theorem mkdir_request_answered:
  fixes n :: "('db, 'fs) RaftNode"
  assumes "rn_role n = kLeader" and "vertify_token (env_jwt E) (mdq_token q)"
    and "fresh_log (rn_logs n)" and "\<not> sp_locked (rn_snapshotter n)" and "last_log_index (rn_logs n) \<noteq> - 1"
    and "rn_last_applied n = last_log_index (rn_logs n)"
    and "\<not> um_contains (sm_pending (rn_state_machine n)) (last_log_index (rn_logs n) + 1)"
    and "par_command (env_codec E) (ser_command (env_codec E) (CmdMkdir (q\<lparr>mdq_timestamp := now\<rparr>))) =
      Some (CmdMkdir (q\<lparr>mdq_timestamp := now\<rparr>))"
  shows "\<exists>n1 n2. handle_make_dir_request E now h q n = (n1, None) \<and>
    last_log_index (rn_logs n1) = last_log_index (rn_logs n) + 1 \<and>
    apply_entry E now' (n1\<lparr>rn_commit_index := last_log_index (rn_logs n1)\<rparr>) =
      Done (n2, [(h, RespMkdir (snd (mkdir_response (q\<lparr>mdq_timestamp := now\<rparr>)
        (MakeDirResponse_default\<lparr>mdr_status_code := kFailed, mdr_message := msg_mkdir_unknown\<rparr>) (rn_state_machine n))))]) \<and>
    replica (rn_state_machine n2) = replica (mkdir (q\<lparr>mdq_timestamp := now\<rparr>) (rn_state_machine n))"
proof -
  let ?q = "q\<lparr>mdq_timestamp := now\<rparr>"
  let ?r = "MakeDirResponse_default\<lparr>mdr_status_code := kFailed, mdr_message := msg_mkdir_unknown\<rparr>"
  let ?i = "last_log_index (rn_logs n) + 1"
  define e where "e = LogEntry_default\<lparr>le_term := current_term n, le_index := ?i,
    le_command := ser_command (env_codec E) (CmdMkdir ?q)\<rparr>"
  have e: "le_index e = ?i" "par_command (env_codec E) (le_command e) = Some (CmdMkdir ?q)"
    using assms(8) by (simp_all add: e_def)
  have h: "handle_make_dir_request E now h q n = (submit E h (CmdMkdir ?q) (RespMkdir ?r) n, None)"
    using assms(1,2) by (simp add: handle_make_dir_request_def)
  have i: "last_log_index (rn_logs (submit E h (CmdMkdir ?q) (RespMkdir ?r) n)) = ?i"
    using assms(3,5) by (simp add: submit_log fresh_log_def)
  obtain n2 where n2: "apply_entry E now' ((submit E h (CmdMkdir ?q) (RespMkdir ?r) n)\<lparr>rn_commit_index := ?i\<rparr>) =
      Done (n2, snd (sm_apply_entry (env_codec E) now' e (append_request ?i \<lparr>pr_handle = Some h, pr_response = RespMkdir ?r\<rparr> (rn_state_machine n))))"
    "rn_state_machine n2 = fst (sm_apply_entry (env_codec E) now' e (append_request ?i \<lparr>pr_handle = Some h, pr_response = RespMkdir ?r\<rparr> (rn_state_machine n)))"
    using submit_apply [OF assms(3,4,1,5,6), where c = "CmdMkdir ?q" and r = "RespMkdir ?r" and E = E and h = h and now = now']
    unfolding e_def by metis
  have new: "\<not> um_contains (sm_pending (rn_state_machine n)) (le_index e)" using assms(7) e(1) by simp
  show ?thesis
    using h i n2 apply_pending_mkdir [OF new e(2), of now' h ?r] by (simp add: e(1))
qed

definition ex_mkdir :: MakeDirRequest where
  "ex_mkdir = MakeDirRequest_default\<lparr>mdq_parent_path := ''/'', mdq_name := ''a''\<rparr>"

theorem mkdir_request_answered_witness:
  "\<exists>n1 n2 r. handle_make_dir_request ex_env 9 4 ex_mkdir (ex_leader []) = (n1, None) \<and>
     apply_entry ex_env 10 (n1\<lparr>rn_commit_index := last_log_index (rn_logs n1)\<rparr>) = Done (n2, [(4, RespMkdir r)])"
proof -
  have "\<exists>n1 n2. handle_make_dir_request ex_env 9 4 ex_mkdir (ex_leader []) = (n1, None) \<and>
    last_log_index (rn_logs n1) = last_log_index (rn_logs (ex_leader [])) + 1 \<and>
    apply_entry ex_env 10 (n1\<lparr>rn_commit_index := last_log_index (rn_logs n1)\<rparr>) =
      Done (n2, [(4, RespMkdir (snd (mkdir_response (ex_mkdir\<lparr>mdq_timestamp := 9\<rparr>)
        (MakeDirResponse_default\<lparr>mdr_status_code := kFailed, mdr_message := msg_mkdir_unknown\<rparr>) (rn_state_machine (ex_leader [])))))]) \<and>
    replica (rn_state_machine n2) = replica (mkdir (ex_mkdir\<lparr>mdq_timestamp := 9\<rparr>) (rn_state_machine (ex_leader [])))"
    by (rule mkdir_request_answered)
      (simp_all add: ex_mkdir_def MakeDirRequest_default_def ex_leader_def ex_node_def RaftNode_init_def
        StateMachine_create_def Let_def um_contains_def)
  then show ?thesis by blast
qed

text \<open>
  A client request with a token that does not verify is refused, and at a node that
  does not lead it is answered with the id of the leader the node knows; in both cases the node
  is unchanged.
\<close>

theorem client_requests_guarded:
  assumes "\<not> vertify_token (env_jwt E) tok \<or> rn_role n \<noteq> kLeader"
  defines "code \<equiv> if vertify_token (env_jwt E) tok then kNotLeader else kPermissionDenied"
    and "msg \<equiv> if vertify_token (env_jwt E) tok then leader_text n else msg_invalid_token"
  shows "(mdq_token md = tok \<longrightarrow> handle_make_dir_request E now h md n = (n, Some (make_make_dir_response code msg))) \<and>
    (ufq_token uf = tok \<longrightarrow> handle_upload_file_request E h uf n = (n, Some (make_upload_file_response code msg (ufq_ino uf)))) \<and>
    (puq_token pu = tok \<longrightarrow> handle_prepare_upload_file_request E pu n = Done (n, make_prepare_upload_file_response code msg)) \<and>
    (ldq_token ld = tok \<longrightarrow> handle_list_dir_request E ld n = make_list_dir_response code msg) \<and>
    (pdq_token pd = tok \<longrightarrow> handle_prepare_download_file_request E pd n = make_prepare_download_file_response code msg)"
  using assms
  by (auto simp: handle_make_dir_request_def handle_upload_file_request_def handle_prepare_upload_file_request_def
      handle_list_dir_request_def handle_prepare_download_file_request_def Let_def)

theorem client_requests_guarded_witness:
  "rn_role (ex_follower []) \<noteq> kLeader \<and>
   handle_make_dir_request ex_env 9 4 ex_mkdir (ex_follower []) = (ex_follower [], Some (make_make_dir_response kNotLeader []))"
  using client_requests_guarded [of ex_env "[]" "ex_follower []" ex_mkdir 9 4 UploadFileRequest_default
      PrepareUploadFileRequest_default ListDirRequest_default PrepareDownloadFileRequest_default]
  by (simp add: ex_mkdir_def MakeDirRequest_default_def leader_text_def ex_follower_def ex_node_def RaftNode_init_def)

text \<open>
  The entry a leader appends for a client is in memory only: the database, which
  held exactly the log before, does not hold it.
\<close>

theorem leader_write_not_on_disk:
  assumes "rn_role n = kLeader" and "vertify_token (env_jwt E) (mdq_token q)"
    and "log_wf (rn_logs n)" and "last_log_index (rn_logs n) \<noteq> - 1" and "log_on_disk E view n"
  shows "\<exists>n1. handle_make_dir_request E now h q n = (n1, None) \<and> rn_persister n1 = rn_persister n \<and>
    get_entry (rn_logs n1) (last_log_index (rn_logs n1)) \<noteq> None \<and> \<not> log_on_disk E view n1"
proof -
  let ?r = "RespMkdir (MakeDirResponse_default\<lparr>mdr_status_code := kFailed, mdr_message := msg_mkdir_unknown\<rparr>)"
  define n1 where "n1 = submit E h (CmdMkdir (q\<lparr>mdq_timestamp := now\<rparr>)) ?r n"
  note log = submit_log [OF assms(3,4), of E h "CmdMkdir (q\<lparr>mdq_timestamp := now\<rparr>)" ?r, folded n1_def]
  have h: "handle_make_dir_request E now h q n = (n1, None)" "rn_persister n1 = rn_persister n"
    using assms(1,2) by (simp_all add: handle_make_dir_request_def n1_def submit_def Let_def)
  let ?i = "last_log_index (rn_logs n) + 1"
  have above: "last_included_index (rn_logs n) < ?i"
    using rlog.base_le [OF assms(3)] by (simp add: less_succ_iff [OF assms(4)])
  have base: "last_included_index (rn_logs n1) = last_included_index (rn_logs n)"
    by (simp add: n1_def submit_def Let_def append_entry_def last_included_index_def)
  have "in_log (rn_logs n1) ?i" using above base log(2) by (simp add: in_log_def)
  then have new: "get_entry (rn_logs n1) ?i \<noteq> None" by (simp add: get_entry_wf [OF log(1)])
  have "\<not> in_log (rn_logs n) ?i" using less_succ_iff [OF assms(4)] by (simp add: in_log_def not_le)
  then have "st_log (stored_of (env_codec E) (view (rn_persister n))) ?i = None"
    using assms(5) above by (simp add: log_on_disk_def get_entry_def)
  then have "\<not> log_on_disk E view n1" using new above base h(2) by (auto simp: log_on_disk_def)
  with h new log(2) show ?thesis by simp
qed

theorem leader_write_not_on_disk_witness:
  "\<exists>n1. handle_make_dir_request ex_env 9 4 ex_mkdir (ex_leader []) = (n1, None) \<and>
     \<not> log_on_disk ex_env (\<lambda>db. db) n1"
proof -
  have "log_on_disk ex_env (\<lambda>db. db) (ex_leader [])"
    using ex_follower_on_disk [of "[]"]
    by (simp add: log_on_disk_def ex_leader_def ex_follower_def ex_node_def RaftNode_init_def stored_of_def)
  then have "\<exists>n1. handle_make_dir_request ex_env 9 4 ex_mkdir (ex_leader []) = (n1, None) \<and>
      rn_persister n1 = rn_persister (ex_leader []) \<and>
      get_entry (rn_logs n1) (last_log_index (rn_logs n1)) \<noteq> None \<and> \<not> log_on_disk ex_env (\<lambda>db. db) n1"
    by (intro leader_write_not_on_disk) (simp_all add: ex_mkdir_def MakeDirRequest_default_def)
  then show ?thesis by blast
qed

section \<open>Snapshots\<close>

text \<open>
  C31. A snapshot file read chunk by chunk from offset 0, with the chunks delivered in
  order to a node of the same term, installs the snapshot that the file holds: the node's name
  space and log position become the snapshot's, whatever it had received before.
\<close>

theorem snapshot_transfer_installs:
  assumes "\<not> sp_locked s" and "file_has F fs (sp_snapshot_path s) content"
    and "unat (sp_snapshot_size s) = length content" and "offset_of s m = 0"
    and "isq_term q = current_term n" and "par_snapshot (env_codec E) content = Some sn"
  shows "\<exists>qs n'. transfer (length content + 1) F fs m q s = Some qs \<and> feed E now qs n = Done n' \<and>
    rn_state_machine n' = StateMachine_load_snapshot sn (rn_state_machine n) \<and>
    rn_logs n' = RaftLog_load_snapshot sn (rn_logs n)"
proof -
  from transfer_complete [OF assms(1-3), of m "length content + 1" q] assms(4) obtain qs where
    qs: "transfer (length content + 1) F fs m q s = Some qs" "concat (map isq_data qs) = content"
    "chunks_ok (isq_term q) 0 qs" by auto
  then have "\<exists>n'. feed E now qs n = Done n' \<and> rn_state_machine n' = StateMachine_load_snapshot sn (rn_state_machine n) \<and>
      rn_logs n' = RaftLog_load_snapshot sn (rn_logs n)"
    using assms(5,6) by (intro feed_snapshot) (simp_all add: chunks_ok_def)
  with qs(1) show ?thesis by blast
qed

definition ex_snapshotter :: Snapshotter where
  "ex_snapshotter = (Snapshotter_create ''s'' ''t'')\<lparr>sp_snapshot_size := 4\<rparr>"

theorem snapshot_transfer_installs_witness:
  "\<exists>qs n'. transfer (length ''1.1.'' + 1) ex_files [''t'' \<mapsto> ''1.1.''] 2 (InstallSnapshotRequest_default\<lparr>isq_term := 1\<rparr>) ex_snapshotter = Some qs \<and>
     feed ex_env 5 qs (ex_follower []) = Done n' \<and> last_included_index (rn_logs n') = 1"
proof -
  have dec: "par_snapshot (env_codec ex_env) ''1.1.'' =
      Some (Snapshot_default\<lparr>sn_last_included_index := 1, sn_last_included_term := 1\<rparr>)"
    by (simp add: ex_par_snapshot_def dec_nat_def)
  have "\<exists>qs n'. transfer (length ''1.1.'' + 1) ex_files [''t'' \<mapsto> ''1.1.''] 2 (InstallSnapshotRequest_default\<lparr>isq_term := 1\<rparr>) ex_snapshotter = Some qs \<and>
     feed ex_env 5 qs (ex_follower []) = Done n' \<and>
     rn_state_machine n' = StateMachine_load_snapshot (Snapshot_default\<lparr>sn_last_included_index := 1, sn_last_included_term := 1\<rparr>)
       (rn_state_machine (ex_follower [])) \<and>
     rn_logs n' = RaftLog_load_snapshot (Snapshot_default\<lparr>sn_last_included_index := 1, sn_last_included_term := 1\<rparr>)
       (rn_logs (ex_follower []))"
    by (rule snapshot_transfer_installs [OF _ _ _ _ _ dec])
      (simp_all add: ex_snapshotter_def Snapshotter_create_def file_has_def ex_files_def offset_of_def)
  then obtain qs n' where "transfer (length ''1.1.'' + 1) ex_files [''t'' \<mapsto> ''1.1.''] 2
      (InstallSnapshotRequest_default\<lparr>isq_term := 1\<rparr>) ex_snapshotter = Some qs"
    "feed ex_env 5 qs (ex_follower []) = Done n'"
    "rn_logs n' = RaftLog_load_snapshot (Snapshot_default\<lparr>sn_last_included_index := 1, sn_last_included_term := 1\<rparr>)
       (rn_logs (ex_follower []))" by blast
  moreover from this(3) have "last_included_index (rn_logs n') = 1"
    by (simp add: RaftLog_load_snapshot_def last_included_index_def)
  ultimately show ?thesis by blast
qed

text \<open>
  A leader never sends a snapshot: \<open>offset_at\<close> returns with the snapshotter's mutex
  locked, and \<open>send_snapshot\<close>, which goes on to read the file, waits for that mutex for ever while
  it holds the node's own mutex.
\<close>

theorem snapshot_never_sent:
  "(\<forall>n' out. send_snapshot E m n = Done (n', out) \<longrightarrow> out = []) \<and>
   (rn_snapshot_data n \<noteq> [] \<and> offset_of (rn_snapshotter n) m = 0 \<longrightarrow> send_snapshot E m n = Blocked)"
proof -
  have "send_snapshot E m n = Blocked" if "rn_snapshot_data n \<noteq> []" "offset_of (rn_snapshotter n) m = 0"
    using that by (cases "um_find (sp_offsets (rn_snapshotter n)) m")
      (simp_all add: send_snapshot_eq offset_at_def um_index_def offset_of_def)
  then show ?thesis using send_snapshot_core by blast
qed

theorem snapshot_never_sent_witness:
  "send_snapshot ex_env 3 ((ex_leader [])\<lparr>rn_snapshot_data := ''1.1.''\<rparr>) = Blocked"
proof -
  have "rn_snapshot_data ((ex_leader [])\<lparr>rn_snapshot_data := ''1.1.''\<rparr>) \<noteq> [] \<and>
      offset_of (rn_snapshotter ((ex_leader [])\<lparr>rn_snapshot_data := ''1.1.''\<rparr>)) 3 = 0"
    by (simp add: offset_of_def Snapshotter_create_def)
  then show ?thesis using snapshot_never_sent [of ex_env 3 "(ex_leader [])\<lparr>rn_snapshot_data := ''1.1.''\<rparr>"] by blast
qed

text \<open>
  After a snapshot has been saved, the log takes its position from the object that was
  moved into the call: the position becomes index 0 and term 0, not the snapshot's.
\<close>

theorem snapshot_resets_position:
  assumes "get_term (rn_logs n) (rn_last_applied n) = Some t"
    and "save_snapshot (env_files E) (env_codec E)
      (take_snapshot (rn_state_machine n)
        (Snapshot_default\<lparr>sn_last_included_index := rn_last_applied n, sn_last_included_term := t\<rparr>))
      (rn_disk n) (rn_snapshotter n) = Done (Inr (), fs', s')"
  shows "\<exists>n'. snapshot_step E n = Done n' \<and> last_included_index (rn_logs n') = 0 \<and> last_included_term (rn_logs n') = 0"
  using assms by (simp add: snapshot_step_def Let_def Snapshot_move_def RaftLog_load_snapshot_def
      last_included_index_def last_included_term_def Snapshot_default_def)

definition ex_installed :: "(string \<rightharpoonup> string, string \<rightharpoonup> string) RaftNode" where
  "ex_installed = (ex_follower [])\<lparr>rn_last_applied := 10,
     rn_logs := \<lparr>rl_last_included_index = 10, rl_last_included_term = 1, rl_entries = []\<rparr>\<rparr>"

theorem snapshot_resets_position_witness:
  "last_included_index (rn_logs ex_installed) = 10 \<and>
   (\<exists>n'. snapshot_step ex_env ex_installed = Done n' \<and> last_included_index (rn_logs n') = 0)"
proof -
  have "\<exists>fs' s'. save_snapshot (env_files ex_env) (env_codec ex_env)
      (take_snapshot (rn_state_machine ex_installed)
        (Snapshot_default\<lparr>sn_last_included_index := rn_last_applied ex_installed, sn_last_included_term := 1\<rparr>))
      (rn_disk ex_installed) (rn_snapshotter ex_installed) = Done (Inr (), fs', s')"
    by (simp add: save_snapshot_def Let_def ex_files_def ex_installed_def Snapshotter_create_def)
  then obtain fs' s' where sv: "save_snapshot (env_files ex_env) (env_codec ex_env)
      (take_snapshot (rn_state_machine ex_installed)
        (Snapshot_default\<lparr>sn_last_included_index := rn_last_applied ex_installed, sn_last_included_term := 1\<rparr>))
      (rn_disk ex_installed) (rn_snapshotter ex_installed) = Done (Inr (), fs', s')" by blast
  have "get_term (rn_logs ex_installed) (rn_last_applied ex_installed) = Some 1"
    by (simp add: ex_installed_def get_term_def last_included_index_def last_included_term_def)
  from snapshot_resets_position [OF this sv] have "\<exists>n'. snapshot_step ex_env ex_installed = Done n' \<and>
      last_included_index (rn_logs n') = 0 \<and> last_included_term (rn_logs n') = 0" .
  then show ?thesis by (auto simp: ex_installed_def last_included_index_def)
qed

text \<open>
  \<open>RaftNode::create\<close> gives the snapshotter its two paths in the wrong order: a snapshot
  is written to \<open>snapshot.bin\<close> and then renamed to \<open>snapshot.tmp\<close>, so that the next start,
  which looks for \<open>snapshot.bin\<close>, finds none and begins with an empty name space at position 0.
\<close>

theorem saved_snapshot_not_found:
  assumes rename: "\<And>fs p q. fst (fs_rename (env_files E) fs p q) \<Longrightarrow> p \<noteq> q \<Longrightarrow>
      fs_statx (env_files E) (snd (fs_rename (env_files E) fs p q)) p = Inl ENOENT"
    and paths: "s = Snapshotter_create (path_append dir SNAPSHOT_FILE_NAME) (path_append dir SNAPSHOT_TEMP_FILE_NAME)"
    and saved: "save_snapshot (env_files E) C sn fs s = Done (Inr (), fs', s')"
  shows "load_start_snapshot E fs' (path_append dir SNAPSHOT_FILE_NAME) s (StateMachine_create config) =
    Inr (0, 0, s, StateMachine_create config)"
proof -
  let ?bin = "path_append dir SNAPSHOT_FILE_NAME" and ?tmp = "path_append dir SNAPSHOT_TEMP_FILE_NAME"
  have "?bin \<noteq> ?tmp" by (simp add: path_append_def SNAPSHOT_FILE_NAME_def SNAPSHOT_TEMP_FILE_NAME_def)
  moreover from saved obtain fs2 where "fs_rename (env_files E) fs2 ?bin ?tmp = (True, fs')"
    by (auto simp: save_snapshot_def Let_def paths Snapshotter_create_def split: prod.splits if_splits)
  ultimately have "fs_statx (env_files E) fs' ?bin = Inl ENOENT" using rename [of fs2 ?bin ?tmp] by simp
  then show ?thesis by (simp add: load_start_snapshot_def get_file_size_def)
qed

theorem saved_snapshot_not_found_witness:
  "\<exists>fs' s'. save_snapshot ex_files ex_codec Snapshot_default Map.empty
       (Snapshotter_create (path_append ''d'' SNAPSHOT_FILE_NAME) (path_append ''d'' SNAPSHOT_TEMP_FILE_NAME)) = Done (Inr (), fs', s') \<and>
     load_start_snapshot ex_env fs' (path_append ''d'' SNAPSHOT_FILE_NAME)
       (Snapshotter_create (path_append ''d'' SNAPSHOT_FILE_NAME) (path_append ''d'' SNAPSHOT_TEMP_FILE_NAME))
       (StateMachine_create (ex_config 1)) =
     Inr (0, 0, Snapshotter_create (path_append ''d'' SNAPSHOT_FILE_NAME) (path_append ''d'' SNAPSHOT_TEMP_FILE_NAME),
       StateMachine_create (ex_config 1))"
proof -
  let ?s = "Snapshotter_create (path_append ''d'' SNAPSHOT_FILE_NAME) (path_append ''d'' SNAPSHOT_TEMP_FILE_NAME)"
  have "\<exists>fs' s'. save_snapshot ex_files ex_codec Snapshot_default Map.empty ?s = Done (Inr (), fs', s')"
    by (simp add: save_snapshot_def Let_def ex_files_def Snapshotter_create_def)
  then obtain fs' s' where sv: "save_snapshot (env_files ex_env) ex_codec Snapshot_default Map.empty ?s = Done (Inr (), fs', s')"
    by auto
  have "load_start_snapshot ex_env fs' (path_append ''d'' SNAPSHOT_FILE_NAME) ?s (StateMachine_create (ex_config 1)) =
      Inr (0, 0, ?s, StateMachine_create (ex_config 1))"
    by (rule saved_snapshot_not_found [OF _ refl sv]) (simp add: ex_files_def)
  with sv show ?thesis by auto
qed

section \<open>Restart\<close>

text \<open>
  C24. A node that starts on the database of a node whose log was on disk, with no snapshot
  file, has the same log and the hard state that was stored, as a follower with nothing applied.
\<close>

theorem restart_recovers:
  assumes "rocksdb_spec (env_db E) view" and "reads_ok (env_db E) (rn_persister n)"
    and "fresh_log (rn_logs n)" and "log_on_disk E view n"
    and "view (rn_persister n) (get_entry_key (last_log_index (rn_logs n) + 1)) = None"
    and "st_hard (stored_of (env_codec E) (view (rn_persister n))) = Some hs"
    and "env_open E (path_append (cfg_data_dir config) DB_DIR) = Some (rn_persister n)"
    and "fs_statx (env_files E) disk (path_append (path_append (cfg_data_dir config) SNAPSHOT_DIR) SNAPSHOT_FILE_NAME) = Inl ENOENT"
  shows "\<exists>n'. RaftNode_create E (Inr config) disk = Done (Inr n') \<and> rn_logs n' = rn_logs n \<and> rn_hard_state n' = hs \<and>
    rn_persister n' = rn_persister n \<and> rn_role n' = kFollower \<and> rn_last_applied n' = 0"
proof -
  have l: "log_wf (rn_logs n)" "rl_last_included_index (rn_logs n) = 0" "rl_last_included_term (rn_logs n) = 0"
    using assms(3) by (simp_all add: fresh_log_def)
  have es: "load_entries (env_db E) (env_codec E) 0 (rn_persister n) = Some (Inr (rl_entries (rn_logs n)))"
    using load_entries_log [OF assms(1,2) l(1) assms(4,5)] l(2) by (simp add: last_included_index_def)
  obtain payload where "view (rn_persister n) HARD_STATE_KEY = Some payload" "par_hard_state (env_codec E) payload = Some hs"
    using assms(6) by (auto simp: stored_of_def bind_eq_Some_conv)
  then have "load_hard_state (env_db E) (env_codec E) (rn_persister n) = (Inr hs, rn_persister n)"
    by (simp add: load_hard_state_def engine_get_view [OF assms(1,2)])
  with es l assms(7,8) show ?thesis
    by (simp add: RaftNode_create_def Let_def load_start_snapshot_def get_file_size_def Persister_create_def RaftNode_init_def)
qed

definition ex_restart_env :: ex_env_type where
  "ex_restart_env = ex_env\<lparr>env_open := (\<lambda>_. Some (rn_persister (ex_follower [ex_entry 1])))\<rparr>"

theorem restart_recovers_witness:
  "\<exists>n'. RaftNode_create ex_restart_env (Inr (ex_config 2)) Map.empty = Done (Inr n') \<and>
     rl_entries (rn_logs n') = [ex_entry 1] \<and> current_term n' = 1"
proof -
  have e: "env_db ex_restart_env = ex_db" "env_codec ex_restart_env = ex_codec" "env_files ex_restart_env = ex_files"
    by (simp_all add: ex_restart_env_def)
  have p: "rn_persister (ex_follower [ex_entry 1]) = put_raw ex_codec (ex_entry 1) [HARD_STATE_KEY \<mapsto> ex_ser_hard \<lparr>hs_current_term = 1, hs_voted_for = None\<rparr>]"
    by (simp add: ex_follower_def)
  have "\<exists>n'. RaftNode_create ex_restart_env (Inr (ex_config 2)) Map.empty = Done (Inr n') \<and>
     rn_logs n' = rn_logs (ex_follower [ex_entry 1]) \<and> rn_hard_state n' = \<lparr>hs_current_term = 1, hs_voted_for = None\<rparr> \<and>
     rn_persister n' = rn_persister (ex_follower [ex_entry 1]) \<and> rn_role n' = kFollower \<and> rn_last_applied n' = 0"
  proof (rule restart_recovers [where view = "\<lambda>db. db"])
    show "log_on_disk ex_restart_env (\<lambda>db. db) (ex_follower [ex_entry 1])"
      using ex_follower_on_disk [of "[ex_entry 1]"] by (simp add: log_on_disk_def e)
    show "env_open ex_restart_env (path_append (cfg_data_dir (ex_config 2)) DB_DIR) = Some (rn_persister (ex_follower [ex_entry 1]))"
      by (simp add: ex_restart_env_def)
    show "rn_persister (ex_follower [ex_entry 1]) (get_entry_key (last_log_index (rn_logs (ex_follower [ex_entry 1])) + 1)) = None"
      by (simp add: p put_raw_def)
    show "st_hard (stored_of (env_codec ex_restart_env) (rn_persister (ex_follower [ex_entry 1]))) =
        Some \<lparr>hs_current_term = 1, hs_voted_for = None\<rparr>"
      by (simp add: p e stored_of_def put_raw_def)
  qed (simp_all add: e ex_rocksdb_spec ex_reads_ok, simp add: ex_files_def)
  then show ?thesis by (auto simp: ex_log_def)
qed

end
