(* ===== verification/Fs_Theorems.thy ===== *)
theory Fs_Theorems
  imports Fs_Refine
begin

text \<open>
  The properties of the replicated name space: refinement of the abstract file system, the tree
  invariant, agreement of the replicas, snapshots, listings and block placement. Instances are
  taken at the state machine of a fresh node with two data nodes.
\<close>

definition ex_sm :: StateMachine where
  "ex_sm = StateMachine_create (add_data_node 8 ''d'' ''h'' 1 (add_data_node 7 ''c'' ''h'' 1 builder_options))"

lemma ex_sm_facts [simp]: "fs_wf ex_sm" "fs_strict ex_sm" "abs_fs ex_sm = [''/'' \<mapsto> ADir]" "sm_next_ino ex_sm = 1"
  by (simp_all add: ex_sm_def StateMachine_create_wf StateMachine_create_strict abs_fs_create)
    (simp add: StateMachine_create_def Let_def max_ino_def um_emplace_def um_contains_def um_find_def um_values_def
      root_inode_def Inode_default_def)

definition ex_mkdir_a :: MakeDirRequest where
  "ex_mkdir_a = \<lparr>mdq_token = [], mdq_parent_path = ''/'', mdq_name = ''a'', mdq_timestamp = 5\<rparr>"

definition ex_upload_f :: UploadFileRequest where
  "ex_upload_f = \<lparr>ufq_token = [], ufq_ino = 1, ufq_path = ''/f'', ufq_blocks = [BlockInfo_default]\<rparr>"

text \<open>A codec of two commands.\<close>

definition ex_fs_codec :: codec where
  "ex_fs_codec = \<lparr>ser_hard_state = (\<lambda>_. []), par_hard_state = (\<lambda>_. None), ser_entry = (\<lambda>_. []), par_entry = (\<lambda>_. None),
     ser_command = (\<lambda>c. case c of CmdMkdir _ \<Rightarrow> ''m'' | CmdUploadFile _ \<Rightarrow> ''u'' | CmdNotSet \<Rightarrow> []),
     par_command = (\<lambda>s. if s = ''m'' then Some (CmdMkdir ex_mkdir_a) else if s = ''u'' then Some (CmdUploadFile ex_upload_f) else None),
     ser_snapshot = (\<lambda>_. []), par_snapshot = (\<lambda>_. None)\<rparr>"

definition ex_entries :: "(u64 \<times> LogEntry) list" where
  "ex_entries = [(9, \<lparr>le_term = 1, le_index = 1, le_command = ''u''\<rparr>), (9, \<lparr>le_term = 1, le_index = 2, le_command = ''m''\<rparr>)]"

section \<open>Refinement\<close>



text \<open>
  C2. \<open>upload_file\<close> with a fresh inode number implements the abstract operation that adds a file
  with its blocks, and a refused request changes nothing.
\<close>

theorem upload_refines:
  assumes wf: "fs_wf sm" and ino: "um_find (sm_inodes sm) (ufq_ino q) = None"
  shows "afs_upload (ufq_path q) (ufq_blocks q) (abs_fs sm) =
     (if ufr_status_code (snd (upload_file_response now q r sm)) = kOk then Some (abs_fs (upload_file now q sm)) else None)
     \<and> (ufr_status_code (snd (upload_file_response now q r sm)) \<noteq> kOk \<longrightarrow> upload_file now q sm = sm)"
proof (cases rule: upload_cases [of q sm now r])
  case (created pos pe pi)
  then have "abs_fs (upload_file now q sm) = (abs_fs sm)(ufq_path q \<mapsto> AFile (ufq_blocks q))"
    using wf abs_fs_add_child [of sm "de_ino pe" pi]
    by (simp add: upload_ok_def upload_result_def anode_of_def)
  moreover have "abs_fs sm (parent_of (ufq_path q) pos) = Some ADir" "abs_fs sm (ufq_path q) = None"
    using created(1) by (auto simp: upload_ok_def abs_fs_Dir abs_fs_None [OF wf])
  ultimately show ?thesis using created by (simp add: afs_upload_def upload_ok_def)
next
  case refused
  then have "afs_upload (ufq_path q) (ufq_blocks q) (abs_fs sm) = None"
    using ino by (auto simp: afs_upload_def upload_ok_def abs_fs_Dir abs_fs_None [OF wf] split: option.splits)
  then show ?thesis using refused by simp
qed

theorem upload_refines_witness:
  "afs_upload ''/f'' [BlockInfo_default] (abs_fs ex_sm) = Some (abs_fs (upload_file 9 ex_upload_f ex_sm))"
proof -
  have "afs_upload ''/f'' [BlockInfo_default] (abs_fs ex_sm) \<noteq> None" by (simp add: afs_upload_def bad_name_def parent_of_def)
  moreover have "um_find (sm_inodes ex_sm) (ufq_ino ex_upload_f) = None"
    using ino_fresh_next [of ex_sm] ex_sm_facts(2,4) by (simp add: fs_strict_def ex_upload_f_def)
  ultimately show ?thesis
    using upload_refines [of ex_sm ex_upload_f 9 UploadFileResponse_default] by (auto simp: ex_upload_f_def split: if_splits)
qed

text \<open>
  Listing a directory returns exactly the entries whose parent path is that directory.
\<close>

theorem ls_children:
  assumes st: "fs_strict sm" and dir: "abs_fs sm d = Some ADir" and path: "ldq_path q = d"
  shows "ldr_status_code (ls q r sm) = kOk \<and>
    de_path ` set (ldr_dir_entries (ls q r sm)) = {p. p \<noteq> ''/'' \<and> abs_fs sm p \<noteq> None \<and> parent_path p = Some d}"
proof -
  let ?I = "um_find (sm_inodes sm)" and ?D = "um_find (sm_dir_entries sm)"
  from st have wf: "fs_wf sm" and tw: "tree_wf ?I ?D" and ts: "tree_strict ?I ?D"
    by (simp_all add: fs_strict_def fs_wf_def)
  from dir obtain e i where e: "?D d = Some e" "?I (de_ino e) = Some i" "nd_is_dir i"
    by (auto simp: abs_fs_Dir)
  have "de_is_dir e" using tree_strict_dir [OF ts e(1,2)] e(3) by simp
  with e path have l: "ldr_status_code (ls q r sm) = kOk" "ldr_dir_entries (ls q r sm) = nd_dir_entries i"
    by (simp_all add: ls_def Let_def)
  have "p \<in> de_path ` set (nd_dir_entries i)"
    if p: "p \<noteq> ''/''" "?D p = Some c" "parent_path p = Some d" for p c
    using tree_wf_parent [OF tw p(2,1,3) e(1,2)] tree_wf_entry [OF tw p(2)] by blast
  moreover have "de_path c \<noteq> ''/'' \<and> ?D (de_path c) = Some c \<and> parent_path (de_path c) = Some d"
    if "c \<in> set (nd_dir_entries i)" for c
    using tree_wf_child [OF tw e(2) that] tree_strict_child [OF ts e(1,2) that] by blast
  ultimately have "de_path ` set (nd_dir_entries i) = {p. p \<noteq> ''/'' \<and> ?D p \<noteq> None \<and> parent_path p = Some d}"
    by fastforce
  with l show ?thesis by (simp add: abs_fs_None [OF wf])
qed

theorem ls_children_witness:
  "de_path ` set (ldr_dir_entries (ls (ListDirRequest_default\<lparr>ldq_path := ''/''\<rparr>) ListDirResponse_default (mkdir ex_mkdir_a ex_sm))) =
     {p. p \<noteq> ''/'' \<and> abs_fs (mkdir ex_mkdir_a ex_sm) p \<noteq> None \<and> parent_path p = Some ''/''}"
proof -
  have "abs_fs (mkdir ex_mkdir_a ex_sm) ''/'' = Some ADir" by code_simp
  with mkdir_fs_strict [of ex_sm ex_mkdir_a] show ?thesis
    using ls_children [of "mkdir ex_mkdir_a ex_sm" "''/''" "ListDirRequest_default\<lparr>ldq_path := ''/''\<rparr>" ListDirResponse_default]
    by simp
qed

section \<open>Invariants\<close>

definition apply_all :: "codec \<Rightarrow> (u64 \<times> LogEntry) list \<Rightarrow> StateMachine \<Rightarrow> StateMachine" where
  "apply_all C es sm = fold (\<lambda>(now, e). sm_apply_entry_no_response C now e) es sm"

definition apply_all_leader :: "codec \<Rightarrow> (u64 \<times> LogEntry) list \<Rightarrow> StateMachine \<Rightarrow> StateMachine" where
  "apply_all_leader C es sm = fold (\<lambda>(now, e) sm. fst (sm_apply_entry C now e sm)) es sm"

lemma apply_all_wf: "fs_wf sm \<Longrightarrow> fs_wf (apply_all C es sm) \<and> fs_wf (apply_all_leader C es sm)"
  unfolding apply_all_def apply_all_leader_def
  by (induction es rule: rev_induct) (auto simp: apply_no_response_fs_wf apply_entry_fs_wf)

text \<open>
  C4. Whatever entries a node applies, at whatever times, as leader or as follower, its name
  space stays a tree: keys and contents of the two tables agree, the root is a directory, every
  path has an inode and is listed in its parent directory, and every listed entry exists.
\<close>

theorem name_space_is_tree:
  "fs_wf (apply_all C es (StateMachine_create config)) \<and> fs_wf (apply_all_leader C es (StateMachine_create config))"
  by (intro apply_all_wf StateMachine_create_wf)

text \<open>
  As long as uploads use numbers the allocator has handed out, and it has not run out,
  no two paths share an inode, an entry is a directory exactly when its inode is, and the next
  number is greater than every number in use.
\<close>

theorem inode_numbers_unique:
  assumes "fs_strict sm" and "sm_next_ino sm \<noteq> - 1" and "ufq_ino u < sm_next_ino sm"
  shows "fs_strict (mkdir q sm) \<and> fs_strict (upload_file now u sm)"
  using assms by (simp add: mkdir_fs_strict upload_fs_strict)

theorem inode_numbers_unique_witness:
  "fs_strict (mkdir ex_mkdir_a ex_sm) \<and> fs_strict (upload_file 9 (ex_upload_f\<lparr>ufq_ino := 0\<rparr>) ex_sm)"
  using inode_numbers_unique [of ex_sm "ex_upload_f\<lparr>ufq_ino := 0\<rparr>" ex_mkdir_a 9] by (simp add: ex_upload_f_def)

section \<open>Replicas\<close>

text \<open>
  C29. A leader and a follower that start from the same replica and apply the same entries at the
  same clock readings have the same replica afterwards: answering clients does not influence it.
\<close>

theorem replicas_agree:
  assumes "replica ld = replica fo"
  shows "replica (apply_all_leader C es ld) = replica (apply_all C es fo)"
  unfolding apply_all_def apply_all_leader_def
proof (induction es rule: rev_induct)
  case Nil
  with assms show ?case by simp
next
  case (snoc x es)
  then show ?case
    by (cases x) (simp add: apply_entry_replica replica_no_response)
qed

theorem replicas_agree_witness:
  "replica (apply_all_leader ex_fs_codec ex_entries ex_sm) = replica (apply_all ex_fs_codec ex_entries ex_sm)"
  by (rule replicas_agree [OF refl])

text \<open>
  C40. Reserving an inode number for an upload is not replicated, and an upload does not advance
  the allocator: after the leader has reserved number 1, the log that uploads that file and then
  makes a directory gives the directory on the leader, and on a follower an entry that shares the
  inode of the file.
\<close>

theorem replicas_diverge:
  "\<exists>ld r. prepare_upload_file (\<lambda>x. x) (PrepareUploadFileRequest_default\<lparr>puq_remote_path := ''/f''\<rparr>)
       PrepareUploadFileResponse_default ex_sm = Done (ld, r) \<and>
     abs_fs (apply_all_leader ex_fs_codec ex_entries ld) ''/a'' = Some ADir \<and>
     abs_fs (apply_all ex_fs_codec ex_entries ex_sm) ''/a'' = Some (AFile [BlockInfo_default])"
proof -
  let ?p = "prepare_upload_file (\<lambda>x. x) (PrepareUploadFileRequest_default\<lparr>puq_remote_path := ''/f''\<rparr>)
    PrepareUploadFileResponse_default ex_sm"
  have "case ?p of Done (ld, r) \<Rightarrow> abs_fs (apply_all_leader ex_fs_codec ex_entries ld) ''/a'' = Some ADir | _ \<Rightarrow> False"
    by code_simp
  moreover have "abs_fs (apply_all ex_fs_codec ex_entries ex_sm) ''/a'' = Some (AFile [BlockInfo_default])"
    by code_simp
  ultimately show ?thesis by (cases ?p) auto
qed

section \<open>Snapshots, downloads and placement\<close>

lemma load_snapshot_position:
  "StateMachine_load_snapshot (take_snapshot sm (Snapshot_default\<lparr>sn_last_included_index := i, sn_last_included_term := t\<rparr>)) =
     StateMachine_load_snapshot (take_snapshot sm Snapshot_default)"
  by (simp add: fun_eq_iff StateMachine_load_snapshot_def take_snapshot_def)

text \<open>
  C30. Loading a snapshot into any state machine restores the name space it was taken from: the
  same paths, directories and files, in a well-formed tree, with an allocator above every number
  in use.
\<close>

theorem snapshot_restores:
  assumes "fs_wf sm"
    and "s = StateMachine_load_snapshot
      (take_snapshot sm (Snapshot_default\<lparr>sn_last_included_index := i, sn_last_included_term := t\<rparr>)) sm'"
  shows "abs_fs s = abs_fs sm \<and> fs_wf s \<and> (max_ino (sm_inodes s) \<noteq> - 1 \<longrightarrow> ino_fresh s)"
proof -
  note maps = load_take_snapshot_maps [OF assms(1), of sm'] and s = assms(2) [unfolded load_snapshot_position]
  have "abs_fs s = abs_fs sm" by (rule ext) (simp add: abs_fs_def s maps)
  then show ?thesis
    using maps load_take_snapshot_ino_fresh [OF assms(1)] assms(1) by (simp add: fs_wf_def s)
qed

theorem snapshot_restores_witness:
  "abs_fs (StateMachine_load_snapshot
     (take_snapshot (mkdir ex_mkdir_a ex_sm) (Snapshot_default\<lparr>sn_last_included_index := 10, sn_last_included_term := 1\<rparr>)) ex_sm) =
     abs_fs (mkdir ex_mkdir_a ex_sm)"
  using snapshot_restores [OF mkdir_fs_wf [OF ex_sm_facts(1)] refl, of ex_mkdir_a 1 10 ex_sm] by blast

text \<open>
  After an upload that was accepted, preparing a download of the path returns the blocks
  of the upload.
\<close>

theorem download_returns_upload:
  assumes "fs_wf sm" and "ufr_status_code (snd (upload_file_response now q r sm)) = kOk"
    and "pdq_remote_path d = ufq_path q"
  shows "pdr_status_code (prepare_download_file d r' (upload_file now q sm)) = kOk \<and>
    pdr_blocks (prepare_download_file d r' (upload_file now q sm)) = ufq_blocks q"
proof (cases rule: upload_cases [of q sm now r])
  case (created pos pe pi)
  then have u: "um_find (sm_inodes sm) (ufq_ino q) = None" "um_find (sm_inodes sm) (de_ino pe) = Some pi"
    by (simp_all add: upload_ok_def)
  then have "de_ino pe \<noteq> ufq_ino q" by auto
  with u created assms(3) show ?thesis
    by (simp add: prepare_download_file_def Let_def upload_maps add_inode_def)
next
  case refused
  with assms(2) show ?thesis by simp
qed

theorem download_returns_upload_witness:
  "pdr_blocks (prepare_download_file (PrepareDownloadFileRequest_default\<lparr>pdq_remote_path := ''/f''\<rparr>)
     PrepareDownloadFileResponse_default (upload_file 9 ex_upload_f ex_sm)) = [BlockInfo_default]"
proof -
  have "ufr_status_code (snd (upload_file_response 9 ex_upload_f UploadFileResponse_default ex_sm)) = kOk" by code_simp
  from download_returns_upload [OF ex_sm_facts(1) this,
      of "PrepareDownloadFileRequest_default\<lparr>pdq_remote_path := ''/f''\<rparr>" PrepareDownloadFileResponse_default]
  show ?thesis by (simp add: ex_upload_f_def)
qed

text \<open>
  Preparing the upload of a new path reserves the next inode number and answers with the
  request's blocks in their order, each marked with that number and placed on two different data
  nodes; an existing path is refused and nothing is reserved.
\<close>

theorem prepare_upload_places:
  assumes "2 \<le> length (sm_data_nodes sm)" and "distinct (map ni_id (sm_data_nodes sm))"
    and "\<forall>b \<in> set (puq_blocks q). bi_data_node_id b = []"
  shows "\<exists>sm' r'. prepare_upload_file hash q r sm = Done (sm', r') \<and>
    (if um_contains (sm_dir_entries sm) (puq_remote_path q)
     then sm' = sm \<and> pur_status_code r' = kInvalidArgument
     else sm' = sm\<lparr>sm_next_ino := sm_next_ino sm + 1\<rparr> \<and> pur_status_code r' = kOk \<and>
       map bi_id (pur_blocks r') = map bi_id (puq_blocks q) \<and>
       (\<forall>b \<in> set (pur_blocks r'). bi_ino b = sm_next_ino sm \<and> length (bi_data_node_id b) = 2 \<and>
          distinct (bi_data_node_id b) \<and> set (bi_data_node_id b) \<subseteq> ni_id ` set (sm_data_nodes sm)))"
proof -
  have "sm_data_nodes sm \<noteq> []" using assms(1) by auto
  moreover have "bi_ino (place_block hash nodes ino b) = ino" "bi_id (place_block hash nodes ino b) = bi_id b" for nodes ino b
    by (simp_all add: place_block_def Let_def)
  ultimately show ?thesis
    using place_block_replicas [OF assms(1,2), where hash = hash and ino = "sm_next_ino sm"] assms(3)
    by (simp add: prepare_upload_file_def Let_def comp_def)
qed

theorem prepare_upload_places_witness:
  "\<exists>sm' r'. prepare_upload_file (\<lambda>x. x) (PrepareUploadFileRequest_default\<lparr>puq_remote_path := ''/f'', puq_blocks := [BlockInfo_default]\<rparr>)
       PrepareUploadFileResponse_default ex_sm = Done (sm', r')"
proof -
  have "2 \<le> length (sm_data_nodes ex_sm)" "distinct (map ni_id (sm_data_nodes ex_sm))" by code_simp+
  from prepare_upload_places [OF this, of "PrepareUploadFileRequest_default\<lparr>puq_remote_path := ''/f'', puq_blocks := [BlockInfo_default]\<rparr>"
      "\<lambda>x. x" PrepareUploadFileResponse_default]
  show ?thesis by (auto simp: BlockInfo_default_def)
qed

end
