(* ===== verification/Store_Theorems.thy ===== *)
theory Store_Theorems
  imports Raft_Example
begin

text \<open>
  The properties of the log in memory and of its durable copy: what is written is what is read,
  truncation removes a suffix, and the two ways of reading a range agree.
\<close>

section \<open>The durable copy\<close>

text \<open>
  The hard state that was saved last is the one a restarted node loads; on an empty
  database, loading stores and returns term 0 and no vote.
\<close>

theorem hard_state_roundtrip:
  assumes "rocksdb_spec R view" and "par_hard_state C (ser_hard_state C hs) = Some hs"
  shows "(save_hard_state R C hs db = Done db' \<and> reads_ok R db' \<longrightarrow> load_hard_state R C db' = (Inr hs, db')) \<and>
    (view db HARD_STATE_KEY = None \<and> reads_ok R db \<and> writes_ok R \<longrightarrow>
      (\<exists>db'. load_hard_state R C db = (Inr HardState_default, db') \<and>
        view db' HARD_STATE_KEY = Some (ser_hard_state C HardState_default)))"
proof -
  have 1: "load_hard_state R C db' = (Inr hs, db')" if "save_hard_state R C hs db = Done db'" "reads_ok R db'"
    using save_hard_state_view [OF assms(1) that(1)] assms(2)
    by (simp add: load_hard_state_def engine_get_view [OF assms(1) that(2)])
  have 2: "\<exists>db'. load_hard_state R C db = (Inr HardState_default, db') \<and>
      view db' HARD_STATE_KEY = Some (ser_hard_state C HardState_default)"
    if v: "view db HARD_STATE_KEY = None" and rd: "reads_ok R db" and wr: "writes_ok R"
  proof -
    obtain db' where s: "save_hard_state R C HardState_default db = Done db'" using save_hard_state_Done [OF wr] by blast
    then have "load_hard_state R C db = (Inr HardState_default, db')"
      using v by (auto simp: load_hard_state_def engine_get_view [OF assms(1) rd] save_hard_state_def
          HardState_default_def Let_def split: prod.splits if_splits)
    with save_hard_state_view [OF assms(1) s] show ?thesis by simp
  qed
  show ?thesis using 1 2 by blast
qed

theorem hard_state_roundtrip_witness:
  "load_hard_state ex_db ex_codec [HARD_STATE_KEY \<mapsto> ex_ser_hard \<lparr>hs_current_term = 4, hs_voted_for = Some 2\<rparr>] =
     (Inr \<lparr>hs_current_term = 4, hs_voted_for = Some 2\<rparr>, [HARD_STATE_KEY \<mapsto> ex_ser_hard \<lparr>hs_current_term = 4, hs_voted_for = Some 2\<rparr>])"
  using hard_state_roundtrip [OF ex_rocksdb_spec, of ex_codec "\<lparr>hs_current_term = 4, hs_voted_for = Some 2\<rparr>" Map.empty
      "[HARD_STATE_KEY \<mapsto> ex_ser_hard \<lparr>hs_current_term = 4, hs_voted_for = Some 2\<rparr>]"]
  by (simp add: ex_reads_ok)

lemma put_raw_other: "\<forall>e \<in> set es. get_entry_key (le_index e) \<noteq> k \<Longrightarrow> fold (put_raw C) es m k = m k"
  by (induction es arbitrary: m) (auto simp: put_raw_def)

text \<open>
  Entries saved behind position \<open>prev\<close>, with nothing stored after them, are exactly what
  loading from \<open>prev\<close> returns, in order.
\<close>

theorem entries_roundtrip:
  assumes "rocksdb_spec R view" and "\<forall>e \<in> set es. par_entry C (ser_entry C e) = Some e" and "follows prev es"
    and "save_entries R C es db = Done db'" and "reads_ok R db'"
    and "view db (get_entry_key (prev + 1 + of_nat (length es))) = None" and "unat prev + length es < 2 ^ 64 - 1"
  shows "load_entries R C prev db' = Some (Inr es)"
proof -
  have pos: "unat (prev + 1 + of_nat k) = unat prev + 1 + k" if "k \<le> length es" for k
    using that assms(7) unat_add_of_nat [of prev "Suc k"] by (simp add: add.assoc)
  have st: "st_log (stored_of C (view db')) = fold put_log es (st_log (stored_of C (view db)))"
    using stored_save_entries [OF assms(1,2,4)] by simp
  have "st_log (stored_of C (view db')) (prev + 1 + of_nat k) = Some (es ! k)" if "k < length es" for k
    using that pos [of k] by (simp add: st fold_put_log [OF assms(3)])
  moreover have "view db' (get_entry_key (prev + 1 + of_nat (length es))) = None"
  proof -
    have "view db' = fold (put_raw C) es (view db)" by (rule save_entries_view [OF assms(1,4)])
    moreover have "le_index (es ! k) \<noteq> prev + 1 + of_nat (length es)" if "k < length es" for k
    proof -
      have "unat (le_index (es ! k)) < unat (prev + 1 + of_nat (length es))"
        using that assms(3) pos [of "length es"] by (simp add: follows_def)
      then show ?thesis by auto
    qed
    then have "\<forall>e \<in> set es. get_entry_key (le_index e) \<noteq> get_entry_key (prev + 1 + of_nat (length es))"
      by (auto simp: in_set_conv_nth)
    ultimately show ?thesis using assms(6) by (simp add: put_raw_other)
  qed
  ultimately show ?thesis
    using load_entries_loop_reads [OF assms(1,5), of es C "prev + 1" "[]"] by (simp add: load_entries_def)
qed

theorem entries_roundtrip_witness:
  "load_entries ex_db ex_codec 0 (fold (put_raw ex_codec) [ex_entry 1, ex_entry 2] Map.empty) = Some (Inr [ex_entry 1, ex_entry 2])"
  by (rule entries_roundtrip [OF ex_rocksdb_spec, where db = Map.empty]) (simp_all add: ex_reads_ok)

section \<open>The log in memory\<close>

text \<open>
  Cutting a well-formed log at a position and appending entries that start there keeps
  every term below the position, makes every new entry readable, and leaves the log well-formed.
\<close>

theorem log_suffix_replaced:
  assumes "log_wf l" and "last_included_index l < i" and "i \<le> last_log_index l" and "follows (i - 1) es"
  shows "\<exists>l'. truncate_entries_before i l = Some l' \<and> log_wf (append_entries es l') \<and>
    (\<forall>j < i. get_term (append_entries es l') j = get_term l j) \<and>
    (\<forall>e \<in> set es. get_term (append_entries es l') (le_index e) = Some (le_term e)) \<and>
    unat (last_log_index (append_entries es l')) = unat i - 1 + length es"
  using rlog.replace_suffix [OF assms] by metis

theorem log_suffix_replaced_witness:
  "\<exists>l'. truncate_entries_before 1 (ex_log [ex_entry 1, ex_entry 2]) = Some l' \<and>
     unat (last_log_index (append_entries [ex_entry 1] l')) = 1"
proof -
  have "\<exists>l'. truncate_entries_before 1 (ex_log [ex_entry 1, ex_entry 2]) = Some l' \<and> log_wf (append_entries [ex_entry 1] l') \<and>
    (\<forall>j < 1. get_term (append_entries [ex_entry 1] l') j = get_term (ex_log [ex_entry 1, ex_entry 2]) j) \<and>
    (\<forall>e \<in> set [ex_entry 1]. get_term (append_entries [ex_entry 1] l') (le_index e) = Some (le_term e)) \<and>
    unat (last_log_index (append_entries [ex_entry 1] l')) = unat (1 :: u64) - 1 + length [ex_entry 1]"
    by (rule log_suffix_replaced) simp_all
  then show ?thesis by auto
qed

text \<open>
  The copy and the view of a range of the log are the same entries, and each entry of it is the
  one \<open>get_entry\<close> returns for its index.
\<close>

theorem ranges_agree:
  assumes "log_wf l" and "in_log l i" and "unat i + unat sz \<le> unat (last_log_index l) + 1"
  shows "get_entries l i sz = get_entries_span l i sz \<and>
    (\<exists>es. get_entries l i sz = Some es \<and> length es = unat sz \<and>
      (\<forall>k < length es. get_entry l (i + of_nat k) = Some (es ! k)))"
proof -
  let ?a = "arr_idx l i"
  have a: "?a = unat i - unat (rl_last_included_index l) - 1" "?a < length (rl_entries l)"
    using assms(1,2) by (simp add: arr_idx_in_log) (rule arr_idx_bound [OF assms(1,2)])
  have lt: "unat (rl_last_included_index l) < unat i" using assms(1,2) by (simp add: in_log_wf)
  have fits: "?a + unat sz \<le> length (rl_entries l)"
    using a assms(3) lt last_log_index_wf [OF assms(1)] by simp
  have "get_entry l (i + of_nat k) = Some (rl_entries l ! (?a + k))" if "k < unat sz" for k
  proof -
    have "unat i + k < 2 ^ 64" using that assms(3) unat_less_64 [of "last_log_index l"] by simp
    then have u: "unat (i + of_nat k) = unat i + k" by (rule unat_add_of_nat)
    with that lt assms(3) have "in_log l (i + of_nat k)"
      using last_log_index_wf [OF assms(1)] by (simp add: in_log_wf [OF assms(1)])
    with u lt a show ?thesis by (simp add: get_entry_wf [OF assms(1)] arr_idx_in_log)
  qed
  with fits assms(2) show ?thesis
    by (simp add: get_entries_def get_entries_span_def get_entries_loop_take Let_def)
qed

theorem ranges_agree_witness:
  "get_entries (ex_log [ex_entry 1, ex_entry 2]) 1 2 = get_entries_span (ex_log [ex_entry 1, ex_entry 2]) 1 2"
proof -
  have "in_log (ex_log [ex_entry 1, ex_entry 2]) 1" by (simp add: in_log_wf)
  from ranges_agree [OF _ this, of 2] show ?thesis by simp
qed

end
