(* ===== verification/Json_Api.thy ===== *)
theory Json_Api
  imports Unordered_Map Common "HOL-Library.Countable"
begin

text \<open>
  What the code uses of \<open>nlohmann::json\<close> and of file streams, neither of which is in the
  repository. A value is built by assigning to keys of a null value (\<open>json["k"] = v\<close>) and by
  \<open>push_back\<close>; it is read with \<open>json["k"].get<T>()\<close> and range-based \<open>for\<close>. \<open>None\<close> stands for an
  exception: text that does not parse, a key looked up in a value that is no object, a value of
  another type, a string that is not UTF-8 when it is dumped.
\<close>

record 'j json_api =
  js_parse :: "string \<Rightarrow> 'j option"
  js_dump :: "'j \<Rightarrow> string option"
  js_null :: 'j
  js_empty_array :: 'j
  js_of_u64 :: "u64 \<Rightarrow> 'j"
  js_of_u16 :: "u16 \<Rightarrow> 'j"
  js_of_string :: "string \<Rightarrow> 'j"
  js_of_flags :: "(u64, bool) umap \<Rightarrow> 'j"
  js_set :: "string \<Rightarrow> 'j \<Rightarrow> 'j \<Rightarrow> 'j"
  js_push_back :: "'j \<Rightarrow> 'j \<Rightarrow> 'j"
  js_at :: "'j \<Rightarrow> string \<Rightarrow> 'j option"
  js_elems :: "'j \<Rightarrow> 'j list"
  js_get_u64 :: "'j \<Rightarrow> u64 option"
  js_get_u16 :: "'j \<Rightarrow> u16 option"
  js_get_string :: "'j \<Rightarrow> string option"
  js_get_flags :: "'j \<Rightarrow> (u64, bool) umap option"

text \<open>
  \<open>std::ifstream\<close> and \<open>std::ofstream\<close> on a whole file: \<open>tf_write\<close> tells whether the stream was
  open; output to a stream that is not open is dropped without a message.
\<close>

record 'fs text_files =
  tf_exists :: "'fs \<Rightarrow> string \<Rightarrow> bool"
  tf_read :: "'fs \<Rightarrow> string \<Rightarrow> string option"
  tf_write :: "'fs \<Rightarrow> string \<Rightarrow> string \<Rightarrow> bool \<times> 'fs"

section \<open>Objects and arrays as the code writes them\<close>

definition js_object :: "'j json_api \<Rightarrow> (string \<times> 'j) list \<Rightarrow> 'j" where
  "js_object J kvs = fold (\<lambda>(k, v). js_set J k v) kvs (js_null J)"

definition js_list :: "'j json_api \<Rightarrow> 'j \<Rightarrow> 'j list \<Rightarrow> 'j" where
  "js_list J start vs = fold (\<lambda>v j. js_push_back J j v) vs start"

definition field_u64 :: "'j json_api \<Rightarrow> 'j \<Rightarrow> string \<Rightarrow> u64 outcome" where
  "field_u64 J j k = from_option (Option.bind (js_at J j k) (js_get_u64 J))"

definition field_u16 :: "'j json_api \<Rightarrow> 'j \<Rightarrow> string \<Rightarrow> u16 outcome" where
  "field_u16 J j k = from_option (Option.bind (js_at J j k) (js_get_u16 J))"

definition field_string :: "'j json_api \<Rightarrow> 'j \<Rightarrow> string \<Rightarrow> string outcome" where
  "field_string J j k = from_option (Option.bind (js_at J j k) (js_get_string J))"

definition field_flags :: "'j json_api \<Rightarrow> 'j \<Rightarrow> string \<Rightarrow> (u64, bool) umap outcome" where
  "field_flags J j k = from_option (Option.bind (js_at J j k) (js_get_flags J))"

definition field_elems :: "'j json_api \<Rightarrow> 'j \<Rightarrow> string \<Rightarrow> 'j list outcome" where
  "field_elems J j k = from_option (map_option (js_elems J) (js_at J j k))"

text \<open>A loop over the elements whose body may throw.\<close>

fun for_each :: "('a \<Rightarrow> 's \<Rightarrow> 's outcome) \<Rightarrow> 'a list \<Rightarrow> 's \<Rightarrow> 's outcome" where
  "for_each f [] s = Done s"
| "for_each f (x # xs) s = co_await (f x s) (for_each f xs)"

section \<open>What the code relies on\<close>

definition json_spec :: "'j json_api \<Rightarrow> bool" where
  "json_spec J \<longleftrightarrow>
     (\<forall>j s. js_dump J j = Some s \<longrightarrow> js_parse J s = Some j) \<and>
     (\<forall>kvs k v. map_of (rev kvs) k = Some v \<longrightarrow> js_at J (js_object J kvs) k = Some v) \<and>
     (\<forall>vs. js_elems J (js_list J (js_null J) vs) = vs \<and> js_elems J (js_list J (js_empty_array J) vs) = vs) \<and>
     (\<forall>v. js_get_u64 J (js_of_u64 J v) = Some v) \<and>
     (\<forall>v. js_get_u16 J (js_of_u16 J v) = Some v) \<and>
     (\<forall>s. js_get_string J (js_of_string J s) = Some s) \<and>
     (\<forall>m. um_wf m \<longrightarrow> (\<exists>m'. js_get_flags J (js_of_flags J m) = Some m' \<and> um_wf m' \<and> um_find m' = um_find m)) \<and>
     (\<forall>j m. js_get_flags J j = Some m \<longrightarrow> um_wf m)"

definition text_spec :: "'fs text_files \<Rightarrow> bool" where
  "text_spec F \<longleftrightarrow>
     (\<forall>fs p s fs'. tf_write F fs p s = (True, fs') \<longrightarrow> tf_read F fs' p = Some s \<and> tf_exists F fs' p)"

lemma json_parse_dump: "json_spec J \<Longrightarrow> js_dump J j = Some s \<Longrightarrow> js_parse J s = Some j"
  by (simp add: json_spec_def)

lemma json_elems:
  "json_spec J \<Longrightarrow> js_elems J (js_list J (js_null J) vs) = vs"
  "json_spec J \<Longrightarrow> js_elems J (js_list J (js_empty_array J) vs) = vs"
  by (simp_all add: json_spec_def)

lemma json_at: "json_spec J \<Longrightarrow> map_of (rev kvs) k = Some v \<Longrightarrow> js_at J (js_object J kvs) k = Some v"
  by (simp add: json_spec_def)

text \<open>Reading a field of an object that the code has just written.\<close>

lemma field_simps:
  assumes "json_spec J"
  shows "map_of (rev kvs) k = Some (js_of_u64 J a) \<Longrightarrow> field_u64 J (js_object J kvs) k = Done a"
    and "map_of (rev kvs) k = Some (js_of_u16 J b) \<Longrightarrow> field_u16 J (js_object J kvs) k = Done b"
    and "map_of (rev kvs) k = Some (js_of_string J s) \<Longrightarrow> field_string J (js_object J kvs) k = Done s"
    and "map_of (rev kvs) k = Some (js_list J (js_null J) vs) \<Longrightarrow> field_elems J (js_object J kvs) k = Done vs"
    and "map_of (rev kvs) k = Some (js_list J (js_empty_array J) vs) \<Longrightarrow> field_elems J (js_object J kvs) k = Done vs"
  using assms json_at [OF assms] json_elems [OF assms]
  by (simp_all add: field_u64_def field_u16_def field_string_def field_elems_def) (simp_all add: json_spec_def)

lemma field_flags_written:
  assumes "json_spec J" and "map_of (rev kvs) k = Some (js_of_flags J m)" and "um_wf m"
  obtains m' where "field_flags J (js_object J kvs) k = Done m'" and "um_wf m'" and "um_find m' = um_find m"
proof -
  from assms(1,3) obtain m' where "js_get_flags J (js_of_flags J m) = Some m'" "um_wf m'" "um_find m' = um_find m"
    unfolding json_spec_def by blast
  with json_at [OF assms(1,2)] show thesis by (intro that [of m']) (simp_all add: field_flags_def)
qed

lemma field_flags_wf: "json_spec J \<Longrightarrow> field_flags J j k = Done m \<Longrightarrow> um_wf m"
  by (auto simp: field_flags_def json_spec_def from_option_Done_iff bind_eq_Some_conv)

text \<open>What every round keeps holds at the end.\<close>

lemma for_each_inv:
  assumes "for_each f xs s = Done s'" and "P s" and "\<And>x s s'. x \<in> set xs \<Longrightarrow> P s \<Longrightarrow> f x s = Done s' \<Longrightarrow> P s'"
  shows "P s'"
  using assms by (induction xs arbitrary: s) (auto simp: co_await_Done_iff)

lemma for_each_fold:
  assumes "\<And>x s. x \<in> set xs \<Longrightarrow> f (g x) s = Done (h x s)"
  shows "for_each f (map g xs) s = Done (fold h xs s)"
  using assms by (induction xs arbitrary: s) simp_all

section \<open>An instance\<close>

text \<open>Values as a tree, numbered to give them a text.\<close>

datatype jval = JNull | JNum u64 | JStr string | JFlags "(u64 \<times> bool) list" | JArr "jval list" | JObj "(string \<times> jval) list"

instance jval :: countable
  by countable_datatype

definition ex_set :: "string \<Rightarrow> jval \<Rightarrow> jval \<Rightarrow> jval" where
  "ex_set k v j = (case j of JObj kvs \<Rightarrow> JObj ((k, v) # kvs) | _ \<Rightarrow> JObj [(k, v)])"

definition ex_push :: "jval \<Rightarrow> jval \<Rightarrow> jval" where
  "ex_push j v = (case j of JArr vs \<Rightarrow> JArr (vs @ [v]) | _ \<Rightarrow> JArr [v])"

definition ex_at :: "jval \<Rightarrow> string \<Rightarrow> jval option" where
  "ex_at j k = (case j of
      JObj kvs \<Rightarrow> Some (case map_of kvs k of Some v \<Rightarrow> v | None \<Rightarrow> JNull)
    | JNull \<Rightarrow> Some JNull
    | _ \<Rightarrow> None)"

definition ex_json :: "jval json_api" where
  "ex_json = \<lparr>js_parse = (\<lambda>s. Some (from_nat (length s))), js_dump = (\<lambda>j. Some (replicate (to_nat j) (CHR ''1''))),
     js_null = JNull, js_empty_array = JArr [], js_of_u64 = JNum, js_of_u16 = (\<lambda>v. JNum (ucast v)), js_of_string = JStr,
     js_of_flags = JFlags, js_set = ex_set, js_push_back = ex_push, js_at = ex_at,
     js_elems = (\<lambda>j. case j of JArr vs \<Rightarrow> vs | _ \<Rightarrow> []),
     js_get_u64 = (\<lambda>j. case j of JNum v \<Rightarrow> Some v | _ \<Rightarrow> None),
     js_get_u16 = (\<lambda>j. case j of JNum v \<Rightarrow> Some (ucast v) | _ \<Rightarrow> None),
     js_get_string = (\<lambda>j. case j of JStr s \<Rightarrow> Some s | _ \<Rightarrow> None),
     js_get_flags = (\<lambda>j. case j of JFlags m \<Rightarrow> (if um_wf m then Some m else None) | _ \<Rightarrow> None)\<rparr>"

lemma ex_object: "js_object ex_json kvs = (if kvs = [] then JNull else JObj (rev kvs))"
proof -
  have "fold (\<lambda>(k, v). ex_set k v) kvs (JObj l) = JObj (rev kvs @ l)" for l
    by (induction kvs arbitrary: l) (auto simp: ex_set_def)
  then show ?thesis by (cases kvs) (auto simp: js_object_def ex_json_def ex_set_def)
qed

lemma ex_list:
  "js_elems ex_json (js_list ex_json JNull vs) = vs" "js_elems ex_json (js_list ex_json (JArr []) vs) = vs"
proof -
  have f: "fold (\<lambda>v j. ex_push j v) vs (JArr l) = JArr (l @ vs)" for l vs
    by (induction vs arbitrary: l) (simp_all add: ex_push_def)
  have "ex_push JNull v = JArr [v]" for v by (simp add: ex_push_def)
  then show "js_elems ex_json (js_list ex_json JNull vs) = vs"
    by (cases vs) (simp_all add: js_list_def ex_json_def f)
  show "js_elems ex_json (js_list ex_json (JArr []) vs) = vs"
    by (simp add: js_list_def ex_json_def f)
qed

lemma ex_json_spec: "json_spec ex_json"
proof -
  have "js_at ex_json (js_object ex_json kvs) k = Some v" if "map_of (rev kvs) k = Some v" for kvs k v
    using that by (cases "kvs = []") (simp_all add: ex_object, simp add: ex_json_def ex_at_def)
  moreover have "js_null ex_json = JNull" "js_empty_array ex_json = JArr []" by (simp_all add: ex_json_def)
  ultimately show ?thesis
    using ex_list unfolding json_spec_def by (simp_all) (auto simp: ex_json_def is_up ucast_up_ucast_id split: jval.splits if_splits)
qed

definition ex_texts :: "(string \<rightharpoonup> string) text_files" where
  "ex_texts = \<lparr>tf_exists = (\<lambda>fs p. fs p \<noteq> None), tf_read = (\<lambda>fs p. fs p), tf_write = (\<lambda>fs p s. (True, fs(p \<mapsto> s)))\<rparr>"

lemma ex_text_spec: "text_spec ex_texts"
  by (auto simp: text_spec_def ex_texts_def)

end
