(* ===== verification/Config_Files.thy ===== *)
theory Config_Files
  imports Json_Api Raft_Config
begin

text \<open>
  The configuration files: \<open>Config::from_json\<close> and \<open>Config::to_json\<close> of the Raft node
  (\<open>include/vosfs/raft/config.hpp\<close>), of the data node (\<open>include/vosfs/storage/config.hpp\<close>) and of
  the client (\<open>include/vosfs/ui/config.hpp\<close>), with the builders of the latter two.
  \<open>from_json\<close> returns an error when the file does not open; an exception of the JSON library is
  \<open>Crashed\<close>. \<open>to_json\<close> does not report a stream that failed to open.
\<close>

definition read_json :: "'fs text_files \<Rightarrow> 'j json_api \<Rightarrow> 'fs \<Rightarrow> string \<Rightarrow> 'j Result outcome" where
  "read_json F J fs path =
     (case tf_read F fs path of
        None \<Rightarrow> Done (Inl (make_error kFileOpenFailed))
      | Some text \<Rightarrow> co_await (from_option (js_parse J text)) (\<lambda>json. Done (Inr json)))"

definition write_json :: "'fs text_files \<Rightarrow> 'j json_api \<Rightarrow> 'j \<Rightarrow> string \<Rightarrow> 'fs \<Rightarrow> 'fs outcome" where
  "write_json F J json path fs =
     co_await (from_option (js_dump J json)) (\<lambda>text. Done (snd (tf_write F fs path text)))"

section \<open>The Raft node\<close>

definition NodeInfo_to_json :: "'j json_api \<Rightarrow> NodeInfo \<Rightarrow> 'j" where
  "NodeInfo_to_json J node =
     js_object J [(''id'', js_of_u64 J (ni_id node)), (''name'', js_of_string J (ni_name node)),
       (''host'', js_of_string J (ni_host node)), (''port'', js_of_u16 J (ni_port node))]"

definition NodeInfo_from_json :: "'j json_api \<Rightarrow> 'j \<Rightarrow> NodeInfo outcome" where
  "NodeInfo_from_json J node =
     co_await (field_u64 J node ''id'') (\<lambda>i.
     co_await (field_string J node ''name'') (\<lambda>name.
     co_await (field_string J node ''host'') (\<lambda>host.
     co_await (field_u16 J node ''port'') (\<lambda>port.
       Done \<lparr>ni_id = i, ni_name = name, ni_host = host, ni_port = port\<rparr>))))"

definition Config_json :: "'j json_api \<Rightarrow> Config \<Rightarrow> 'j" where
  "Config_json J c =
     js_object J
       [(''data_dir'', js_of_string J (cfg_data_dir c)), (''cluster_id'', js_of_u64 J (cfg_cluster_id c)),
        (''member_id'', js_of_u64 J (cfg_member_id c)), (''name'', js_of_string J (cfg_name c)),
        (''host'', js_of_string J (cfg_host c)), (''port'', js_of_u16 J (cfg_port c)),
        (''raft_nodes'', js_list J (js_null J) (map (NodeInfo_to_json J) (um_values (cfg_raft_nodes c)))),
        (''data_nodes'', js_list J (js_null J) (map (NodeInfo_to_json J) (cfg_data_nodes c)))]"

definition Config_to_json :: "'fs text_files \<Rightarrow> 'j json_api \<Rightarrow> string \<Rightarrow> Config \<Rightarrow> 'fs \<Rightarrow> 'fs outcome" where
  "Config_to_json F J path c fs = write_json F J (Config_json J c) path fs"

definition Config_of_json :: "'j json_api \<Rightarrow> 'j \<Rightarrow> Config outcome" where
  "Config_of_json J json =
     co_await (field_string J json ''data_dir'') (\<lambda>data_dir.
     co_await (field_u64 J json ''cluster_id'') (\<lambda>cluster_id.
     co_await (field_u64 J json ''member_id'') (\<lambda>local_id.
     co_await (field_string J json ''name'') (\<lambda>local_name.
     co_await (field_string J json ''host'') (\<lambda>local_host.
     co_await (field_u16 J json ''port'') (\<lambda>local_port.
     co_await (field_elems J json ''raft_nodes'') (\<lambda>raft_nodes_json.
     co_await (for_each (\<lambda>node m. co_await (NodeInfo_from_json J node) (\<lambda>n. Done (um_emplace (ni_id n) n m)))
        raft_nodes_json []) (\<lambda>raft_nodes.
     co_await (field_elems J json ''data_nodes'') (\<lambda>data_nodes_json.
     co_await (for_each (\<lambda>node ns. co_await (NodeInfo_from_json J node) (\<lambda>n. Done (ns @ [n])))
        data_nodes_json []) (\<lambda>data_nodes.
       Done \<lparr>cfg_data_dir = data_dir, cfg_cluster_id = cluster_id, cfg_member_id = local_id, cfg_name = local_name,
         cfg_host = local_host, cfg_port = local_port, cfg_raft_nodes = raft_nodes, cfg_data_nodes = data_nodes\<rparr>))))))))))"

definition Config_from_json :: "'fs text_files \<Rightarrow> 'j json_api \<Rightarrow> 'fs \<Rightarrow> string \<Rightarrow> Config Result outcome" where
  "Config_from_json F J fs path =
     co_await (read_json F J fs path) (\<lambda>r. case r of
        Inl e \<Rightarrow> Done (Inl e)
      | Inr json \<Rightarrow> co_await (Config_of_json J json) (\<lambda>c. Done (Inr c)))"

section \<open>The data node\<close>

record StorageConfig =
  sc_host :: string
  sc_port :: u16
  sc_block_dir :: string

definition StorageConfig_default :: StorageConfig where
  "StorageConfig_default = \<lparr>sc_host = ''0.0.0.0'', sc_port = 7070, sc_block_dir = ''vosfs_blocks''\<rparr>"

definition storage_set_host :: "string \<Rightarrow> StorageConfig \<Rightarrow> StorageConfig" where
  "storage_set_host h c = c\<lparr>sc_host := h\<rparr>"

definition storage_set_port :: "u16 \<Rightarrow> StorageConfig \<Rightarrow> StorageConfig" where
  "storage_set_port p c = c\<lparr>sc_port := p\<rparr>"

definition storage_set_block_dir :: "string \<Rightarrow> StorageConfig \<Rightarrow> StorageConfig" where
  "storage_set_block_dir d c = c\<lparr>sc_block_dir := d\<rparr>"

definition storage_options :: StorageConfig where
  "storage_options = StorageConfig_default"

definition StorageConfig_to_json :: "'fs text_files \<Rightarrow> 'j json_api \<Rightarrow> string \<Rightarrow> StorageConfig \<Rightarrow> 'fs \<Rightarrow> 'fs outcome" where
  "StorageConfig_to_json F J path c fs =
     write_json F J (js_object J [(''host'', js_of_string J (sc_host c)), (''port'', js_of_u16 J (sc_port c)),
       (''block_dir'', js_of_string J (sc_block_dir c))]) path fs"

definition StorageConfig_from_json :: "'fs text_files \<Rightarrow> 'j json_api \<Rightarrow> 'fs \<Rightarrow> string \<Rightarrow> StorageConfig Result outcome" where
  "StorageConfig_from_json F J fs path =
     co_await (read_json F J fs path) (\<lambda>r. case r of
        Inl e \<Rightarrow> Done (Inl e)
      | Inr json \<Rightarrow>
          co_await (field_string J json ''host'') (\<lambda>host.
          co_await (field_u16 J json ''port'') (\<lambda>port.
          co_await (field_string J json ''block_dir'') (\<lambda>block_dir.
            Done (Inr \<lparr>sc_host = host, sc_port = port, sc_block_dir = block_dir\<rparr>)))))"

section \<open>The client\<close>

record UiNodeInfo =
  un_id :: u64
  un_host :: string
  un_port :: u16

record UiConfig =
  uc_auth_host :: string
  uc_auth_port :: u16
  uc_raft_nodes :: "(u64, UiNodeInfo) umap"
  uc_data_nodes :: "(u64, UiNodeInfo) umap"

definition UiConfig_default :: UiConfig where
  "UiConfig_default = \<lparr>uc_auth_host = ''127.0.0.1'', uc_auth_port = 9000, uc_raft_nodes = [], uc_data_nodes = []\<rparr>"

definition ui_options :: UiConfig where
  "ui_options = UiConfig_default"

definition ui_set_auth_host :: "string \<Rightarrow> UiConfig \<Rightarrow> UiConfig" where
  "ui_set_auth_host h c = c\<lparr>uc_auth_host := h\<rparr>"

definition ui_set_auth_port :: "u16 \<Rightarrow> UiConfig \<Rightarrow> UiConfig" where
  "ui_set_auth_port p c = c\<lparr>uc_auth_port := p\<rparr>"

definition ui_add_raft_node :: "u64 \<Rightarrow> string \<Rightarrow> u16 \<Rightarrow> UiConfig \<Rightarrow> UiConfig" where
  "ui_add_raft_node i h p c = c\<lparr>uc_raft_nodes := um_emplace i \<lparr>un_id = i, un_host = h, un_port = p\<rparr> (uc_raft_nodes c)\<rparr>"

definition ui_add_data_node :: "u64 \<Rightarrow> string \<Rightarrow> u16 \<Rightarrow> UiConfig \<Rightarrow> UiConfig" where
  "ui_add_data_node i h p c = c\<lparr>uc_data_nodes := um_emplace i \<lparr>un_id = i, un_host = h, un_port = p\<rparr> (uc_data_nodes c)\<rparr>"

definition UiNodeInfo_to_json :: "'j json_api \<Rightarrow> UiNodeInfo \<Rightarrow> 'j" where
  "UiNodeInfo_to_json J node =
     js_object J [(''id'', js_of_u64 J (un_id node)), (''host'', js_of_string J (un_host node)),
       (''port'', js_of_u16 J (un_port node))]"

definition UiNodeInfo_from_json :: "'j json_api \<Rightarrow> 'j \<Rightarrow> UiNodeInfo outcome" where
  "UiNodeInfo_from_json J node =
     co_await (field_u64 J node ''id'') (\<lambda>i.
     co_await (field_string J node ''host'') (\<lambda>host.
     co_await (field_u16 J node ''port'') (\<lambda>port.
       Done \<lparr>un_id = i, un_host = host, un_port = port\<rparr>)))"

definition UiConfig_json :: "'j json_api \<Rightarrow> UiConfig \<Rightarrow> 'j" where
  "UiConfig_json J c =
     js_object J
       [(''auth_host'', js_of_string J (uc_auth_host c)), (''auth_port'', js_of_u16 J (uc_auth_port c)),
        (''raft_nodes'', js_list J (js_null J) (map (UiNodeInfo_to_json J) (um_values (uc_raft_nodes c)))),
        (''data_nodes'', js_list J (js_null J) (map (UiNodeInfo_to_json J) (um_values (uc_data_nodes c))))]"

text \<open>An existing file is left alone.\<close>

definition UiConfig_to_json :: "'fs text_files \<Rightarrow> 'j json_api \<Rightarrow> string \<Rightarrow> UiConfig \<Rightarrow> 'fs \<Rightarrow> 'fs outcome" where
  "UiConfig_to_json F J path c fs =
     (if tf_exists F fs path then Done fs else write_json F J (UiConfig_json J c) path fs)"

definition UiConfig_of_json :: "'j json_api \<Rightarrow> 'j \<Rightarrow> UiConfig outcome" where
  "UiConfig_of_json J json =
     co_await (field_string J json ''auth_host'') (\<lambda>auth_host.
     co_await (field_u16 J json ''auth_port'') (\<lambda>auth_port.
     co_await (field_elems J json ''raft_nodes'') (\<lambda>raft_nodes_json.
     co_await (for_each (\<lambda>node m. co_await (UiNodeInfo_from_json J node) (\<lambda>n. Done (um_emplace (un_id n) n m)))
        raft_nodes_json []) (\<lambda>raft_nodes.
     co_await (field_elems J json ''data_nodes'') (\<lambda>data_nodes_json.
     co_await (for_each (\<lambda>node m. co_await (UiNodeInfo_from_json J node) (\<lambda>n. Done (um_emplace (un_id n) n m)))
        data_nodes_json []) (\<lambda>data_nodes.
       Done \<lparr>uc_auth_host = auth_host, uc_auth_port = auth_port, uc_raft_nodes = raft_nodes, uc_data_nodes = data_nodes\<rparr>))))))"

definition UiConfig_from_json :: "'fs text_files \<Rightarrow> 'j json_api \<Rightarrow> 'fs \<Rightarrow> string \<Rightarrow> UiConfig Result outcome" where
  "UiConfig_from_json F J fs path =
     co_await (read_json F J fs path) (\<lambda>r. case r of
        Inl e \<Rightarrow> Done (Inl e)
      | Inr json \<Rightarrow> co_await (UiConfig_of_json J json) (\<lambda>c. Done (Inr c)))"

section \<open>Reading what was written\<close>

lemma NodeInfo_json: "json_spec J \<Longrightarrow> NodeInfo_from_json J (NodeInfo_to_json J n) = Done n"
  by (simp add: NodeInfo_from_json_def NodeInfo_to_json_def field_simps)

lemma UiNodeInfo_json: "json_spec J \<Longrightarrow> UiNodeInfo_from_json J (UiNodeInfo_to_json J n) = Done n"
  by (simp add: UiNodeInfo_from_json_def UiNodeInfo_to_json_def field_simps)

lemma fold_snoc: "fold (\<lambda>x ys. ys @ [x]) xs zs = zs @ xs"
  by (induction xs arbitrary: zs) simp_all

text \<open>Elements stored under their own ids are read back in the same order.\<close>

lemma fold_emplace_values:
  assumes "um_wf (m @ ns)" and "\<forall>(i, n) \<in> set ns. key n = i"
  shows "fold (\<lambda>n. um_emplace (key n) n) (um_values ns) m = m @ ns"
  using assms
proof (induction ns arbitrary: m)
  case Nil
  then show ?case by (simp add: um_values_def)
next
  case (Cons x ns)
  obtain i n where x: "x = (i, n)" "key n = i" using Cons.prems(2) by (cases x) auto
  then have "um_emplace i n m = m @ [x]"
    using Cons.prems(1) by (auto simp: um_emplace_def um_contains_def um_find_def um_wf_def map_of_eq_None_iff)
  with Cons x show ?case by (simp add: um_values_def)
qed

lemma Config_json_roundtrip:
  assumes J: "json_spec J" and c: "config_wf c"
  shows "Config_of_json J (Config_json J c) = Done c"
proof -
  have "for_each (\<lambda>node m. co_await (NodeInfo_from_json J node) (\<lambda>n. Done (um_emplace (ni_id n) n m)))
      (map (NodeInfo_to_json J) (um_values (cfg_raft_nodes c))) [] = Done (cfg_raft_nodes c)"
    using c for_each_fold [where h = "\<lambda>n. um_emplace (ni_id n) n" and g = "NodeInfo_to_json J"]
      fold_emplace_values [of "[]" "cfg_raft_nodes c" ni_id] by (simp add: NodeInfo_json [OF J] config_wf_def)
  moreover have "for_each (\<lambda>node ns. co_await (NodeInfo_from_json J node) (\<lambda>n. Done (ns @ [n])))
      (map (NodeInfo_to_json J) (cfg_data_nodes c)) [] = Done (cfg_data_nodes c)"
    using for_each_fold [where h = "\<lambda>n ns. ns @ [n]" and g = "NodeInfo_to_json J"]
    by (simp add: NodeInfo_json [OF J] fold_snoc)
  ultimately show ?thesis by (simp add: Config_of_json_def Config_json_def field_simps [OF J])
qed

definition ui_nodes_wf :: "(u64, UiNodeInfo) umap \<Rightarrow> bool" where
  "ui_nodes_wf m \<longleftrightarrow> um_wf m \<and> (\<forall>(i, n) \<in> set m. un_id n = i)"

lemma ui_nodes_read:
  assumes "json_spec J" and "ui_nodes_wf m"
  shows "for_each (\<lambda>node m. co_await (UiNodeInfo_from_json J node) (\<lambda>n. Done (um_emplace (un_id n) n m)))
    (map (UiNodeInfo_to_json J) (um_values m)) [] = Done m"
  using assms(2) for_each_fold [where h = "\<lambda>n. um_emplace (un_id n) n" and g = "UiNodeInfo_to_json J"]
    fold_emplace_values [of "[]" m un_id] by (simp add: UiNodeInfo_json [OF assms(1)] ui_nodes_wf_def)

lemma UiConfig_json_roundtrip:
  assumes J: "json_spec J" and "ui_nodes_wf (uc_raft_nodes c)" and "ui_nodes_wf (uc_data_nodes c)"
  shows "UiConfig_of_json J (UiConfig_json J c) = Done c"
  using ui_nodes_read [OF J assms(2)] ui_nodes_read [OF J assms(3)]
  by (simp add: UiConfig_of_json_def UiConfig_json_def field_simps [OF J])

text \<open>The stream was open and the text was stored.\<close>

lemma write_read_json:
  assumes "json_spec J" and "text_spec F" and "write_json F J json path fs = Done fs'"
    and "\<And>s. fst (tf_write F fs path s)"
  shows "read_json F J fs' path = Done (Inr json)"
proof -
  from assms(3) obtain s where s: "js_dump J json = Some s" "fs' = snd (tf_write F fs path s)"
    by (auto simp: write_json_def co_await_Done_iff from_option_Done_iff)
  with assms(4) [of s] have "tf_write F fs path s = (True, fs')" by (simp add: prod_eq_iff)
  with assms(2) have "tf_read F fs' path = Some s" unfolding text_spec_def by blast
  with json_parse_dump [OF assms(1) s(1)] show ?thesis by (simp add: read_json_def)
qed

lemma UiConfig_file_roundtrip:
  assumes "json_spec J" and "text_spec F" and "\<And>s. fst (tf_write F fs path s)"
    and "ui_nodes_wf (uc_raft_nodes u)" and "ui_nodes_wf (uc_data_nodes u)" and "\<not> tf_exists F fs path"
    and "UiConfig_to_json F J path u fs = Done fs'"
  shows "UiConfig_from_json F J fs' path = Done (Inr u)"
proof -
  from assms(6,7) have "write_json F J (UiConfig_json J u) path fs = Done fs'" by (simp add: UiConfig_to_json_def)
  from write_read_json [OF assms(1,2) this assms(3)] UiConfig_json_roundtrip [OF assms(1,4,5)]
  show ?thesis by (simp add: UiConfig_from_json_def)
qed

text \<open>
  C38. Each of the three programs reads from its configuration file the configuration that was
  written there, when the stream could be opened; the client writes only when there is no file.
\<close>

theorem config_roundtrip:
  assumes "json_spec J" and "text_spec F" and "\<And>s. fst (tf_write F fs path s)"
  shows "(config_wf c \<and> Config_to_json F J path c fs = Done fs' \<longrightarrow> Config_from_json F J fs' path = Done (Inr c)) \<and>
    (StorageConfig_to_json F J path d fs = Done fs' \<longrightarrow> StorageConfig_from_json F J fs' path = Done (Inr d)) \<and>
    (ui_nodes_wf (uc_raft_nodes u) \<and> ui_nodes_wf (uc_data_nodes u) \<and> \<not> tf_exists F fs path \<and>
       UiConfig_to_json F J path u fs = Done fs' \<longrightarrow> UiConfig_from_json F J fs' path = Done (Inr u)) \<and>
    (tf_exists F fs path \<longrightarrow> UiConfig_to_json F J path u fs = Done fs)"
proof (intro conjI impI; (elim conjE)?)
  note rd = write_read_json [OF assms(1,2) _ assms(3)]
  show "Config_from_json F J fs' path = Done (Inr c)" if "config_wf c" "Config_to_json F J path c fs = Done fs'"
    using rd [OF that(2) [unfolded Config_to_json_def]] Config_json_roundtrip [OF assms(1) that(1)]
    by (simp add: Config_from_json_def)
  show "StorageConfig_from_json F J fs' path = Done (Inr d)" if "StorageConfig_to_json F J path d fs = Done fs'"
    using rd [OF that [unfolded StorageConfig_to_json_def]]
    by (simp add: StorageConfig_from_json_def field_simps [OF assms(1)])
  show "UiConfig_from_json F J fs' path = Done (Inr u)" if "ui_nodes_wf (uc_raft_nodes u)" "ui_nodes_wf (uc_data_nodes u)"
    "\<not> tf_exists F fs path" "UiConfig_to_json F J path u fs = Done fs'"
    by (rule UiConfig_file_roundtrip [OF assms that])
qed (simp add: UiConfig_to_json_def)

theorem config_roundtrip_witness:
  "\<exists>fs'. Config_to_json ex_texts ex_json ''c'' (add_raft_node 1 ''a'' ''h'' 2 builder_options) Map.empty = Done fs' \<and>
     Config_from_json ex_texts ex_json fs' ''c'' = Done (Inr (add_raft_node 1 ''a'' ''h'' 2 builder_options))"
proof -
  let ?c = "add_raft_node 1 ''a'' ''h'' 2 builder_options"
  obtain fs' where w: "Config_to_json ex_texts ex_json ''c'' ?c Map.empty = Done fs'"
    by (simp add: Config_to_json_def write_json_def ex_json_def)
  have open': "\<And>s. fst (tf_write ex_texts Map.empty ''c'' s)" by (simp add: ex_texts_def)
  have "config_wf ?c" by (intro config_wf_add_raft_node config_wf_default)
  with config_roundtrip [OF ex_json_spec ex_text_spec open', of ?c fs' StorageConfig_default UiConfig_default] w
  show ?thesis by blast
qed

end
