(* ===== verification/Client_Text.thy ===== *)
theory Client_Text
  imports Message_Text
begin

text \<open>
  The texts the client (\<open>src/ui/client.cpp\<close>) shows in its log, as lists of their UTF-8 bytes. A text
  with placeholders of \<open>std::format\<close> is a function of what fills them; an error is given as the text
  its formatter prints.
\<close>

definition msg_type_upload :: string where
  \<comment> \<open>upload\<close>
  "msg_type_upload =
    utf8
      [0xE4, 0xB8, 0x8A, 0xE4, 0xBC, 0xA0]"

definition msg_type_download :: string where
  \<comment> \<open>download\<close>
  "msg_type_download =
    utf8
      [0xE4, 0xB8, 0x8B, 0xE8, 0xBD, 0xBD]"

definition msg_no_node :: "u64 \<Rightarrow> string" where
  \<comment> \<open>request failed, node .. does not exist, check the cluster configuration\<close>
  "msg_no_node node_id =
    utf8
      [0xE8, 0xAF, 0xB7, 0xE6, 0xB1, 0x82, 0xE5, 0xA4, 0xB1, 0xE8, 0xB4, 0xA5, 0xEF, 0xBC,
       0x8C, 0xE8, 0x8A, 0x82, 0xE7, 0x82, 0xB9, 0x20] @
    to_string node_id @
    utf8
      [0x20, 0xE4, 0xB8, 0x8D, 0xE5, 0xAD, 0x98, 0xE5, 0x9C, 0xA8, 0xEF, 0xBC, 0x8C, 0xE8,
       0xAF, 0xB7, 0xE6, 0xA3, 0x80, 0xE6, 0x9F, 0xA5, 0xE9, 0x9B, 0x86, 0xE7, 0xBE, 0xA4,
       0xE9, 0x85, 0x8D, 0xE7, 0xBD, 0xAE]"

definition msg_metadata_failed :: "string \<Rightarrow> string \<Rightarrow> string" where
  \<comment> \<open>reading the metadata of file .. failed: ..\<close>
  "msg_metadata_failed local_path error =
    utf8
      [0xE8, 0x8E, 0xB7, 0xE5, 0x8F, 0x96, 0xE6, 0x96, 0x87, 0xE4, 0xBB, 0xB6, 0x20] @
    local_path @
    utf8
      [0x20, 0xE5, 0x85, 0x83, 0xE6, 0x95, 0xB0, 0xE6, 0x8D, 0xAE, 0xE5, 0xA4, 0xB1, 0xE8,
       0xB4, 0xA5, 0xEF, 0xBC, 0x9A] @
    error"

definition msg_empty_file :: "string \<Rightarrow> string" where
  \<comment> \<open>cannot upload the empty file ..\<close>
  "msg_empty_file local_path =
    utf8
      [0xE6, 0x97, 0xA0, 0xE6, 0xB3, 0x95, 0xE4, 0xB8, 0x8A, 0xE4, 0xBC, 0xA0, 0xE7, 0xA9,
       0xBA, 0xE6, 0x96, 0x87, 0xE4, 0xBB, 0xB6, 0x20] @
    local_path"

definition msg_bad_dir :: string where
  \<comment> \<open>invalid file: the current directory is invalid\<close>
  "msg_bad_dir =
    utf8
      [0xE4, 0xB8, 0x8A, 0xE4, 0xBC, 0xA0, 0xE6, 0x96, 0x87, 0xE4, 0xBB, 0xB6, 0xE6, 0x97,
       0xA0, 0xE6, 0x95, 0x88, 0xEF, 0xBC, 0x9A, 0xE5, 0xBD, 0x93, 0xE5, 0x89, 0x8D, 0xE7,
       0x9B, 0xAE, 0xE5, 0xBD, 0x95, 0xE6, 0x97, 0xA0, 0xE6, 0x95, 0x88]"

definition msg_open_failed :: "string \<Rightarrow> string \<Rightarrow> string" where
  \<comment> \<open>file .. could not be opened: ..\<close>
  "msg_open_failed local_path error =
    utf8
      [0xE6, 0x96, 0x87, 0xE4, 0xBB, 0xB6, 0x20] @
    local_path @
    utf8
      [0x20, 0xE6, 0x89, 0x93, 0xE5, 0xBC, 0x80, 0xE5, 0xA4, 0xB1, 0xE8, 0xB4, 0xA5, 0x3A,
       0x20] @
    error"

definition msg_seek_failed :: "u64 \<Rightarrow> string" where
  \<comment> \<open>file seek failed, offset=..\<close>
  "msg_seek_failed offset =
    utf8
      [0xE6, 0x96, 0x87, 0xE4, 0xBB, 0xB6, 0x20, 0x73, 0x65, 0x65, 0x6B, 0x20, 0xE5, 0xA4,
       0xB1, 0xE8, 0xB4, 0xA5, 0x20, 0x6F, 0x66, 0x66, 0x73, 0x65, 0x74, 0x3D] @
    to_string offset"

definition msg_read_failed :: "string \<Rightarrow> string" where
  \<comment> \<open>reading the file failed: ..\<close>
  "msg_read_failed error =
    utf8
      [0xE6, 0x96, 0x87, 0xE4, 0xBB, 0xB6, 0xE8, 0xAF, 0xBB, 0xE5, 0x8F, 0x96, 0xE5, 0xA4,
       0xB1, 0xE8, 0xB4, 0xA5, 0x3A, 0x20] @
    error"

definition msg_read_end :: string where
  \<comment> \<open>the end of the file was reached, no data\<close>
  "msg_read_end =
    utf8
      [0xE6, 0x96, 0x87, 0xE4, 0xBB, 0xB6, 0xE8, 0xAF, 0xBB, 0xE5, 0x8F, 0x96, 0xE5, 0x88,
       0xB0, 0xE6, 0x9C, 0xAB, 0xE5, 0xB0, 0xBE, 0xEF, 0xBC, 0x8C, 0xE6, 0x97, 0xA0, 0xE6,
       0x95, 0xB0, 0xE6, 0x8D, 0xAE]"

definition msg_file_exists :: string where
  \<comment> \<open>the file exists\<close>
  "msg_file_exists =
    utf8
      [0xE6, 0x96, 0x87, 0xE4, 0xBB, 0xB6, 0xE5, 0xB7, 0xB2, 0xE5, 0xAD, 0x98, 0xE5, 0x9C,
       0xA8]"

definition msg_redirect :: string where
  \<comment> \<open>redirected to the leader of the cluster, try again\<close>
  "msg_redirect =
    utf8
      [0xE9, 0x87, 0x8D, 0xE5, 0xAE, 0x9A, 0xE5, 0x90, 0x91, 0xE5, 0x88, 0xB0, 0xE9, 0x9B,
       0x86, 0xE7, 0xBE, 0xA4, 0xE9, 0xA2, 0x86, 0xE5, 0xAF, 0xBC, 0xE8, 0x80, 0x85, 0xEF,
       0xBC, 0x8C, 0xE8, 0xAF, 0xB7, 0xE9, 0x87, 0x8D, 0xE8, 0xAF, 0x95]"

end
