(* ===== verification/Std_Text.thy ===== *)
theory Std_Text
  imports VPrelude
begin

text \<open>
  The conversions between numbers and strings of the C++ standard library that the auth node and
  the client use.
\<close>

section \<open>Numbers as text\<close>

text \<open>
  \<open>std::to_string\<close> on a signed integer, and \<open>std::stoi\<close>, \<open>std::stoll\<close>,
  \<open>std::stoull\<close>: white space, an optional sign and
  digits are read, what follows is ignored; without digits, or out of range, they throw.
\<close>

definition int_to_string :: "int \<Rightarrow> string" where
  "int_to_string i = (if i < 0 then CHR ''-'' # nat_digits (nat (- i)) else nat_digits (nat i))"

definition is_digit :: "char \<Rightarrow> bool" where
  "is_digit c \<longleftrightarrow> 48 \<le> (of_char c :: nat) \<and> (of_char c :: nat) \<le> 57"

definition is_space :: "char \<Rightarrow> bool" where
  "is_space c \<longleftrightarrow> (of_char c :: nat) = 32 \<or> 9 \<le> (of_char c :: nat) \<and> (of_char c :: nat) \<le> 13"

definition digits_value :: "string \<Rightarrow> nat" where
  "digits_value s = foldl (\<lambda>v c. v * 10 + (of_char c - 48)) 0 s"

text \<open>White space and sign removed, the digits that follow; whether there was a minus sign.\<close>

definition scan_number :: "string \<Rightarrow> bool \<times> string" where
  "scan_number str =
     (let s = dropWhile is_space str;
          negative = (s \<noteq> [] \<and> hd s = CHR ''-'')
      in (negative, takeWhile is_digit (if s \<noteq> [] \<and> (hd s = CHR ''-'' \<or> hd s = CHR ''+'') then tl s else s)))"

definition scan_int :: "string \<Rightarrow> int option" where
  "scan_int str =
     (case scan_number str of (negative, digits) \<Rightarrow>
        if digits = [] then None
        else Some (if negative then - int (digits_value digits) else int (digits_value digits)))"

definition stoll :: "string \<Rightarrow> 64 word option" where
  "stoll str = Option.bind (scan_int str) (\<lambda>v. if - (2 ^ 63) \<le> v \<and> v < 2 ^ 63 then Some (word_of_int v) else None)"

definition stoi :: "string \<Rightarrow> 32 word option" where
  "stoi str = Option.bind (scan_int str) (\<lambda>v. if - (2 ^ 31) \<le> v \<and> v < 2 ^ 31 then Some (word_of_int v) else None)"

text \<open>\<open>std::stoull\<close> negates a number with a minus sign in 64 bits.\<close>

definition stoull :: "string \<Rightarrow> u64 option" where
  "stoull str = Option.bind (scan_int str) (\<lambda>v. if \<bar>v\<bar> < 2 ^ 64 then Some (word_of_int v) else None)"

section \<open>Reading what was written\<close>

lemma digits_value_snoc: "digits_value (s @ [c]) = digits_value s * 10 + (of_char c - 48)"
  by (simp add: digits_value_def)

lemma digits_value_nat_digits: "digits_value (nat_digits n) = n"
proof (induction n rule: nat_digits.induct)
  case (1 n)
  have d: "of_char (digit_char k) - 48 = k" if "k < 10" for k
    using that by (simp add: digit_char_def of_char_of take_bit_eq_mod)
  show ?case
  proof (cases "n < 10")
    case True
    with d show ?thesis by (subst nat_digits.simps) (simp add: digits_value_def)
  next
    case False
    with 1 d [of "n mod 10"] show ?thesis by (subst nat_digits.simps) (simp add: digits_value_snoc)
  qed
qed

lemma nat_digits_is_digit: "c \<in> set (nat_digits n) \<Longrightarrow> is_digit c"
  using nat_digits_range by (simp add: is_digit_def)

lemma nat_digits_Cons:
  obtains c r where "nat_digits n = c # r" and "is_digit c"
  using nat_digits_nonempty [of n] nat_digits_is_digit [of _ n] by (cases "nat_digits n") auto

lemma is_digit_other:
  assumes "is_digit c"
  shows "\<not> is_space c" and "c \<noteq> CHR ''-''" and "c \<noteq> CHR ''+''"
  using assms by (auto simp: is_digit_def is_space_def)

lemma takeWhile_nat_digits: "takeWhile is_digit (nat_digits n) = nat_digits n"
  by (simp add: nat_digits_is_digit)

lemma scan_nat_digits: "scan_int (nat_digits n) = Some (int n)"
proof -
  obtain c r where c: "nat_digits n = c # r" "is_digit c" by (rule nat_digits_Cons)
  with takeWhile_nat_digits [of n] have "takeWhile is_digit (c # r) = c # r" by simp
  with c is_digit_other [OF c(2)] have "scan_number (nat_digits n) = (False, nat_digits n)"
    by (simp add: scan_number_def Let_def)
  then show ?thesis by (simp add: scan_int_def nat_digits_nonempty digits_value_nat_digits)
qed

lemma scan_int_to_string: "scan_int (int_to_string i) = Some i"
proof (cases "i < 0")
  case True
  have "\<not> is_space (CHR ''-'')" by (simp add: is_space_def)
  with True have "scan_number (int_to_string i) = (True, nat_digits (nat (- i)))"
    using takeWhile_nat_digits [of "nat (- i)"] by (simp add: scan_number_def int_to_string_def Let_def del: takeWhile_eq_all_conv)
  with True show ?thesis by (simp add: scan_int_def nat_digits_nonempty digits_value_nat_digits)
next
  case False
  then show ?thesis using scan_nat_digits [of "nat i"] by (simp add: int_to_string_def)
qed

lemma stoll_int_to_string: "stoll (int_to_string (sint w)) = Some w"
  using sint_greater_eq [of w] sint_less [of w] by (simp add: stoll_def scan_int_to_string)

lemma stoi_int_to_string: "stoi (int_to_string (sint w)) = Some w"
  using sint_greater_eq [of w] sint_less [of w] by (simp add: stoi_def scan_int_to_string)

lemma stoull_to_string: "stoull (to_string w) = Some w"
  using uint_bounded [of w] by (simp add: stoull_def to_string_def scan_nat_digits)

lemma stoull_Nil: "stoull [] = None"
  by (simp add: stoull_def scan_int_def scan_number_def)

end
