(* ===== verification/Auth_Messages.thy ===== *)
theory Auth_Messages
  imports VPrelude
begin

text \<open>
  The messages of \<open>api/authpb/auth.proto\<close> that the auth node handles, as the generated classes of
  \<open>api/authpb/auth.pb.h\<close> present them, and the two enumerations of \<open>User\<close>. An enumeration of
  proto3 is open: any 32-bit value can arrive, and \<open>IsValid\<close> tells the named ones apart.
\<close>

type_synonym i32 = "32 word"
type_synonym i64 = "64 word"

definition User_Status_kEnabled :: i32 where "User_Status_kEnabled = 0"
definition User_Status_kDisabled :: i32 where "User_Status_kDisabled = 1"
definition User_Status_kDeleted :: i32 where "User_Status_kDeleted = 2"

definition User_Status_IsValid :: "i32 \<Rightarrow> bool" where
  "User_Status_IsValid value \<longleftrightarrow> value = 0 \<or> value = 1 \<or> value = 2"

definition User_Role_kAdmin :: i32 where "User_Role_kAdmin = 0"
definition User_Role_kUser :: i32 where "User_Role_kUser = 1"

definition User_Role_IsValid :: "i32 \<Rightarrow> bool" where
  "User_Role_IsValid value \<longleftrightarrow> value = 0 \<or> value = 1"

record User =
  us_uid :: i64
  us_user_name :: string
  us_avatar :: string
  us_password :: string
  us_role :: i32
  us_status :: i32
  us_quota :: u64
  us_create_time :: i64
  us_modify_time :: i64
  us_last_access_time :: i64
  us_last_access_ip :: string

definition User_default :: User where
  "User_default = \<lparr>us_uid = 0, us_user_name = [], us_avatar = [], us_password = [], us_role = 0,
     us_status = 0, us_quota = 0, us_create_time = 0, us_modify_time = 0, us_last_access_time = 0,
     us_last_access_ip = []\<rparr>"

record RegisterUserRequest =
  ruq_user_name :: string
  ruq_password :: string
  ruq_role :: i32
  ruq_admin_secret :: string

definition RegisterUserRequest_default :: RegisterUserRequest where
  "RegisterUserRequest_default = \<lparr>ruq_user_name = [], ruq_password = [], ruq_role = 0,
     ruq_admin_secret = []\<rparr>"

record RegisterUserResponse =
  rur_status_code :: u32
  rur_message :: string

definition RegisterUserResponse_default :: RegisterUserResponse where
  "RegisterUserResponse_default = \<lparr>rur_status_code = 0, rur_message = []\<rparr>"

record DeleteUserRequest =
  duq_token :: string
  duq_password :: string

definition DeleteUserRequest_default :: DeleteUserRequest where
  "DeleteUserRequest_default = \<lparr>duq_token = [], duq_password = []\<rparr>"

record DeleteUserResponse =
  dur_status_code :: u32
  dur_message :: string

definition DeleteUserResponse_default :: DeleteUserResponse where
  "DeleteUserResponse_default = \<lparr>dur_status_code = 0, dur_message = []\<rparr>"

record LoginUserByNameRequest =
  luq_user_name :: string
  luq_password :: string
  luq_role :: i32

definition LoginUserByNameRequest_default :: LoginUserByNameRequest where
  "LoginUserByNameRequest_default = \<lparr>luq_user_name = [], luq_password = [], luq_role = 0\<rparr>"

record LoginUserByNameResponse =
  lur_status_code :: u32
  lur_message :: string
  lur_token :: string
  lur_user_name :: string
  lur_avatar :: string
  lur_create_time :: string

definition LoginUserByNameResponse_default :: LoginUserByNameResponse where
  "LoginUserByNameResponse_default = \<lparr>lur_status_code = 0, lur_message = [], lur_token = [],
     lur_user_name = [], lur_avatar = [], lur_create_time = []\<rparr>"

lemmas auth_default_defs [msg_defs] =
  User_default_def
  RegisterUserRequest_default_def
  RegisterUserResponse_default_def
  DeleteUserRequest_default_def
  DeleteUserResponse_default_def
  LoginUserByNameRequest_default_def
  LoginUserByNameResponse_default_def

lemmas user_enum_defs =
  User_Status_kEnabled_def User_Status_kDisabled_def User_Status_kDeleted_def User_Status_IsValid_def
  User_Role_kAdmin_def User_Role_kUser_def User_Role_IsValid_def

end
