(* ===== verification/Client_State.thy ===== *)
theory Client_State
  imports Config_Files Client_Text Std_Text Auth_Messages Wire_Messages
begin

text \<open>
  The state of \<open>class VosfsClient\<close> (\<open>include/vosfs/ui/client.hpp\<close>) and the data it is made of:
  the session, the transport tasks, the queue of coroutines, the signals to the user interface.

  Qt, the RPC layer, the asynchronous file API, \<open>jwt-cpp\<close>, \<open>nlohmann::json\<close> and OpenSSL are outside
  the repository: \<open>client_env\<close> holds the calls made of them. A \<open>QString\<close> is the byte string it is
  converted from. A call of \<open>call_method\<close> is recorded in \<open>vc_sent\<close> and its callback is the handler
  of the response, which takes the status the RPC layer reports.
\<close>

section \<open>Session and transport tasks\<close>

record UserSession =
  se_token :: string
  se_uid :: i64
  se_user_name :: string
  se_avatar :: string
  se_email :: string
  se_phone :: string
  se_role :: i32
  se_quota :: u64
  se_create_time :: string

definition UserSession_default :: UserSession where
  "UserSession_default = \<lparr>se_token = [], se_uid = 0, se_user_name = [], se_avatar = [], se_email = [], se_phone = [],
     se_role = 0, se_quota = 0, se_create_time = []\<rparr>"

definition UserSession_reset :: "UserSession \<Rightarrow> UserSession" where
  "UserSession_reset s = s\<lparr>se_token := [], se_user_name := [], se_avatar := [], se_email := [], se_phone := [],
     se_create_time := []\<rparr>"

text \<open>\<open>detail::BlockInfo\<close>; the name is taken by the message of the protocol.\<close>

record TBlock =
  tb_remaing_times :: u64
  tb_id :: u64
  tb_ino :: u64
  tb_offset :: u64
  tb_size :: u64
  tb_data_node_ids :: "(u64, bool) umap"

record TransportTask =
  tt_ino :: u64
  tt_total_blocks :: u64
  tt_done_blocks :: u64
  tt_local_path :: string
  tt_remote_path :: string
  tt_blocks :: "(u64, TBlock) umap"

text \<open>The elements that \<open>operator[]\<close> of a map inserts.\<close>

definition TBlock_zero :: TBlock where
  "TBlock_zero = \<lparr>tb_remaing_times = 0, tb_id = 0, tb_ino = 0, tb_offset = 0, tb_size = 0, tb_data_node_ids = []\<rparr>"

definition TransportTask_zero :: TransportTask where
  "TransportTask_zero = \<lparr>tt_ino = 0, tt_total_blocks = 0, tt_done_blocks = 0, tt_local_path = [], tt_remote_path = [],
     tt_blocks = []\<rparr>"

section \<open>Signals, coroutines and calls\<close>

text \<open>The maps handed to the user interface: an entry of a directory, a row of the transport page.\<close>

record dir_item =
  di_ino :: u64
  di_name :: string
  di_path :: string
  di_is_dir :: bool
  di_ctime :: string
  di_mtime :: string

record transport_item =
  ti_type :: string
  ti_ino :: u64
  ti_progress :: string

datatype signal =
    AppendLog string
  | RegisterFinished bool string
  | DeleteFinished bool string
  | LoginFinished bool string
  | ListDirFinished string "dir_item list"
  | MakeDirFinished
  | UploadFileFinished bool
  | UpdateTransportPageFinished "transport_item list"

text \<open>The coroutines that wait in \<open>tasks_\<close>: which function was called, with which arguments.\<close>

datatype client_task =
    SendRegisterUser string string i32 string
  | SendDeleteUser string
  | SendLoginUserByName string string i32
  | SendListDir string
  | SendMakeDir string string
  | SendPrepareUploadFile string string
  | SendUploadBlock string u64 u64 u64 u64 u64
  | SendUploadFile u64
  | SendPrepareDownloadFile string string
  | SendDownloadBlock u64 u64 u64
  | LoadTransportTasks
  | ShutdownAuthClient
  | ShutdownRaftClient u64

text \<open>The calls of \<open>call_method\<close>, with the id of the node whose connection is used.\<close>

datatype rpc =
    CallRegister RegisterUserRequest
  | CallDelete DeleteUserRequest
  | CallLogin LoginUserByNameRequest
  | CallListDir u64 ListDirRequest
  | CallMakeDir u64 MakeDirRequest
  | CallPrepareUploadFile u64 PrepareUploadFileRequest
  | CallUploadBlock u64 UploadBlockRequest
  | CallUploadFile u64 UploadFileRequest
  | CallPrepareDownloadFile u64 PrepareDownloadFileRequest
  | CallDownloadBlock u64 DownloadBlockRequest

text \<open>What the RPC layer tells of a call: \<open>status.ok()\<close> and \<open>status.message()\<close>.\<close>

datatype rpc_status = RpcStatus bool string

section \<open>What the client calls\<close>

text \<open>
  \<open>kosio::fs\<close>: \<open>ce_metadata\<close> gives the size, or the text of the error; \<open>ce_open\<close> and
  \<open>ce_open_write\<close> give the error if there is one; an open file is its path, and \<open>ce_read\<close>,
  \<open>ce_write_all\<close> work at the position that was sought before. \<open>ce_digest\<close> is the SHA-256 digest,
  \<open>None\<close> when OpenSSL has no context for it.
\<close>

record ('fs, 'j, 'tok) client_env =
  ce_metadata :: "'fs \<Rightarrow> string \<Rightarrow> string + u64"
  ce_open :: "'fs \<Rightarrow> string \<Rightarrow> string option"
  ce_seek :: "'fs \<Rightarrow> string \<Rightarrow> u64 \<Rightarrow> bool"
  ce_read :: "'fs \<Rightarrow> string \<Rightarrow> u64 \<Rightarrow> u64 \<Rightarrow> string + string"
  ce_open_write :: "'fs \<Rightarrow> string \<Rightarrow> string option \<times> 'fs"
  ce_write_all :: "'fs \<Rightarrow> string \<Rightarrow> u64 \<Rightarrow> string \<Rightarrow> string option \<times> 'fs"
  ce_texts :: "'fs text_files"
  ce_json :: "'j json_api"
  ce_jwt :: "'tok jwt"
  ce_digest :: "string \<Rightarrow> string option"
  ce_format_time :: "u64 \<Rightarrow> string"

text \<open>\<open>util::sha256\<close>: the digest in hexadecimal, two digits a byte.\<close>

definition hex_digit :: "nat \<Rightarrow> char" where
  "hex_digit d = (if d < 10 then digit_char d else char_of (87 + d))"

definition hex_byte :: "char \<Rightarrow> string" where
  "hex_byte c = [hex_digit (of_char c div 16), hex_digit (of_char c mod 16)]"

definition sha256 :: "(string \<Rightarrow> string option) \<Rightarrow> string \<Rightarrow> string" where
  "sha256 digest input = (case digest input of None \<Rightarrow> [] | Some hash \<Rightarrow> concat (map hex_byte hash))"

section \<open>The client\<close>

type_synonym rpc_client = "string \<times> u16"

record 'fs VosfsClient =
  vc_is_shutdown :: bool
  vc_locked :: bool
  vc_session :: UserSession
  vc_auth_client :: rpc_client
  vc_leader_id :: u64
  vc_raft_clients :: "(u64, rpc_client) umap"
  vc_data_clients :: "(u64, rpc_client) umap"
  vc_tasks :: "client_task list"
  vc_upload_tasks :: "(u64, TransportTask) umap"
  vc_download_tasks :: "(u64, TransportTask) umap"
  vc_signals :: "signal list"
  vc_sent :: "rpc list"
  vc_disk :: 'fs

text \<open>The constructor and \<open>create\<close>; \<open>begin()\<close> of a map is the element its iteration visits first.\<close>

definition VosfsClient_new ::
    "rpc_client \<Rightarrow> (u64, rpc_client) umap \<Rightarrow> (u64, rpc_client) umap \<Rightarrow> 'fs \<Rightarrow> 'fs VosfsClient" where
  "VosfsClient_new auth_client raft_clients data_clients fs =
     \<lparr>vc_is_shutdown = True, vc_locked = False, vc_session = UserSession_default, vc_auth_client = auth_client,
      vc_leader_id = (if raft_clients \<noteq> [] then fst (hd raft_clients) else 0), vc_raft_clients = raft_clients,
      vc_data_clients = data_clients, vc_tasks = [], vc_upload_tasks = [], vc_download_tasks = [],
      vc_signals = [], vc_sent = [], vc_disk = fs\<rparr>"

definition ui_clients :: "(u64, UiNodeInfo) umap \<Rightarrow> (u64, rpc_client) umap" where
  "ui_clients nodes = fold (\<lambda>node. um_emplace (un_id node) (un_host node, un_port node)) (um_values nodes) []"

definition VosfsClient_create ::
    "('fs, 'j, 'tok) client_env \<Rightarrow> string \<Rightarrow> 'fs \<Rightarrow> 'fs VosfsClient Result outcome" where
  "VosfsClient_create E config_path fs =
     co_await (UiConfig_from_json (ce_texts E) (ce_json E) fs config_path) (\<lambda>r. case r of
        Inl e \<Rightarrow> Done (Inl e)
      | Inr config \<Rightarrow>
          Done (Inr (VosfsClient_new (uc_auth_host config, uc_auth_port config)
            (ui_clients (uc_raft_nodes config)) (ui_clients (uc_data_nodes config)) fs)))"

definition client_lock :: "'fs VosfsClient \<Rightarrow> 'fs VosfsClient outcome" where
  "client_lock c = (if vc_locked c then Blocked else Done (c\<lparr>vc_locked := True\<rparr>))"

definition client_unlock :: "'fs VosfsClient \<Rightarrow> 'fs VosfsClient" where
  "client_unlock c = c\<lparr>vc_locked := False\<rparr>"

definition emit :: "signal \<Rightarrow> 'fs VosfsClient \<Rightarrow> 'fs VosfsClient" where
  "emit s c = c\<lparr>vc_signals := vc_signals c @ [s]\<rparr>"

definition tasks_emplace :: "client_task \<Rightarrow> 'fs VosfsClient \<Rightarrow> 'fs VosfsClient" where
  "tasks_emplace t c = c\<lparr>vc_tasks := vc_tasks c @ [t]\<rparr>"

definition call_method :: "rpc \<Rightarrow> 'fs VosfsClient \<Rightarrow> 'fs VosfsClient" where
  "call_method m c = c\<lparr>vc_sent := vc_sent c @ [m]\<rparr>"

text \<open>The properties of the session that the user interface reads.\<close>

definition ui_uid :: "'fs VosfsClient \<Rightarrow> string" where
  "ui_uid c = int_to_string (sint (se_uid (vc_session c)))"

definition ui_user_name :: "'fs VosfsClient \<Rightarrow> string" where
  "ui_user_name c = se_user_name (vc_session c)"

definition ui_avatar :: "'fs VosfsClient \<Rightarrow> string" where
  "ui_avatar c = se_avatar (vc_session c)"

definition ui_role :: "'fs VosfsClient \<Rightarrow> i32" where
  "ui_role c = se_role (vc_session c)"

definition ui_quota :: "'fs VosfsClient \<Rightarrow> string" where
  "ui_quota c = to_string (se_quota (vc_session c))"

definition ui_create_time :: "'fs VosfsClient \<Rightarrow> string" where
  "ui_create_time c = se_create_time (vc_session c)"

section \<open>The slots of the user interface\<close>

definition register_user :: "string \<Rightarrow> string \<Rightarrow> i32 \<Rightarrow> string \<Rightarrow> 'fs VosfsClient \<Rightarrow> 'fs VosfsClient" where
  "register_user user_name password role admin_secret =
     tasks_emplace (SendRegisterUser user_name password role admin_secret)"

definition delete_user :: "string \<Rightarrow> 'fs VosfsClient \<Rightarrow> 'fs VosfsClient" where
  "delete_user password = tasks_emplace (SendDeleteUser password)"

definition login_user_by_name :: "string \<Rightarrow> string \<Rightarrow> i32 \<Rightarrow> 'fs VosfsClient \<Rightarrow> 'fs VosfsClient" where
  "login_user_by_name user_name password role = tasks_emplace (SendLoginUserByName user_name password role)"

definition list_dir :: "string \<Rightarrow> 'fs VosfsClient \<Rightarrow> 'fs VosfsClient" where
  "list_dir path = tasks_emplace (SendListDir path)"

definition make_dir :: "string \<Rightarrow> string \<Rightarrow> 'fs VosfsClient \<Rightarrow> 'fs VosfsClient" where
  "make_dir parent_path name = tasks_emplace (SendMakeDir parent_path name)"

definition ui_prepare_upload_file :: "string \<Rightarrow> string \<Rightarrow> 'fs VosfsClient \<Rightarrow> 'fs VosfsClient" where
  "ui_prepare_upload_file local_path current_dir = tasks_emplace (SendPrepareUploadFile local_path current_dir)"

definition ui_prepare_download_file :: "string \<Rightarrow> string \<Rightarrow> 'fs VosfsClient \<Rightarrow> 'fs VosfsClient" where
  "ui_prepare_download_file name remote_path = tasks_emplace (SendPrepareDownloadFile (''./'' @ name) remote_path)"

definition transport_row :: "string \<Rightarrow> TransportTask \<Rightarrow> transport_item" where
  "transport_row kind task =
     \<lparr>ti_type = kind, ti_ino = tt_ino task,
      ti_progress = to_string (tt_done_blocks task) @ ''/'' @ to_string (tt_total_blocks task)\<rparr>"

definition update_transport_page :: "'fs VosfsClient \<Rightarrow> 'fs VosfsClient" where
  "update_transport_page c =
     emit (UpdateTransportPageFinished
       (map (transport_row msg_type_upload) (um_values (vc_upload_tasks c)) @
        map (transport_row msg_type_download) (um_values (vc_download_tasks c)))) c"

definition client_shutdown :: "'fs VosfsClient \<Rightarrow> 'fs VosfsClient" where
  "client_shutdown c =
     (if vc_is_shutdown c then c
      else (fold (\<lambda>i. tasks_emplace (ShutdownRaftClient i)) (um_keys (vc_raft_clients c))
              (tasks_emplace ShutdownAuthClient c))\<lparr>vc_is_shutdown := True\<rparr>)"

lemmas client_basics = emit_def tasks_emplace_def call_method_def client_unlock_def client_lock_def

end
