(* ===== verification/Client_Requests.thy ===== *)
theory Client_Requests
  imports Client_State
begin

text \<open>
  The coroutines of the client that send requests (\<open>send_..._request\<close> in \<open>src/ui/client.cpp\<close>). They
  change the state by the calls they make, the signals they emit and, for \<open>load_transport_tasks\<close> in
  the next theory, the tasks they queue.
\<close>

section \<open>Users\<close>

definition send_register_user_request ::
    "('fs, 'j, 'tok) client_env \<Rightarrow> string \<Rightarrow> string \<Rightarrow> i32 \<Rightarrow> string \<Rightarrow> 'fs VosfsClient \<Rightarrow> 'fs VosfsClient" where
  "send_register_user_request E user_name password role admin_secret =
     call_method (CallRegister (RegisterUserRequest_default\<lparr>ruq_user_name := user_name,
       ruq_password := sha256 (ce_digest E) password, ruq_role := role, ruq_admin_secret := admin_secret\<rparr>))"

definition send_delete_user_request ::
    "('fs, 'j, 'tok) client_env \<Rightarrow> string \<Rightarrow> 'fs VosfsClient \<Rightarrow> 'fs VosfsClient" where
  "send_delete_user_request E password c =
     call_method (CallDelete (DeleteUserRequest_default\<lparr>duq_token := se_token (vc_session c),
       duq_password := sha256 (ce_digest E) password\<rparr>)) c"

definition send_login_user_by_name_request ::
    "('fs, 'j, 'tok) client_env \<Rightarrow> string \<Rightarrow> string \<Rightarrow> i32 \<Rightarrow> 'fs VosfsClient \<Rightarrow> 'fs VosfsClient" where
  "send_login_user_by_name_request E user_name password role =
     call_method (CallLogin (LoginUserByNameRequest_default\<lparr>luq_user_name := user_name,
       luq_password := sha256 (ce_digest E) password, luq_role := role\<rparr>))"

section \<open>Directories\<close>

text \<open>The call goes to the node taken for the leader; both maps of nodes log the leader's id when a node is missing.\<close>

definition call_leader :: "(u64 \<Rightarrow> rpc) \<Rightarrow> 'fs VosfsClient \<Rightarrow> 'fs VosfsClient" where
  "call_leader call c =
     (case um_find (vc_raft_clients c) (vc_leader_id c) of
        None \<Rightarrow> emit (AppendLog (msg_no_node (vc_leader_id c))) c
      | Some _ \<Rightarrow> call_method (call (vc_leader_id c)) c)"

definition call_data_node :: "u64 \<Rightarrow> rpc \<Rightarrow> 'fs VosfsClient \<Rightarrow> 'fs VosfsClient" where
  "call_data_node data_node_id call c =
     (case um_find (vc_data_clients c) data_node_id of
        None \<Rightarrow> emit (AppendLog (msg_no_node (vc_leader_id c))) c
      | Some _ \<Rightarrow> call_method call c)"

definition send_list_dir_request :: "string \<Rightarrow> 'fs VosfsClient \<Rightarrow> 'fs VosfsClient" where
  "send_list_dir_request path c =
     (let request = ListDirRequest_default\<lparr>ldq_token := se_token (vc_session c), ldq_path := path\<rparr>
      in call_leader (\<lambda>i. CallListDir i request) c)"

definition send_make_dir_request :: "string \<Rightarrow> string \<Rightarrow> 'fs VosfsClient \<Rightarrow> 'fs VosfsClient" where
  "send_make_dir_request parent_path name c =
     (let request = MakeDirRequest_default\<lparr>mdq_token := se_token (vc_session c), mdq_parent_path := parent_path,
        mdq_name := name\<rparr>
      in call_leader (\<lambda>i. CallMakeDir i request) c)"

section \<open>Uploads\<close>

definition VOSFS_BLOCK_SIZE :: u64 where "VOSFS_BLOCK_SIZE = 1 * 1024 * 1024"

function split_blocks :: "u64 \<Rightarrow> u64 \<Rightarrow> u64 \<Rightarrow> BlockInfo list" where
  "split_blocks block_id offset file_size =
     (if file_size > 0 then
        (let new_block = BlockInfo_default\<lparr>bi_id := block_id, bi_offset := offset\<rparr> in
         if file_size \<ge> VOSFS_BLOCK_SIZE
         then new_block\<lparr>bi_size := VOSFS_BLOCK_SIZE\<rparr> #
           split_blocks (block_id + 1) (offset + VOSFS_BLOCK_SIZE) (file_size - VOSFS_BLOCK_SIZE)
         else new_block\<lparr>bi_size := file_size\<rparr> # split_blocks (block_id + 1) (offset + file_size) 0)
      else [])"
  by pat_completeness auto
termination
proof (relation "measure (\<lambda>(i, off, size). unat size)")
  fix block_id offset file_size :: u64 and x
  assume "0 < file_size" and "VOSFS_BLOCK_SIZE \<le> file_size"
  moreover have "0 < unat VOSFS_BLOCK_SIZE" by (simp add: VOSFS_BLOCK_SIZE_def)
  moreover from calculation have "0 < unat file_size" by (simp add: word_less_nat_alt)
  ultimately show "((block_id + 1, offset + VOSFS_BLOCK_SIZE, file_size - VOSFS_BLOCK_SIZE), block_id, offset, file_size)
      \<in> measure (\<lambda>(i, off, size). unat size)"
    by (simp add: unat_sub_le)
qed (auto simp: word_less_nat_alt)

declare split_blocks.simps [simp del]

text \<open>The path below the directory that the user interface shows.\<close>

definition upload_remote_path :: "string \<Rightarrow> string \<Rightarrow> string" where
  "upload_remote_path current_dir file_name =
     (if current_dir = ''/'' then current_dir @ file_name else current_dir @ ''/'' @ file_name)"

definition send_prepare_upload_file_request ::
    "('fs, 'j, 'tok) client_env \<Rightarrow> string \<Rightarrow> string \<Rightarrow> 'fs VosfsClient \<Rightarrow> 'fs VosfsClient" where
  "send_prepare_upload_file_request E local_path current_dir c =
     (case ce_metadata E (vc_disk c) local_path of
        Inl error \<Rightarrow> emit (AppendLog (msg_metadata_failed local_path error)) c
      | Inr file_size \<Rightarrow>
          if file_size \<le> 0 then emit (AppendLog (msg_empty_file local_path)) c
          else case find_last_of (CHR ''/'') local_path of
             None \<Rightarrow> emit (AppendLog msg_bad_dir) c
           | Some pos \<Rightarrow>
               (let file_name = drop (Suc pos) local_path;
                    request = PrepareUploadFileRequest_default\<lparr>puq_local_path := local_path,
                      puq_remote_path := upload_remote_path current_dir file_name,
                      puq_token := se_token (vc_session c), puq_blocks := split_blocks 0 0 file_size\<rparr>
                in call_leader (\<lambda>i. CallPrepareUploadFile i request) c))"

text \<open>The bytes of one block of the local file, or the text that is logged.\<close>

definition read_block :: "('fs, 'j, 'tok) client_env \<Rightarrow> 'fs \<Rightarrow> string \<Rightarrow> u64 \<Rightarrow> u64 \<Rightarrow> string + string" where
  "read_block E fs local_path offset size' =
     (case ce_open E fs local_path of
        Some error \<Rightarrow> Inl (msg_open_failed local_path error)
      | None \<Rightarrow>
          if \<not> ce_seek E fs local_path offset then Inl (msg_seek_failed offset)
          else case ce_read E fs local_path offset size' of
             Inl error \<Rightarrow> Inl (msg_read_failed error)
           | Inr block_data \<Rightarrow> if length block_data = 0 then Inl msg_read_end else Inr block_data)"

definition send_upload_block_request ::
    "('fs, 'j, 'tok) client_env \<Rightarrow> string \<Rightarrow> u64 \<Rightarrow> u64 \<Rightarrow> u64 \<Rightarrow> u64 \<Rightarrow> u64 \<Rightarrow> 'fs VosfsClient \<Rightarrow> 'fs VosfsClient" where
  "send_upload_block_request E local_path block_id ino offset size' data_node_id c =
     (case read_block E (vc_disk c) local_path offset size' of
        Inl msg \<Rightarrow> emit (AppendLog msg) c
      | Inr block_data \<Rightarrow>
          call_data_node data_node_id (CallUploadBlock data_node_id
            (UploadBlockRequest_default\<lparr>ubq_token := se_token (vc_session c), ubq_block_id := block_id, ubq_ino := ino,
               ubq_data := block_data\<rparr>)) c)"

definition upload_block_info :: "TBlock \<Rightarrow> BlockInfo" where
  "upload_block_info block =
     BlockInfo_default\<lparr>bi_id := tb_id block, bi_ino := tb_ino block, bi_offset := tb_offset block, bi_size := tb_size block,
       bi_data_node_id := um_keys (tb_data_node_ids block)\<rparr>"

text \<open>\<open>LOG_FATAL\<close> is a log message here: the code returns after it.\<close>

definition send_upload_file_request :: "u64 \<Rightarrow> 'fs VosfsClient \<Rightarrow> 'fs VosfsClient" where
  "send_upload_file_request ino c =
     (case um_find (vc_upload_tasks c) ino of
        None \<Rightarrow> c
      | Some upload_task \<Rightarrow>
          (let request = UploadFileRequest_default\<lparr>ufq_token := se_token (vc_session c), ufq_ino := ino,
             ufq_path := tt_remote_path upload_task,
             ufq_blocks := map upload_block_info (um_values (tt_blocks upload_task))\<rparr>
           in call_leader (\<lambda>i. CallUploadFile i request) c))"

section \<open>Downloads\<close>

definition send_prepare_download_file_request ::
    "('fs, 'j, 'tok) client_env \<Rightarrow> string \<Rightarrow> string \<Rightarrow> 'fs VosfsClient \<Rightarrow> 'fs VosfsClient" where
  "send_prepare_download_file_request E local_path remote_path c =
     (if tf_exists (ce_texts E) (vc_disk c) local_path then emit (AppendLog msg_file_exists) c
      else
        (let request = PrepareDownloadFileRequest_default\<lparr>pdq_token := se_token (vc_session c),
           pdq_local_path := local_path, pdq_remote_path := remote_path\<rparr>
         in call_leader (\<lambda>i. CallPrepareDownloadFile i request) c))"

definition send_download_block_request :: "u64 \<Rightarrow> u64 \<Rightarrow> u64 \<Rightarrow> 'fs VosfsClient \<Rightarrow> 'fs VosfsClient" where
  "send_download_block_request block_id ino data_node_id c =
     call_data_node data_node_id (CallDownloadBlock data_node_id
       (DownloadBlockRequest_default\<lparr>dbq_token := se_token (vc_session c), dbq_block_id := block_id, dbq_ino := ino\<rparr>)) c"

section \<open>What a request leaves alone\<close>

lemma call_leader_state [simp]:
  "vc_locked (call_leader f c) = vc_locked c" "vc_upload_tasks (call_leader f c) = vc_upload_tasks c"
  "vc_download_tasks (call_leader f c) = vc_download_tasks c" "vc_tasks (call_leader f c) = vc_tasks c"
  "vc_disk (call_leader f c) = vc_disk c"
  by (simp_all add: call_leader_def client_basics split: option.splits)

lemma call_data_node_state [simp]:
  "vc_locked (call_data_node n m c) = vc_locked c" "vc_upload_tasks (call_data_node n m c) = vc_upload_tasks c"
  "vc_download_tasks (call_data_node n m c) = vc_download_tasks c" "vc_tasks (call_data_node n m c) = vc_tasks c"
  "vc_disk (call_data_node n m c) = vc_disk c"
  by (simp_all add: call_data_node_def client_basics split: option.splits)

end
