(* ===== verification/Client_Handlers.thy ===== *)
theory Client_Handlers
  imports Client_Requests "HOL-Library.List_Lexorder" "HOL-Library.Char_ord"
begin

text \<open>
  The handlers of the responses (\<open>handle_..._response\<close>), the file of transport tasks and the main
  loop of the client (\<open>src/ui/client.cpp\<close>). \<open>Crashed\<close> is an exception that leaves the handler
  (\<open>std::stoull\<close>, \<open>jwt-cpp\<close>, \<open>nlohmann::json\<close>) or an access to a block of an empty list; \<open>Blocked\<close> is a
  handler that waits for the mutex while it holds it.

  All coroutines run on one thread. A handler is one step of the model: the file operations it
  waits for are taken to be done before the next handler starts.
\<close>

section \<open>Users\<close>

definition handle_register_user_response ::
    "rpc_status \<Rightarrow> RegisterUserResponse \<Rightarrow> 'fs VosfsClient \<Rightarrow> 'fs VosfsClient" where
  "handle_register_user_response status response c =
     (case status of RpcStatus ok message \<Rightarrow>
        if \<not> ok then emit (RegisterFinished False message) c
        else
          (let res_status = Status (rur_status_code response) in
           emit (RegisterFinished (Status_ok res_status) (rur_message response))
             (emit (AppendLog (rur_message response)) c)))"

definition handle_delete_user_response ::
    "rpc_status \<Rightarrow> DeleteUserResponse \<Rightarrow> 'fs VosfsClient \<Rightarrow> 'fs VosfsClient" where
  "handle_delete_user_response status response c =
     (case status of RpcStatus ok message \<Rightarrow>
        if \<not> ok then emit (DeleteFinished False message) c
        else
          (let res_status = Status (dur_status_code response) in
           emit (DeleteFinished (Status_ok res_status) (dur_message response))
             (emit (AppendLog (dur_message response)) c)))"

text \<open>The session of a token; a missing claim or a claim that is no number throws.\<close>

definition login_session :: "'tok jwt \<Rightarrow> LoginUserByNameResponse \<Rightarrow> UserSession \<Rightarrow> UserSession outcome" where
  "login_session J response session =
     co_await (from_option (jwt_decode J (lur_token response))) (\<lambda>decode.
     co_await (from_option (Option.bind (jwt_claim J decode ''uid'') stoll)) (\<lambda>uid.
     co_await (from_option (Option.bind (jwt_claim J decode ''role'') stoi)) (\<lambda>role.
     co_await (from_option (Option.bind (jwt_claim J decode ''quota'') stoull)) (\<lambda>quota.
       Done (session\<lparr>se_token := lur_token response, se_uid := uid, se_user_name := lur_user_name response,
         se_avatar := lur_avatar response, se_role := role, se_quota := quota,
         se_create_time := lur_create_time response\<rparr>)))))"

definition handle_login_user_by_name_response ::
    "('fs, 'j, 'tok) client_env \<Rightarrow> rpc_status \<Rightarrow> LoginUserByNameResponse \<Rightarrow> 'fs VosfsClient \<Rightarrow> 'fs VosfsClient outcome" where
  "handle_login_user_by_name_response E status response c =
     (case status of RpcStatus ok message \<Rightarrow>
        if \<not> ok then Done (emit (LoginFinished False message) c)
        else
          (let res_status = Status (lur_status_code response) in
           co_await
             (if Status_ok res_status
              then co_await (login_session (ce_jwt E) response (vc_session c))
                     (\<lambda>session. Done (tasks_emplace LoadTransportTasks (c\<lparr>vc_session := session\<rparr>)))
              else Done c)
             (\<lambda>c. Done (emit (LoginFinished (Status_ok res_status) (lur_message response))
                (emit (AppendLog (lur_message response)) c)))))"

section \<open>Directories\<close>

text \<open>The answer of a node that does not lead: its message is the id of the leader.\<close>

definition redirect :: "string \<Rightarrow> 'fs VosfsClient \<Rightarrow> 'fs VosfsClient outcome" where
  "redirect message c =
     co_await (from_option (stoull message)) (\<lambda>i. Done (emit (AppendLog msg_redirect) (c\<lparr>vc_leader_id := i\<rparr>)))"

definition dir_item_of :: "(u64 \<Rightarrow> string) \<Rightarrow> DirEntry \<Rightarrow> dir_item" where
  "dir_item_of format_time entry =
     \<lparr>di_ino = de_ino entry, di_name = de_name entry, di_path = de_path entry, di_is_dir = de_is_dir entry,
      di_ctime = format_time (de_ctime entry), di_mtime = format_time (de_mtime entry)\<rparr>"

definition dir_items :: "(u64 \<Rightarrow> string) \<Rightarrow> DirEntry list \<Rightarrow> dir_item list" where
  "dir_items format_time entries =
     (let dirs = filter de_is_dir entries; files = filter (\<lambda>entry. \<not> de_is_dir entry) entries
      in map (dir_item_of format_time) (sort_key de_name dirs) @ map (dir_item_of format_time) (sort_key de_name files))"

definition handle_list_dir_response ::
    "('fs, 'j, 'tok) client_env \<Rightarrow> rpc_status \<Rightarrow> ListDirResponse \<Rightarrow> 'fs VosfsClient \<Rightarrow> 'fs VosfsClient outcome" where
  "handle_list_dir_response E status response c =
     (case status of RpcStatus ok message \<Rightarrow>
        if \<not> ok then Done (emit (AppendLog message) c)
        else
          (let res_status = Status (ldr_status_code response) in
           if Status_is_not_leader res_status then redirect (ldr_message response) c
           else Done (emit (AppendLog (ldr_message response))
             (if Status_ok res_status
              then emit (ListDirFinished (ldr_path response) (dir_items (ce_format_time E) (ldr_dir_entries response))) c
              else c))))"

definition handle_make_dir_response :: "rpc_status \<Rightarrow> MakeDirResponse \<Rightarrow> 'fs VosfsClient \<Rightarrow> 'fs VosfsClient outcome" where
  "handle_make_dir_response status response c =
     (case status of RpcStatus ok message \<Rightarrow>
        if \<not> ok then Done (emit (AppendLog message) c)
        else
          (let res_status = Status (mdr_status_code response) in
           if Status_is_not_leader res_status then redirect (mdr_message response) c
           else Done (emit MakeDirFinished (emit (AppendLog (mdr_message response))
             (if Status_ok res_status then send_list_dir_request (mdr_parent_path response) c else c)))))"

section \<open>The tasks in the queue\<close>

definition upload_block_tasks :: "string \<Rightarrow> TBlock \<Rightarrow> client_task list" where
  "upload_block_tasks local_path block =
     (if tb_remaing_times block = 0 then []
      else map (\<lambda>(data_node_id, done).
             SendUploadBlock local_path (tb_id block) (tb_ino block) (tb_offset block) (tb_size block) data_node_id)
           (filter (\<lambda>(data_node_id, done). \<not> done) (tb_data_node_ids block)))"

definition do_upload_task :: "TransportTask \<Rightarrow> 'fs VosfsClient \<Rightarrow> 'fs VosfsClient" where
  "do_upload_task task c =
     (if tt_done_blocks task \<ge> tt_total_blocks task then tasks_emplace (SendUploadFile (tt_ino task)) c
      else fold (\<lambda>block c. fold tasks_emplace (upload_block_tasks (tt_local_path task) block) c)
             (um_values (tt_blocks task)) c)"

text \<open>The first data node that is not marked, and no other (\<open>break\<close>).\<close>

definition download_block_tasks :: "TBlock \<Rightarrow> client_task list" where
  "download_block_tasks block =
     (if tb_remaing_times block = 0 then []
      else case find (\<lambda>(data_node_id, done). \<not> done) (tb_data_node_ids block) of
             None \<Rightarrow> []
           | Some (data_node_id, done) \<Rightarrow> [SendDownloadBlock (tb_id block) (tb_ino block) data_node_id])"

definition do_download_task :: "TransportTask \<Rightarrow> 'fs VosfsClient \<Rightarrow> 'fs VosfsClient outcome" where
  "do_download_task task c =
     co_await
       (if tt_done_blocks task \<ge> tt_total_blocks task
        then co_await (client_lock c)
               (\<lambda>c. Done (client_unlock (c\<lparr>vc_download_tasks := um_erase (tt_ino task) (vc_download_tasks c)\<rparr>)))
        else Done c)
       (\<lambda>c. case um_find (tt_blocks task) (tt_done_blocks task) of
          None \<Rightarrow> Done c
        | Some _ \<Rightarrow>
            Done (fold (\<lambda>block c. fold tasks_emplace (download_block_tasks block) c) (um_values (tt_blocks task)) c))"

section \<open>Uploads\<close>

text \<open>
  The task for the blocks of a response; the inode number is read from the first block, which has
  to be there.
\<close>

definition make_block :: "BlockInfo \<Rightarrow> TBlock" where
  "make_block block =
     \<lparr>tb_remaing_times = of_nat (length (bi_data_node_id block)), tb_id = bi_id block, tb_ino = bi_ino block,
      tb_offset = bi_offset block, tb_size = bi_size block,
      tb_data_node_ids = fold (\<lambda>data_node_id. um_emplace data_node_id False) (bi_data_node_id block) []\<rparr>"

definition make_task :: "BlockInfo list \<Rightarrow> string \<Rightarrow> string \<Rightarrow> TransportTask outcome" where
  "make_task blocks local_path remote_path =
     (if blocks = [] then Crashed
      else Done \<lparr>tt_ino = bi_ino (hd blocks), tt_total_blocks = of_nat (length blocks), tt_done_blocks = 0,
        tt_local_path = local_path, tt_remote_path = remote_path,
        tt_blocks = fold (\<lambda>block. um_emplace (bi_id block) (make_block block)) blocks []\<rparr>)"

definition handle_prepare_upload_file_response ::
    "rpc_status \<Rightarrow> PrepareUploadFileResponse \<Rightarrow> 'fs VosfsClient \<Rightarrow> 'fs VosfsClient outcome" where
  "handle_prepare_upload_file_response status response c =
     (case status of RpcStatus ok message \<Rightarrow>
        if \<not> ok then Done (emit (AppendLog message) c)
        else
          (let res_status = Status (pur_status_code response) in
           if Status_is_not_leader res_status then redirect (pur_message response) c
           else
             co_await
               (if Status_ok res_status
                then co_await (make_task (pur_blocks response) (pur_local_path response) (pur_remote_path response))
                  (\<lambda>transport_task. co_await (client_lock c) (\<lambda>c.
                     let c = do_upload_task transport_task c
                     in Done (client_unlock (c\<lparr>vc_upload_tasks :=
                       um_emplace (tt_ino transport_task) transport_task (vc_upload_tasks c)\<rparr>))))
                else Done c)
               (\<lambda>c. Done (emit (AppendLog (pur_message response)) c))))"

text \<open>The answer of one data node, counted in its block.\<close>

definition ack_block :: "u64 \<Rightarrow> TBlock \<Rightarrow> TBlock" where
  "ack_block data_node_id block =
     block\<lparr>tb_remaing_times := (if tb_remaing_times block > 0 then tb_remaing_times block - 1 else tb_remaing_times block),
       tb_data_node_ids := um_assign data_node_id True (tb_data_node_ids block)\<rparr>"

definition ack_task :: "u64 \<Rightarrow> u64 \<Rightarrow> TransportTask \<Rightarrow> TransportTask" where
  "ack_task block_id data_node_id task =
     (case um_index TBlock_zero block_id (tt_blocks task) of (block, blocks) \<Rightarrow>
        let block = ack_block data_node_id block
        in task\<lparr>tt_blocks := um_assign block_id block blocks,
             tt_done_blocks := (if tb_remaing_times block = 0 then tt_done_blocks task + 1 else tt_done_blocks task)\<rparr>)"

definition handle_upload_block_response ::
    "rpc_status \<Rightarrow> UploadBlockResponse \<Rightarrow> 'fs VosfsClient \<Rightarrow> 'fs VosfsClient outcome" where
  "handle_upload_block_response status response c =
     (case status of RpcStatus ok message \<Rightarrow>
        if \<not> ok then Done (emit (AppendLog message) c)
        else
          (let res_status = Status (ubr_status_code response) in
           co_await
             (if Status_ok res_status
              then (case um_index TransportTask_zero (ubr_ino response) (vc_upload_tasks c) of (upload_task, upload_tasks) \<Rightarrow>
                let upload_task = ack_task (ubr_block_id response) (ubr_data_node_id response) upload_task in
                co_await (client_lock (c\<lparr>vc_upload_tasks := um_assign (ubr_ino response) upload_task upload_tasks\<rparr>))
                  (\<lambda>c. Done (client_unlock
                     (if tt_done_blocks upload_task \<ge> tt_total_blocks upload_task
                      then tasks_emplace (SendUploadFile (tt_ino upload_task)) c else c))))
              else Done c)
             (\<lambda>c. Done (emit (AppendLog (ubr_message response)) c))))"

definition handle_upload_file_response ::
    "rpc_status \<Rightarrow> UploadFileResponse \<Rightarrow> 'fs VosfsClient \<Rightarrow> 'fs VosfsClient outcome" where
  "handle_upload_file_response status response c =
     (case status of RpcStatus ok message \<Rightarrow>
        if \<not> ok then Done (emit (AppendLog message) c)
        else
          (let res_status = Status (ufr_status_code response) in
           if Status_is_not_leader res_status then redirect (ufr_message response) c
           else
             co_await (client_lock (emit (UploadFileFinished (Status_ok res_status)) c))
               (\<lambda>c. Done (emit (AppendLog (ufr_message response))
                  (client_unlock (c\<lparr>vc_upload_tasks := um_erase (ufr_ino response) (vc_upload_tasks c)\<rparr>))))))"

section \<open>Downloads\<close>

definition handle_prepare_download_file_response ::
    "rpc_status \<Rightarrow> PrepareDownloadFileResponse \<Rightarrow> 'fs VosfsClient \<Rightarrow> 'fs VosfsClient outcome" where
  "handle_prepare_download_file_response status response c =
     (case status of RpcStatus ok message \<Rightarrow>
        if \<not> ok then Done (emit (AppendLog message) c)
        else
          (let res_status = Status (pdr_status_code response) in
           if Status_is_not_leader res_status then redirect (pdr_message response) c
           else
             co_await
               (if Status_ok res_status
                then co_await (make_task (pdr_blocks response) (pdr_local_path response) (pdr_remote_path response))
                  (\<lambda>transport_task. co_await (client_lock c) (\<lambda>c. co_await (do_download_task transport_task c) (\<lambda>c.
                     Done (client_unlock (c\<lparr>vc_download_tasks :=
                       um_emplace (tt_ino transport_task) transport_task (vc_download_tasks c)\<rparr>)))))
                else Done c)
               (\<lambda>c. Done (emit (AppendLog (pdr_message response)) c))))"

text \<open>A block written at its offset: the text that is logged on an error, and the disk.\<close>

definition store_block ::
    "('fs, 'j, 'tok) client_env \<Rightarrow> string \<Rightarrow> u64 \<Rightarrow> string \<Rightarrow> 'fs \<Rightarrow> string option \<times> 'fs" where
  "store_block E local_path offset data fs =
     (case ce_open_write E fs local_path of
        (Some error, fs1) \<Rightarrow> (Some (msg_open_failed local_path error), fs1)
      | (None, fs1) \<Rightarrow>
          if \<not> ce_seek E fs1 local_path offset then (Some (msg_seek_failed offset), fs1)
          else (case ce_write_all E fs1 local_path offset data of
             (Some error, fs2) \<Rightarrow> (Some (msg_read_failed error), fs2)
           | (None, fs2) \<Rightarrow> (None, fs2)))"

definition handle_download_block_response ::
    "('fs, 'j, 'tok) client_env \<Rightarrow> rpc_status \<Rightarrow> DownloadBlockResponse \<Rightarrow> 'fs VosfsClient \<Rightarrow> 'fs VosfsClient outcome" where
  "handle_download_block_response E status response c =
     (case status of RpcStatus ok message \<Rightarrow>
        if \<not> ok then Done (emit (AppendLog message) c)
        else
          (let res_status = Status (dbr_status_code response); ino = dbr_ino response; block_id = dbr_block_id response in
           case um_index TransportTask_zero ino (vc_download_tasks c) of (download_task, download_tasks) \<Rightarrow>
           case um_index TBlock_zero block_id (tt_blocks download_task) of (block, blocks) \<Rightarrow>
           let c1 = c\<lparr>vc_download_tasks := um_assign ino (download_task\<lparr>tt_blocks := blocks\<rparr>) download_tasks\<rparr> in
           if Status_ok res_status
           then (case store_block E (tt_local_path download_task) (tb_offset block) (dbr_data response) (vc_disk c1) of
              (Some msg, fs') \<Rightarrow> Done (emit (AppendLog msg) (c1\<lparr>vc_disk := fs'\<rparr>))
            | (None, fs') \<Rightarrow>
                (let download_task = download_task\<lparr>tt_blocks := um_assign block_id (block\<lparr>tb_remaing_times := 0\<rparr>) blocks,
                       tt_done_blocks := tt_done_blocks download_task + 1\<rparr>;
                     c2 = c1\<lparr>vc_disk := fs', vc_download_tasks := um_assign ino download_task (vc_download_tasks c1)\<rparr>
                 in co_await (client_lock c2)
                   (\<lambda>c. Done (emit (AppendLog (dbr_message response)) (client_unlock
                      (if tt_done_blocks download_task \<ge> tt_total_blocks download_task
                       then c\<lparr>vc_download_tasks := um_erase (tt_ino download_task) (vc_download_tasks c)\<rparr> else c))))))
           else Done (emit (AppendLog (dbr_message response)) c1)))"

section \<open>The file of transport tasks\<close>

definition tasks_path :: "UserSession \<Rightarrow> string" where
  "tasks_path session = int_to_string (sint (se_uid session)) @ ''-transport_tasks.json''"

definition block_json :: "'j json_api \<Rightarrow> TBlock \<Rightarrow> 'j" where
  "block_json J block =
     js_object J [(''remaing_times'', js_of_u64 J (tb_remaing_times block)), (''id'', js_of_u64 J (tb_id block)),
       (''ino'', js_of_u64 J (tb_ino block)), (''offset'', js_of_u64 J (tb_offset block)),
       (''size'', js_of_u64 J (tb_size block)), (''data_node_ids'', js_of_flags J (tb_data_node_ids block))]"

definition task_json :: "'j json_api \<Rightarrow> TransportTask \<Rightarrow> 'j" where
  "task_json J task =
     js_object J [(''ino'', js_of_u64 J (tt_ino task)), (''total_blocks'', js_of_u64 J (tt_total_blocks task)),
       (''done_blocks'', js_of_u64 J (tt_done_blocks task)), (''local_path'', js_of_string J (tt_local_path task)),
       (''remote_path'', js_of_string J (tt_remote_path task)),
       (''blocks'', js_list J (js_empty_array J) (map (block_json J) (um_values (tt_blocks task))))]"

definition tasks_json :: "'j json_api \<Rightarrow> (u64, TransportTask) umap \<Rightarrow> (u64, TransportTask) umap \<Rightarrow> 'j" where
  "tasks_json J upload_tasks download_tasks =
     js_object J [(''upload_tasks'', js_list J (js_empty_array J) (map (task_json J) (um_values upload_tasks))),
       (''download_tasks'', js_list J (js_empty_array J) (map (task_json J) (um_values download_tasks)))]"

text \<open>\<open>dump\<close> is only called when the stream is open.\<close>

definition save_transport_tasks_json :: "('fs, 'j, 'tok) client_env \<Rightarrow> 'fs VosfsClient \<Rightarrow> 'fs VosfsClient outcome" where
  "save_transport_tasks_json E c =
     (if se_token (vc_session c) = [] then Done c
      else
        (let path = tasks_path (vc_session c); root = tasks_json (ce_json E) (vc_upload_tasks c) (vc_download_tasks c) in
         case js_dump (ce_json E) root of
           None \<Rightarrow> (if fst (tf_write (ce_texts E) (vc_disk c) path []) then Crashed else Done c)
         | Some s \<Rightarrow> Done (c\<lparr>vc_disk := snd (tf_write (ce_texts E) (vc_disk c) path s)\<rparr>)))"

definition block_of_json :: "'j json_api \<Rightarrow> 'j \<Rightarrow> TBlock outcome" where
  "block_of_json J block =
     co_await (field_u64 J block ''remaing_times'') (\<lambda>remaing_times.
     co_await (field_u64 J block ''id'') (\<lambda>i.
     co_await (field_u64 J block ''ino'') (\<lambda>ino.
     co_await (field_u64 J block ''offset'') (\<lambda>offset.
     co_await (field_u64 J block ''size'') (\<lambda>sz.
     co_await (field_flags J block ''data_node_ids'') (\<lambda>data_node_ids.
       Done \<lparr>tb_remaing_times = remaing_times, tb_id = i, tb_ino = ino, tb_offset = offset, tb_size = sz,
         tb_data_node_ids = data_node_ids\<rparr>))))))"

definition task_of_json :: "'j json_api \<Rightarrow> 'j \<Rightarrow> TransportTask outcome" where
  "task_of_json J task =
     co_await (field_u64 J task ''ino'') (\<lambda>ino.
     co_await (field_u64 J task ''total_blocks'') (\<lambda>total_blocks.
     co_await (field_u64 J task ''done_blocks'') (\<lambda>done_blocks.
     co_await (field_string J task ''local_path'') (\<lambda>local_path.
     co_await (field_string J task ''remote_path'') (\<lambda>remote_path.
     co_await (field_elems J task ''blocks'') (\<lambda>blocks_json.
     co_await (for_each (\<lambda>block m. co_await (block_of_json J block) (\<lambda>b. Done (um_emplace (tb_id b) b m)))
        blocks_json []) (\<lambda>blocks.
       Done \<lparr>tt_ino = ino, tt_total_blocks = total_blocks, tt_done_blocks = done_blocks, tt_local_path = local_path,
         tt_remote_path = remote_path, tt_blocks = blocks\<rparr>)))))))"

text \<open>One element of each of the two arrays: the task is queued again and kept.\<close>

definition load_upload_task ::
    "'j json_api \<Rightarrow> 'j \<Rightarrow> (u64, TransportTask) umap \<times> 'fs VosfsClient
     \<Rightarrow> ((u64, TransportTask) umap \<times> 'fs VosfsClient) outcome" where
  "load_upload_task J json s =
     (case s of (tasks, c) \<Rightarrow>
        co_await (task_of_json J json) (\<lambda>task. Done (um_emplace (tt_ino task) task tasks, do_upload_task task c)))"

definition load_download_task ::
    "'j json_api \<Rightarrow> 'j \<Rightarrow> (u64, TransportTask) umap \<times> 'fs VosfsClient
     \<Rightarrow> ((u64, TransportTask) umap \<times> 'fs VosfsClient) outcome" where
  "load_download_task J json s =
     (case s of (tasks, c) \<Rightarrow>
        co_await (task_of_json J json) (\<lambda>task. co_await (do_download_task task c)
          (\<lambda>c. Done (um_emplace (tt_ino task) task tasks, c))))"

definition load_transport_tasks_json :: "('fs, 'j, 'tok) client_env \<Rightarrow> 'fs VosfsClient \<Rightarrow> 'fs VosfsClient outcome" where
  "load_transport_tasks_json E c =
     (let path = tasks_path (vc_session c); J = ce_json E; F = ce_texts E in
      co_await
        (if \<not> tf_exists F (vc_disk c) path then write_json F J (tasks_json J [] []) path (vc_disk c) else Done (vc_disk c))
        (\<lambda>fs. co_await (from_option (Option.bind (tf_read F fs path) (js_parse J)))
        (\<lambda>json. co_await (field_elems J json ''upload_tasks'')
        (\<lambda>upload_tasks_json. co_await (for_each (load_upload_task J) upload_tasks_json ([], c\<lparr>vc_disk := fs\<rparr>))
        (\<lambda>(upload_tasks, c1). co_await (field_elems J json ''download_tasks'')
        (\<lambda>download_tasks_json. co_await (for_each (load_download_task J) download_tasks_json ([], c1))
        (\<lambda>(download_tasks, c2).
           Done (c2\<lparr>vc_upload_tasks := upload_tasks, vc_download_tasks := download_tasks\<rparr>))))))))"

section \<open>The main loop\<close>

fun run_task :: "('fs, 'j, 'tok) client_env \<Rightarrow> client_task \<Rightarrow> 'fs VosfsClient \<Rightarrow> 'fs VosfsClient outcome" where
  "run_task E (SendRegisterUser user_name password role admin_secret) c =
     Done (send_register_user_request E user_name password role admin_secret c)"
| "run_task E (SendDeleteUser password) c = Done (send_delete_user_request E password c)"
| "run_task E (SendLoginUserByName user_name password role) c =
     Done (send_login_user_by_name_request E user_name password role c)"
| "run_task E (SendListDir path) c = Done (send_list_dir_request path c)"
| "run_task E (SendMakeDir parent_path name) c = Done (send_make_dir_request parent_path name c)"
| "run_task E (SendPrepareUploadFile local_path current_dir) c =
     Done (send_prepare_upload_file_request E local_path current_dir c)"
| "run_task E (SendUploadBlock local_path block_id ino offset sz data_node_id) c =
     Done (send_upload_block_request E local_path block_id ino offset sz data_node_id c)"
| "run_task E (SendUploadFile ino) c = Done (send_upload_file_request ino c)"
| "run_task E (SendPrepareDownloadFile local_path remote_path) c =
     Done (send_prepare_download_file_request E local_path remote_path c)"
| "run_task E (SendDownloadBlock block_id ino data_node_id) c = Done (send_download_block_request block_id ino data_node_id c)"
| "run_task E LoadTransportTasks c = load_transport_tasks_json E c"
| "run_task E ShutdownAuthClient c = Done c"
| "run_task E (ShutdownRaftClient i) c = Done c"

definition MAX_POP_SIZE :: nat where "MAX_POP_SIZE = 16"

text \<open>The inner loop of \<open>process_tasks\<close>: at most \<open>MAX_POP_SIZE\<close> coroutines between two pauses.\<close>

fun process_tasks :: "('fs, 'j, 'tok) client_env \<Rightarrow> nat \<Rightarrow> 'fs VosfsClient \<Rightarrow> 'fs VosfsClient outcome" where
  "process_tasks E 0 c = Done c"
| "process_tasks E (Suc n) c =
     (case vc_tasks c of
        [] \<Rightarrow> Done c
      | task # rest \<Rightarrow> co_await (run_task E task (c\<lparr>vc_tasks := rest\<rparr>)) (process_tasks E n))"

text \<open>
  The outer loop, as long as the fuel lasts: \<open>None\<close> when the fuel is used up before the loop ends.
\<close>

fun process_loop :: "('fs, 'j, 'tok) client_env \<Rightarrow> nat \<Rightarrow> 'fs VosfsClient \<Rightarrow> 'fs VosfsClient option outcome" where
  "process_loop E 0 c = Done None"
| "process_loop E (Suc fuel) c =
     (if \<not> vc_is_shutdown c \<or> vc_tasks c \<noteq> [] then co_await (process_tasks E MAX_POP_SIZE c) (process_loop E fuel)
      else Done (Some c))"

definition client_run :: "'fs VosfsClient \<Rightarrow> 'fs VosfsClient" where
  "client_run c = c\<lparr>vc_is_shutdown := False\<rparr>"

end
