(* ===== verification/Client_Step.thy ===== *)
theory Client_Step
  imports Client_Handlers
begin

text \<open>
  The client as a transition system: what can happen to it, the invariant that every handler
  keeps, and the mutex.
\<close>

datatype client_event =
    UiRegisterUser string string i32 string
  | UiDeleteUser string
  | UiLoginUserByName string string i32
  | UiListDir string
  | UiMakeDir string string
  | UiPrepareUploadFile string string
  | UiPrepareDownloadFile string string
  | UiUpdateTransportPage
  | UiRun
  | UiShutdown
  | OnRegisterUser rpc_status RegisterUserResponse
  | OnDeleteUser rpc_status DeleteUserResponse
  | OnLoginUserByName rpc_status LoginUserByNameResponse
  | OnListDir rpc_status ListDirResponse
  | OnMakeDir rpc_status MakeDirResponse
  | OnPrepareUploadFile rpc_status PrepareUploadFileResponse
  | OnUploadBlock rpc_status UploadBlockResponse
  | OnUploadFile rpc_status UploadFileResponse
  | OnPrepareDownloadFile rpc_status PrepareDownloadFileResponse
  | OnDownloadBlock rpc_status DownloadBlockResponse
  | ProcessTasks
  | SaveTransportTasks

fun client_step :: "('fs, 'j, 'tok) client_env \<Rightarrow> client_event \<Rightarrow> 'fs VosfsClient \<Rightarrow> 'fs VosfsClient outcome" where
  "client_step E (UiRegisterUser n p r s) c = Done (register_user n p r s c)"
| "client_step E (UiDeleteUser p) c = Done (delete_user p c)"
| "client_step E (UiLoginUserByName n p r) c = Done (login_user_by_name n p r c)"
| "client_step E (UiListDir p) c = Done (list_dir p c)"
| "client_step E (UiMakeDir p n) c = Done (make_dir p n c)"
| "client_step E (UiPrepareUploadFile l d) c = Done (ui_prepare_upload_file l d c)"
| "client_step E (UiPrepareDownloadFile n r) c = Done (ui_prepare_download_file n r c)"
| "client_step E UiUpdateTransportPage c = Done (update_transport_page c)"
| "client_step E UiRun c = Done (client_run c)"
| "client_step E UiShutdown c = Done (client_shutdown c)"
| "client_step E (OnRegisterUser s r) c = Done (handle_register_user_response s r c)"
| "client_step E (OnDeleteUser s r) c = Done (handle_delete_user_response s r c)"
| "client_step E (OnLoginUserByName s r) c = handle_login_user_by_name_response E s r c"
| "client_step E (OnListDir s r) c = handle_list_dir_response E s r c"
| "client_step E (OnMakeDir s r) c = handle_make_dir_response s r c"
| "client_step E (OnPrepareUploadFile s r) c = handle_prepare_upload_file_response s r c"
| "client_step E (OnUploadBlock s r) c = handle_upload_block_response s r c"
| "client_step E (OnUploadFile s r) c = handle_upload_file_response s r c"
| "client_step E (OnPrepareDownloadFile s r) c = handle_prepare_download_file_response s r c"
| "client_step E (OnDownloadBlock s r) c = handle_download_block_response E s r c"
| "client_step E ProcessTasks c = process_tasks E MAX_POP_SIZE c"
| "client_step E SaveTransportTasks c = save_transport_tasks_json E c"

section \<open>The tasks that are queued\<close>

definition upload_queue :: "TransportTask \<Rightarrow> client_task list" where
  "upload_queue task =
     (if tt_done_blocks task \<ge> tt_total_blocks task then [SendUploadFile (tt_ino task)]
      else concat (map (upload_block_tasks (tt_local_path task)) (um_values (tt_blocks task))))"

definition download_queue :: "TransportTask \<Rightarrow> client_task list" where
  "download_queue task =
     (if um_find (tt_blocks task) (tt_done_blocks task) = None then []
      else concat (map download_block_tasks (um_values (tt_blocks task))))"

lemma fold_tasks_emplace: "fold tasks_emplace ts c = c\<lparr>vc_tasks := vc_tasks c @ ts\<rparr>"
  by (induction ts arbitrary: c) (simp_all add: tasks_emplace_def)

lemma fold_blocks_emplace:
  "fold (\<lambda>b. fold tasks_emplace (f b)) bs c = c\<lparr>vc_tasks := vc_tasks c @ concat (map f bs)\<rparr>"
  by (induction bs arbitrary: c) (simp_all add: fold_tasks_emplace)

lemma do_upload_task_eq: "do_upload_task task c = c\<lparr>vc_tasks := vc_tasks c @ upload_queue task\<rparr>"
  by (simp add: do_upload_task_def upload_queue_def fold_blocks_emplace tasks_emplace_def)

lemma do_download_task_eq:
  assumes "tt_done_blocks task < tt_total_blocks task"
  shows "do_download_task task c = Done (c\<lparr>vc_tasks := vc_tasks c @ download_queue task\<rparr>)"
  using assms by (auto simp: do_download_task_def download_queue_def fold_blocks_emplace split: option.splits)

lemma do_download_task_unlocked:
  assumes "\<not> vc_locked c"
  shows "\<exists>c'. do_download_task task c = Done c' \<and> \<not> vc_locked c' \<and> vc_upload_tasks c' = vc_upload_tasks c \<and>
    (vc_download_tasks c' = vc_download_tasks c \<or> vc_download_tasks c' = um_erase (tt_ino task) (vc_download_tasks c)) \<and>
    (\<exists>ts. vc_tasks c' = vc_tasks c @ ts)"
  using assms
  by (auto simp: do_download_task_def fold_blocks_emplace client_lock_def client_unlock_def split: option.splits)

section \<open>The invariant\<close>

text \<open>
  Between two handlers the mutex is free, and every map has each key once.
\<close>

definition block_wf :: "TBlock \<Rightarrow> bool" where
  "block_wf b \<longleftrightarrow> um_wf (tb_data_node_ids b)"

definition task_wf :: "TransportTask \<Rightarrow> bool" where
  "task_wf t \<longleftrightarrow> um_all block_wf (tt_blocks t)"

definition client_wf :: "'fs VosfsClient \<Rightarrow> bool" where
  "client_wf c \<longleftrightarrow> \<not> vc_locked c \<and> um_all task_wf (vc_upload_tasks c) \<and> um_all task_wf (vc_download_tasks c)"

lemma zero_wf [simp]: "block_wf TBlock_zero" "task_wf TransportTask_zero"
  by (simp_all add: block_wf_def task_wf_def TBlock_zero_def TransportTask_zero_def)

lemma client_wf_outside [simp]:
  "client_wf (emit s c) = client_wf c" "client_wf (tasks_emplace t c) = client_wf c" "client_wf (call_method m c) = client_wf c"
  "client_wf (call_leader f c) = client_wf c" "client_wf (call_data_node n m c) = client_wf c"
  "client_wf (c\<lparr>vc_tasks := ts\<rparr>) = client_wf c" "client_wf (c\<lparr>vc_leader_id := i\<rparr>) = client_wf c"
  "client_wf (c\<lparr>vc_session := u\<rparr>) = client_wf c" "client_wf (c\<lparr>vc_disk := fs\<rparr>) = client_wf c"
  "client_wf (c\<lparr>vc_is_shutdown := b\<rparr>) = client_wf c"
  by (simp_all add: client_wf_def client_basics)

lemma make_block_wf: "block_wf (make_block b)"
proof -
  have "um_wf (fold (\<lambda>i. um_emplace i False) xs m)" if "um_wf m" for xs and m :: "(u64, bool) umap"
    using that by (induction xs arbitrary: m) auto
  then show ?thesis by (simp add: block_wf_def make_block_def)
qed

lemma make_task_wf: "make_task bs l r = Done t \<Longrightarrow> task_wf t"
  by (auto simp: make_task_def task_wf_def make_block_wf um_all_fold_emplace split: if_splits)

lemma ack_task_wf:
  assumes "task_wf t"
  shows "task_wf (ack_task i n t)"
proof -
  obtain b bs where i: "um_index TBlock_zero i (tt_blocks t) = (b, bs)" by fastforce
  have "block_wf b" "um_all block_wf bs"
    using um_all_index [of block_wf "tt_blocks t" TBlock_zero i] assms by (auto simp: task_wf_def i)
  then show ?thesis by (auto simp: ack_task_def i Let_def task_wf_def ack_block_def block_wf_def)
qed

lemma task_of_json_wf:
  assumes "json_spec J" and "task_of_json J j = Done t"
  shows "task_wf t"
proof -
  have b: "block_wf b" if "block_of_json J x = Done b" for x b
    using that field_flags_wf [OF assms(1)] by (auto simp: block_of_json_def co_await_Done_iff block_wf_def)
  from assms(2) obtain bs where l:
    "for_each (\<lambda>block m. co_await (block_of_json J block) (\<lambda>b. Done (um_emplace (tb_id b) b m))) bs [] = Done (tt_blocks t)"
    by (auto simp: task_of_json_def co_await_Done_iff)
  have "um_all block_wf (tt_blocks t)"
    by (rule for_each_inv [OF l]) (auto simp: co_await_Done_iff b)
  then show ?thesis by (simp add: task_wf_def)
qed

section \<open>Every handler keeps it\<close>

lemma redirect_wf: "redirect m c = Done c' \<Longrightarrow> client_wf c \<Longrightarrow> client_wf c'"
  by (auto simp: redirect_def co_await_Done_iff)

lemma client_lock_wf: "client_wf c \<Longrightarrow> client_lock c = Done (c\<lparr>vc_locked := True\<rparr>)"
  by (simp add: client_wf_def client_lock_def)

lemma prepare_upload_wf:
  assumes "client_wf c" and "handle_prepare_upload_file_response s r c = Done c'"
  shows "client_wf c'"
  using assms redirect_wf [of _ c c']
  by (auto simp: handle_prepare_upload_file_response_def co_await_Done_iff Let_def client_lock_wf do_upload_task_eq
      client_unlock_def make_task_wf split: rpc_status.splits if_splits)
    (auto simp: client_wf_def make_task_wf)

lemma prepare_download_wf:
  assumes "client_wf c" and "handle_prepare_download_file_response s r c = Done c'"
  shows "client_wf c'"
proof -
  have d: "do_download_task t (c\<lparr>vc_locked := True\<rparr>) = Done c2 \<Longrightarrow>
      vc_upload_tasks c2 = vc_upload_tasks c \<and> vc_download_tasks c2 = vc_download_tasks c" for t c2
    by (auto simp: do_download_task_def fold_blocks_emplace client_lock_def split: if_splits option.splits)
  show ?thesis using assms redirect_wf [of _ c c']
    by (auto simp: handle_prepare_download_file_response_def co_await_Done_iff Let_def client_lock_wf
        client_unlock_def split: rpc_status.splits if_splits)
      (auto simp: client_wf_def make_task_wf dest!: d)
qed

lemma upload_block_response_wf:
  assumes "client_wf c"
  shows "\<exists>c'. handle_upload_block_response s r c = Done c' \<and> client_wf c'"
proof -
  obtain t ts where i: "um_index TransportTask_zero (ubr_ino r) (vc_upload_tasks c) = (t, ts)" by fastforce
  have w: "task_wf t" "um_all task_wf ts"
    using um_all_index [of task_wf "vc_upload_tasks c" TransportTask_zero "ubr_ino r"] assms by (auto simp: client_wf_def i)
  show ?thesis using assms w
    by (auto simp: handle_upload_block_response_def Let_def i client_lock_def client_unlock_def client_wf_def ack_task_wf
        tasks_emplace_def emit_def split: rpc_status.splits)
qed

lemma upload_file_response_wf:
  "client_wf c \<Longrightarrow> handle_upload_file_response s r c = Done c' \<Longrightarrow> client_wf c'"
  using redirect_wf [of _ c c']
  by (auto simp: handle_upload_file_response_def Let_def client_lock_def client_unlock_def client_wf_def emit_def
      split: rpc_status.splits if_splits)

lemma download_block_response_wf:
  assumes "client_wf c"
  shows "\<exists>c'. handle_download_block_response E s r c = Done c' \<and> client_wf c'"
proof -
  obtain t ts where i: "um_index TransportTask_zero (dbr_ino r) (vc_download_tasks c) = (t, ts)" by fastforce
  obtain b bs where j: "um_index TBlock_zero (dbr_block_id r) (tt_blocks t) = (b, bs)" by fastforce
  have "task_wf t" and w: "um_all task_wf ts"
    using um_all_index [of task_wf "vc_download_tasks c" TransportTask_zero "dbr_ino r"] assms by (auto simp: client_wf_def i)
  then have "block_wf b" "um_all block_wf bs"
    using um_all_index [of block_wf "tt_blocks t" TBlock_zero "dbr_block_id r"] by (auto simp: task_wf_def j)
  then have "task_wf (t\<lparr>tt_blocks := bs\<rparr>)"
    "task_wf (t\<lparr>tt_blocks := um_assign (dbr_block_id r) (b\<lparr>tb_remaing_times := 0\<rparr>) bs, tt_done_blocks := n\<rparr>)" for n
    by (auto simp: task_wf_def block_wf_def)
  with assms w show ?thesis
    by (auto simp: handle_download_block_response_def Let_def i j client_lock_def client_unlock_def client_wf_def
        emit_def split: rpc_status.splits prod.splits option.splits)
qed

lemma load_tasks_wf:
  assumes J: "json_spec (ce_json E)" and c: "client_wf c" and l: "load_transport_tasks_json E c = Done c'"
  shows "client_wf c'"
proof -
  let ?J = "ce_json E" and ?I = "\<lambda>(ts, d). um_all task_wf ts \<and> client_wf d"
  have u: "?I s'" if "?I s" "load_upload_task ?J j s = Done s'" for j s s'
    using that task_of_json_wf [OF J] by (auto simp: load_upload_task_def co_await_Done_iff do_upload_task_eq split: prod.splits)
  have d: "?I s'" if I: "?I s" and f: "load_download_task ?J j s = Done s'" for j s s'
  proof -
    obtain ts a where s: "s = (ts, a)" by fastforce
    from f s obtain t where t: "task_of_json ?J j = Done t" by (auto simp: load_download_task_def co_await_Done_iff)
    from I s have "\<not> vc_locked a" by (simp add: client_wf_def)
    then obtain a' where "do_download_task t a = Done a'" "\<not> vc_locked a'" "vc_upload_tasks a' = vc_upload_tasks a"
      "vc_download_tasks a' = vc_download_tasks a \<or> vc_download_tasks a' = um_erase (tt_ino t) (vc_download_tasks a)"
      using do_download_task_unlocked by blast
    with f s t I task_of_json_wf [OF J t] show ?thesis by (auto simp: load_download_task_def client_wf_def)
  qed
  from l obtain fs us ds ut c1 dt c2 where
    1: "for_each (load_upload_task ?J) us ([], c\<lparr>vc_disk := fs\<rparr>) = Done (ut, c1)" and
    2: "for_each (load_download_task ?J) ds ([], c1) = Done (dt, c2)" and
    3: "c' = c2\<lparr>vc_upload_tasks := ut, vc_download_tasks := dt\<rparr>"
    by (auto simp: load_transport_tasks_json_def Let_def co_await_Done_iff split: prod.splits)
  have i1: "?I (ut, c1)" by (rule for_each_inv [OF 1, where P = ?I]) (use c in simp, erule (1) u)
  have "?I (dt, c2)" by (rule for_each_inv [OF 2, where P = ?I]) (use i1 in simp, erule (1) d)
  with i1 3 show ?thesis by (simp add: client_wf_def)
qed

lemma run_task_wf: "json_spec (ce_json E) \<Longrightarrow> client_wf c \<Longrightarrow> run_task E t c = Done c' \<Longrightarrow> client_wf c'"
  by (cases t)
    (auto simp: send_register_user_request_def send_delete_user_request_def send_login_user_by_name_request_def
      send_list_dir_request_def send_make_dir_request_def send_prepare_upload_file_request_def
      send_upload_block_request_def send_upload_file_request_def send_prepare_download_file_request_def
      send_download_block_request_def Let_def intro: load_tasks_wf split: sum.splits option.splits)

lemma process_tasks_wf: "json_spec (ce_json E) \<Longrightarrow> client_wf c \<Longrightarrow> process_tasks E n c = Done c' \<Longrightarrow> client_wf c'"
  by (induction n arbitrary: c) (auto simp: co_await_Done_iff split: list.splits, metis run_task_wf client_wf_outside(6))

lemma client_shutdown_wf: "client_wf (client_shutdown c) = client_wf c"
proof -
  have "client_wf (fold (\<lambda>i. tasks_emplace (ShutdownRaftClient i)) is d) = client_wf d" for "is" and d :: "'a VosfsClient"
    by (induction "is" arbitrary: d) simp_all
  then show ?thesis by (simp add: client_shutdown_def)
qed

lemmas ui_defs = register_user_def delete_user_def login_user_by_name_def list_dir_def make_dir_def
  ui_prepare_upload_file_def ui_prepare_download_file_def update_transport_page_def client_run_def

lemma client_step_wf:
  assumes J: "json_spec (ce_json E)" and c: "client_wf c" and s: "client_step E e c = Done c'"
  shows "client_wf c'"
proof (cases e)
  case (OnLoginUserByName st r)
  with c s show ?thesis
    by (auto simp: handle_login_user_by_name_response_def co_await_Done_iff Let_def split: rpc_status.splits if_splits)
next
  case (OnListDir st r)
  with c s show ?thesis
    by (auto simp: handle_list_dir_response_def Let_def intro: redirect_wf split: rpc_status.splits if_splits)
next
  case (OnMakeDir st r)
  with c s show ?thesis
    by (auto simp: handle_make_dir_response_def Let_def send_list_dir_request_def intro: redirect_wf split: rpc_status.splits if_splits)
next
  case (OnUploadBlock st r)
  with s upload_block_response_wf [OF c, of st r] show ?thesis by auto
next
  case (OnDownloadBlock st r)
  with s download_block_response_wf [OF c, of E st r] show ?thesis by auto
next
  case SaveTransportTasks
  with c s show ?thesis by (auto simp: save_transport_tasks_json_def Let_def split: if_splits option.splits)
qed (use c s in \<open>auto simp: ui_defs client_shutdown_wf handle_register_user_response_def handle_delete_user_response_def
       Let_def intro: prepare_upload_wf prepare_download_wf upload_file_response_wf process_tasks_wf [OF J]
       split: rpc_status.splits\<close>)

section \<open>Nobody waits for the mutex\<close>

text \<open>The number of blocks of an answer fits the \<open>int\<close> that \<open>blocks_size()\<close> returns.\<close>

fun event_fits :: "client_event \<Rightarrow> bool" where
  "event_fits (OnPrepareDownloadFile s r) \<longleftrightarrow> length (pdr_blocks r) < 2 ^ 31"
| "event_fits _ \<longleftrightarrow> True"

lemma co_await_not_Blocked:
  "co_await m f \<noteq> Blocked \<longleftrightarrow> m \<noteq> Blocked \<and> (\<forall>x. m = Done x \<longrightarrow> f x \<noteq> Blocked)"
  by (cases m) simp_all

lemma from_option_not_Blocked [simp]: "from_option x \<noteq> Blocked"
  by (cases x) simp_all

lemma for_each_not_Blocked:
  assumes "P s" and "\<And>x s. P s \<Longrightarrow> f x s \<noteq> Blocked" and "\<And>x s s'. P s \<Longrightarrow> f x s = Done s' \<Longrightarrow> P s'"
  shows "for_each f xs s \<noteq> Blocked"
  using assms by (induction xs arbitrary: s) (auto simp: co_await_not_Blocked)

lemma task_of_json_not_Blocked [simp]: "task_of_json J j \<noteq> Blocked"
proof -
  have "block_of_json J x \<noteq> Blocked" for x
    by (simp add: block_of_json_def co_await_not_Blocked field_u64_def field_flags_def)
  then have "for_each (\<lambda>block m. co_await (block_of_json J block) (\<lambda>b. Done (um_emplace (tb_id b) b m))) xs m \<noteq> Blocked" for xs m
    by (intro for_each_not_Blocked [where P = "\<lambda>_. True"]) (simp_all add: co_await_not_Blocked)
  then show ?thesis
    by (simp add: task_of_json_def co_await_not_Blocked field_u64_def field_string_def field_elems_def)
qed

lemma redirect_not_Blocked [simp]: "redirect m c \<noteq> Blocked"
  by (simp add: redirect_def co_await_not_Blocked)

lemma write_json_not_Blocked [simp]: "write_json F J j p fs \<noteq> Blocked"
  by (simp add: write_json_def co_await_not_Blocked)

lemma load_tasks_not_Blocked:
  fixes c :: "'fs VosfsClient"
  assumes "\<not> vc_locked c"
  shows "load_transport_tasks_json E c \<noteq> Blocked"
proof -
  let ?J = "ce_json E" and ?I = "\<lambda>(ts :: (u64, TransportTask) umap, d :: 'fs VosfsClient). \<not> vc_locked d"
  have u: "for_each (load_upload_task ?J) us s \<noteq> Blocked \<and> (for_each (load_upload_task ?J) us s = Done s' \<longrightarrow> ?I s')"
    if "?I s" for us s s'
  proof -
    have "load_upload_task ?J x s \<noteq> Blocked" "load_upload_task ?J x s = Done s' \<Longrightarrow> ?I s'" if "?I s" for x s s'
      using that by (auto simp: load_upload_task_def co_await_not_Blocked co_await_Done_iff do_upload_task_eq split: prod.splits)
    with for_each_not_Blocked [of ?I s "load_upload_task ?J"] for_each_inv [of "load_upload_task ?J" us s s' ?I] that
    show ?thesis by blast
  qed
  have d: "for_each (load_download_task ?J) ds s \<noteq> Blocked" if "?I s" for ds s
  proof (rule for_each_not_Blocked [where P = ?I])
    show "?I s" by fact
    fix x s s' assume "?I s"
    then obtain ts a where s: "s = (ts, a)" "\<not> vc_locked a" by (cases s) auto
    with do_download_task_unlocked [of a]
    show "load_download_task ?J x s \<noteq> Blocked" "load_download_task ?J x s = Done s' \<Longrightarrow> ?I s'"
      by (auto simp: load_download_task_def co_await_not_Blocked co_await_Done_iff) (metis outcome.distinct(1), metis outcome.inject(1))
  qed
  have u1: "for_each (load_upload_task ?J) us ([], a) \<noteq> Blocked" if "\<not> vc_locked a" for us and a :: "'fs VosfsClient"
    using u [of "([], a)"] that by simp
  have u2: "\<not> vc_locked b" if "for_each (load_upload_task ?J) us ([], a) = Done (ts, b)" "\<not> vc_locked a"
    for us ts and a b :: "'fs VosfsClient"
    using u [of "([], a)" us "(ts, b)"] that by simp
  have d1: "for_each (load_download_task ?J) ds ([], b) \<noteq> Blocked" if "\<not> vc_locked b" for ds and b :: "'fs VosfsClient"
    using d [of "([], b)"] that by simp
  show ?thesis using assms
    by (auto simp: load_transport_tasks_json_def Let_def co_await_not_Blocked field_elems_def u1 d1 dest!: u2 split: prod.splits)
qed

lemma run_task_not_Blocked: "\<not> vc_locked c \<Longrightarrow> run_task E t c \<noteq> Blocked"
  by (cases t) (simp_all add: load_tasks_not_Blocked)

lemma process_tasks_not_Blocked: "json_spec (ce_json E) \<Longrightarrow> client_wf c \<Longrightarrow> process_tasks E n c \<noteq> Blocked"
proof (induction n arbitrary: c)
  case (Suc n)
  have "client_wf (c\<lparr>vc_tasks := ts\<rparr>)" "\<not> vc_locked (c\<lparr>vc_tasks := ts\<rparr>)" for ts using Suc.prems(2) by (simp_all add: client_wf_def)
  then have "process_tasks E n c' \<noteq> Blocked" if "run_task E t (c\<lparr>vc_tasks := ts\<rparr>) = Done c'" for t ts c'
    using that Suc.prems(1) run_task_wf Suc.IH by blast
  with Suc.prems show ?case
    by (auto simp: co_await_not_Blocked run_task_not_Blocked client_wf_def split: list.splits)
qed simp

lemma prepare_download_not_Blocked:
  assumes c: "client_wf c" and n: "length (pdr_blocks r) < 2 ^ 31"
  shows "handle_prepare_download_file_response s r c \<noteq> Blocked"
proof -
  have "tt_done_blocks t < tt_total_blocks t" if "make_task (pdr_blocks r) l p = Done t" for l p t
    using that n by (auto simp: make_task_def word_less_nat_alt unat_of_nat_small split: if_splits)
  then show ?thesis using c
    by (auto simp: handle_prepare_download_file_response_def Let_def co_await_not_Blocked client_lock_wf do_download_task_eq
        make_task_def split: rpc_status.splits)
qed

lemma client_step_not_Blocked:
  assumes J: "json_spec (ce_json E)" and c: "client_wf c" and e: "event_fits e"
  shows "client_step E e c \<noteq> Blocked"
proof (cases e)
  case (OnLoginUserByName st r)
  then show ?thesis
    by (auto simp: handle_login_user_by_name_response_def Let_def co_await_not_Blocked login_session_def split: rpc_status.splits)
next
  case (OnPrepareUploadFile st r)
  with c show ?thesis
    by (auto simp: handle_prepare_upload_file_response_def Let_def co_await_not_Blocked client_lock_wf make_task_def
        split: rpc_status.splits)
next
  case (OnUploadBlock st r)
  with upload_block_response_wf [OF c, of st r] show ?thesis by auto
next
  case (OnDownloadBlock st r)
  with download_block_response_wf [OF c, of E st r] show ?thesis by auto
next
  case ProcessTasks
  with process_tasks_not_Blocked [OF J c] show ?thesis by simp
qed (use c e prepare_download_not_Blocked in
      \<open>auto simp: handle_list_dir_response_def handle_make_dir_response_def handle_upload_file_response_def
        save_transport_tasks_json_def Let_def co_await_not_Blocked client_lock_wf split: rpc_status.splits option.splits\<close>)

section \<open>Reachable states\<close>

interpretation client: transition_system "\<lambda>e. client_step E e" "\<lambda>c. json_spec (ce_json E)" client_wf "\<lambda>c c'. True"
  for E :: "('fs, 'j, 'tok) client_env"
  by unfold_locales (auto intro: client_step_wf)

lemma VosfsClient_new_wf: "client_wf (VosfsClient_new a r d fs)"
  by (simp add: client_wf_def VosfsClient_new_def)

end
