(* ===== verification/Client_Upload.thy ===== *)
theory Client_Upload
  imports Client_Step "HOL-Library.Multiset"
begin

text \<open>
  Uploads of the client: how a file is cut into blocks, and how the answers of the data nodes
  are counted until the file is registered with the cluster.
\<close>

section \<open>Cutting a file into blocks\<close>

text \<open>The block at position \<open>k\<close> of a file, and the number of blocks.\<close>

definition nth_block :: "u64 \<Rightarrow> u64 \<Rightarrow> u64 \<Rightarrow> nat \<Rightarrow> BlockInfo" where
  "nth_block i off file_size k =
     BlockInfo_default\<lparr>bi_id := i + of_nat k, bi_offset := off + of_nat (k * unat VOSFS_BLOCK_SIZE),
       bi_size := of_nat (min (unat VOSFS_BLOCK_SIZE) (unat file_size - k * unat VOSFS_BLOCK_SIZE))\<rparr>"

definition block_count :: "nat \<Rightarrow> nat" where
  "block_count n = (n + unat VOSFS_BLOCK_SIZE - 1) div unat VOSFS_BLOCK_SIZE"

lemma block_size_nat: "unat VOSFS_BLOCK_SIZE = 1048576"
  by (simp add: VOSFS_BLOCK_SIZE_def)

lemma block_count_simps:
  "block_count 0 = 0"
  "0 < n \<Longrightarrow> n < unat VOSFS_BLOCK_SIZE \<Longrightarrow> block_count n = 1"
  "unat VOSFS_BLOCK_SIZE \<le> n \<Longrightarrow> block_count n = Suc (block_count (n - unat VOSFS_BLOCK_SIZE))"
proof -
  let ?B = "unat VOSFS_BLOCK_SIZE"
  have B: "0 < ?B" by (simp add: block_size_nat)
  show "block_count 0 = 0" using B by (simp add: block_count_def)
  show "block_count n = 1" if "0 < n" "n < ?B"
    using that B by (simp add: block_count_def div_nat_eqI)
  show "block_count n = Suc (block_count (n - ?B))" if "?B \<le> n"
  proof -
    have "n + ?B - 1 = (n - ?B + ?B - 1) + ?B" using that B by simp
    then show ?thesis using B unfolding block_count_def by (metis div_add_self2 less_numeral_extra(3) Suc_eq_plus1)
  qed
qed

lemma split_blocks_simps:
  "split_blocks i off 0 = []"
  "0 < n \<Longrightarrow> n < VOSFS_BLOCK_SIZE \<Longrightarrow> split_blocks i off n = [BlockInfo_default\<lparr>bi_id := i, bi_offset := off, bi_size := n\<rparr>]"
  "VOSFS_BLOCK_SIZE \<le> n \<Longrightarrow> split_blocks i off n = BlockInfo_default\<lparr>bi_id := i, bi_offset := off, bi_size := VOSFS_BLOCK_SIZE\<rparr> #
     split_blocks (i + 1) (off + VOSFS_BLOCK_SIZE) (n - VOSFS_BLOCK_SIZE)"
proof -
  have "0 < n" if "VOSFS_BLOCK_SIZE \<le> n" using that by (simp add: VOSFS_BLOCK_SIZE_def word_le_nat_alt word_less_nat_alt)
  then show "VOSFS_BLOCK_SIZE \<le> n \<Longrightarrow> split_blocks i off n = BlockInfo_default\<lparr>bi_id := i, bi_offset := off, bi_size := VOSFS_BLOCK_SIZE\<rparr> #
     split_blocks (i + 1) (off + VOSFS_BLOCK_SIZE) (n - VOSFS_BLOCK_SIZE)"
    by (simp add: split_blocks.simps [of i off n])
qed (auto simp: split_blocks.simps [of i off] split_blocks.simps [of _ _ 0] Let_def dest: leD)

text \<open>The three cases of the loop, for induction over it.\<close>

lemma split_blocks_cases [case_names none last full]:
  obtains "n = 0" | "0 < n" "n < VOSFS_BLOCK_SIZE" | "0 < n" "VOSFS_BLOCK_SIZE \<le> n"
  by (cases "n = 0"; cases "n < VOSFS_BLOCK_SIZE") (auto simp: word_gt_0 not_less)

lemma nth_block_Suc:
  assumes "VOSFS_BLOCK_SIZE \<le> n"
  shows "nth_block i off n (Suc k) = nth_block (i + 1) (off + VOSFS_BLOCK_SIZE) (n - VOSFS_BLOCK_SIZE) k"
proof -
  have "unat n - Suc k * unat VOSFS_BLOCK_SIZE = unat (n - VOSFS_BLOCK_SIZE) - k * unat VOSFS_BLOCK_SIZE"
    using assms by (simp add: unat_sub_le)
  then show ?thesis by (simp add: nth_block_def algebra_simps)
qed

lemma split_blocks_eq: "split_blocks i off n = map (nth_block i off n) [0..<block_count (unat n)]"
proof (induction i off n rule: split_blocks.induct)
  case (1 i off n)
  let ?B = "VOSFS_BLOCK_SIZE"
  show ?case
  proof (cases n rule: split_blocks_cases)
    case none
    then show ?thesis by (simp add: split_blocks_simps block_count_simps)
  next
    case last
    then have "0 < unat n" "unat n < unat ?B" by (simp_all add: word_less_nat_alt)
    then show ?thesis using last by (simp add: split_blocks_simps block_count_simps nth_block_def)
  next
    case full
    then have "unat ?B \<le> unat n" by (simp add: word_le_nat_alt)
    then have c: "block_count (unat n) = Suc (block_count (unat (n - ?B)))"
      using full by (simp add: block_count_simps unat_sub_le)
    have h: "nth_block i off n 0 = BlockInfo_default\<lparr>bi_id := i, bi_offset := off, bi_size := ?B\<rparr>"
      using \<open>unat ?B \<le> unat n\<close> by (simp add: nth_block_def min_def)
    have "map (nth_block i off n) [0..<block_count (unat n)] =
        nth_block i off n 0 # map (nth_block (i + 1) (off + ?B) (n - ?B)) [0..<block_count (unat (n - ?B))]"
      unfolding c by (simp add: upt_conv_Cons map_Suc_upt [symmetric] nth_block_Suc [OF full(2)] del: upt_Suc)
    with 1(1) [OF full(1) refl full(2)] h show ?thesis
      by (simp add: split_blocks_simps(3) [OF full(2)])
  qed
qed

definition file_slice :: "string \<Rightarrow> u64 \<Rightarrow> u64 \<Rightarrow> string" where
  "file_slice f off n = take (unat n) (drop (unat off) f)"

lemma split_blocks_slices:
  assumes "unat off + unat n < 2 ^ 64"
  shows "concat (map (\<lambda>b. file_slice f (bi_offset b) (bi_size b)) (split_blocks i off n)) = file_slice f off n"
  using assms
proof (induction i off n rule: split_blocks.induct)
  case (1 i off n)
  show ?case
  proof (cases n rule: split_blocks_cases)
    case full
    let ?B = "VOSFS_BLOCK_SIZE"
    have u: "unat (n - ?B) = unat n - unat ?B" "unat ?B \<le> unat n" using full by (simp_all add: unat_sub_le word_le_nat_alt)
    then have o: "unat (off + ?B) = unat off + unat ?B" using 1(3) by (simp add: unat_word_ariths)
    have "take (unat n) (drop (unat off) f) =
        take (unat ?B) (drop (unat off) f) @ take (unat n - unat ?B) (drop (unat ?B) (drop (unat off) f))"
      by (metis u(2) le_add_diff_inverse take_add)
    with 1(1) [OF full(1) refl full(2)] 1(3) u o full(2) show ?thesis
      by (simp add: split_blocks_simps file_slice_def add.commute)
  qed (simp_all add: split_blocks_simps file_slice_def)
qed

lemma file_slice_all: "length f = unat n \<Longrightarrow> file_slice f 0 n = f"
  by (simp add: file_slice_def)

lemma split_blocks_sizes: "sum_list (map (\<lambda>b. unat (bi_size b)) (split_blocks i off n)) = unat n"
proof (induction i off n rule: split_blocks.induct)
  case (1 i off n)
  show ?case
  proof (cases n rule: split_blocks_cases)
    case full
    then have "unat (n - VOSFS_BLOCK_SIZE) = unat n - unat VOSFS_BLOCK_SIZE" "unat VOSFS_BLOCK_SIZE \<le> unat n"
      by (simp_all add: unat_sub_le word_le_nat_alt)
    with 1(1) [OF full(1) refl full(2)] full(2) show ?thesis by (simp add: split_blocks_simps)
  qed (simp_all add: split_blocks_simps)
qed

lemma split_blocks_bounds: "b \<in> set (split_blocks i off n) \<Longrightarrow> 0 < bi_size b \<and> bi_size b \<le> VOSFS_BLOCK_SIZE"
proof (induction i off n rule: split_blocks.induct)
  case (1 i off n)
  show ?case
  proof (cases n rule: split_blocks_cases)
    case full
    moreover have "0 < VOSFS_BLOCK_SIZE" by (simp add: VOSFS_BLOCK_SIZE_def)
    ultimately show ?thesis using 1 by (auto simp: split_blocks_simps)
  qed (use 1 in \<open>auto simp: split_blocks_simps\<close>)
qed

text \<open>
  C21. The loop that cuts a file ends for every file size, and its blocks cover the file
  without gap or overlap: block \<open>k\<close> has the number \<open>k\<close>, starts at \<open>k\<close> times the block size and holds
  the block size or what is left, none is empty or larger than the block size, and the sizes add
  up to the size of the file. No offset wraps around at 64 bits.
\<close>

theorem upload_blocks_cover:
  "length (split_blocks 0 0 file_size) = (unat file_size + 1048575) div 1048576 \<and>
   map (\<lambda>b. unat (bi_id b)) (split_blocks 0 0 file_size) = [0..<length (split_blocks 0 0 file_size)] \<and>
   map (\<lambda>b. unat (bi_offset b)) (split_blocks 0 0 file_size) = map ((*) 1048576) [0..<length (split_blocks 0 0 file_size)] \<and>
   list_all (\<lambda>b. 0 < bi_size b \<and> bi_size b \<le> VOSFS_BLOCK_SIZE) (split_blocks 0 0 file_size) \<and>
   sum_list (map (\<lambda>b. unat (bi_size b)) (split_blocks 0 0 file_size)) = unat file_size"
proof -
  let ?n = "block_count (unat file_size)"
  have n: "?n = (unat file_size + 1048575) div 1048576" by (simp add: block_count_def block_size_nat)
  have k: "k * 1048576 < 2 ^ 64" if "k < ?n" for k
  proof -
    have "Suc k * 1048576 \<le> unat file_size + 1048575"
      using that unfolding n Suc_le_eq [symmetric] by (simp add: less_eq_div_iff_mult_less_eq)
    then show ?thesis using unat_less_64 [of file_size] by simp
  qed
  have "unat (of_nat k :: u64) = k \<and> unat (of_nat k * 1048576 :: u64) = 1048576 * k" if "k < ?n" for k
  proof -
    have "unat (of_nat (k * 1048576) :: u64) = k * 1048576" by (rule unat_of_nat_small [OF k [OF that]])
    with k [OF that] show ?thesis by (simp add: unat_of_nat_small)
  qed
  then have "map (\<lambda>b. unat (bi_id b)) (split_blocks 0 0 file_size) = [0..<?n]"
    and "map (\<lambda>b. unat (bi_offset b)) (split_blocks 0 0 file_size) = map ((*) 1048576) [0..<?n]"
    by (auto simp: split_blocks_eq nth_block_def block_size_nat intro!: map_idI)
  moreover have "length (split_blocks 0 0 file_size) = ?n" by (simp add: split_blocks_eq)
  moreover have "list_all (\<lambda>b. 0 < bi_size b \<and> bi_size b \<le> VOSFS_BLOCK_SIZE) (split_blocks 0 0 file_size)"
    by (auto simp: list_all_iff dest: split_blocks_bounds)
  ultimately show ?thesis using n split_blocks_sizes [of 0 0 file_size] by simp
qed

section \<open>Counting the answers\<close>

text \<open>
  The blocks of an answer to \<open>prepare_upload_file\<close> as the servers give them: numbered differently,
  of one inode, each on at least one data node, none twice.
\<close>

definition placed_blocks :: "u64 \<Rightarrow> BlockInfo list \<Rightarrow> bool" where
  "placed_blocks ino bs \<longleftrightarrow> bs \<noteq> [] \<and> length bs < 2 ^ 31 \<and> distinct (map bi_id bs) \<and>
     (\<forall>b \<in> set bs. bi_ino b = ino \<and> bi_data_node_id b \<noteq> [] \<and> distinct (bi_data_node_id b) \<and> length (bi_data_node_id b) < 2 ^ 31)"

text \<open>The uploads that are expected, as pairs of block and data node.\<close>

definition expected :: "BlockInfo list \<Rightarrow> (u64 \<times> u64) set" where
  "expected bs = {(bi_id b, n) | b n. b \<in> set bs \<and> n \<in> set (bi_data_node_id b)}"

definition missing :: "(u64 \<times> u64) set \<Rightarrow> BlockInfo \<Rightarrow> u64 set" where
  "missing A b = {n \<in> set (bi_data_node_id b). (bi_id b, n) \<notin> A}"

text \<open>The task after the answers in \<open>A\<close>.\<close>

definition counted_block :: "(u64 \<times> u64) set \<Rightarrow> BlockInfo \<Rightarrow> TBlock \<Rightarrow> bool" where
  "counted_block A b tb \<longleftrightarrow> unat (tb_remaing_times tb) = card (missing A b) \<and> um_keys (tb_data_node_ids tb) = bi_data_node_id b \<and>
     (\<forall>n. um_find (tb_data_node_ids tb) n = (if n \<in> set (bi_data_node_id b) then Some ((bi_id b, n) \<in> A) else None)) \<and>
     tb_id tb = bi_id b \<and> tb_ino tb = bi_ino b \<and> tb_offset tb = bi_offset b \<and> tb_size tb = bi_size b"

definition counted :: "u64 \<Rightarrow> BlockInfo list \<Rightarrow> (u64 \<times> u64) set \<Rightarrow> TransportTask \<Rightarrow> bool" where
  "counted ino bs A t \<longleftrightarrow> tt_ino t = ino \<and> unat (tt_total_blocks t) = length bs \<and>
     unat (tt_done_blocks t) = card {b \<in> set bs. missing A b = {}} \<and> um_keys (tt_blocks t) = map bi_id bs \<and>
     (\<forall>b \<in> set bs. \<exists>tb. um_find (tt_blocks t) (bi_id b) = Some tb \<and> counted_block A b tb)"

lemma finite_missing [simp]: "finite (missing A b)"
  by (simp add: missing_def)

lemma missing_insert: "missing (insert (i, n) A) b = (if i = bi_id b then missing A b - {n} else missing A b)"
  by (auto simp: missing_def)

lemma fold_emplace_flags:
  assumes "distinct (um_keys m @ ns)"
  shows "fold (\<lambda>n. um_emplace n False) ns m = m @ map (\<lambda>n. (n, False)) ns"
  using assms
proof (induction ns arbitrary: m)
  case (Cons n ns)
  then have "um_emplace n False m = m @ [(n, False)]" by (simp add: um_emplace_def um_contains_iff)
  with Cons show ?case by (simp add: um_keys_def)
qed simp

lemma fold_emplace_blocks:
  assumes "distinct (um_keys m @ map bi_id bs)"
  shows "fold (\<lambda>b. um_emplace (bi_id b) (make_block b)) bs m = m @ map (\<lambda>b. (bi_id b, make_block b)) bs"
  using assms
proof (induction bs arbitrary: m)
  case (Cons b bs)
  then have "um_emplace (bi_id b) (make_block b) m = m @ [(bi_id b, make_block b)]" by (simp add: um_emplace_def um_contains_iff)
  with Cons show ?case by (simp add: um_keys_def)
qed simp

lemma make_block_flags: "distinct (bi_data_node_id b) \<Longrightarrow> tb_data_node_ids (make_block b) = map (\<lambda>n. (n, False)) (bi_data_node_id b)"
  by (simp add: make_block_def fold_emplace_flags um_keys_def)

lemma make_task_counted:
  assumes "placed_blocks ino bs"
  obtains t where "make_task bs l r = Done t" and "counted ino bs {} t" and "tt_local_path t = l" and "tt_remote_path t = r"
    and "tt_blocks t = map (\<lambda>b. (bi_id b, make_block b)) bs" and "tt_done_blocks t < tt_total_blocks t" and "tt_done_blocks t = 0"
proof -
  have d: "distinct (map bi_id bs)" and ne: "bs \<noteq> []" using assms by (simp_all add: placed_blocks_def)
  define t where "t = \<lparr>tt_ino = bi_ino (hd bs), tt_total_blocks = of_nat (length bs), tt_done_blocks = 0,
    tt_local_path = l, tt_remote_path = r, tt_blocks = map (\<lambda>b. (bi_id b, make_block b)) bs\<rparr>"
  have m: "make_task bs l r = Done t" using d ne by (simp add: make_task_def t_def fold_emplace_blocks um_keys_def)
  have "missing {} b = set (bi_data_node_id b)" for b by (simp add: missing_def)
  moreover have "um_find (map (\<lambda>b. (bi_id b, make_block b)) bs) (bi_id b) = Some (make_block b)" if "b \<in> set bs" for b
    using that d unfolding um_find_def by (intro map_of_is_SomeI) (simp_all add: comp_def)
  moreover have "um_find (tb_data_node_ids (make_block b)) n = (if n \<in> set (bi_data_node_id b) then Some False else None)"
    "um_keys (tb_data_node_ids (make_block b)) = bi_data_node_id b" if "b \<in> set bs" for b n
    using that assms by (auto simp: placed_blocks_def make_block_flags um_find_def um_keys_def map_of_eq_None_iff comp_def
        intro!: map_of_is_SomeI)
  ultimately have "counted ino bs {} t"
    using assms ne by (auto simp: counted_def counted_block_def t_def placed_blocks_def make_block_def unat_of_nat_small um_keys_def comp_def
        distinct_card)
  moreover have "tt_done_blocks t < tt_total_blocks t"
    using assms ne by (simp add: t_def placed_blocks_def word_less_nat_alt unat_of_nat_small)
  ultimately show thesis using m by (intro that [of t]) (simp_all add: t_def)
qed

text \<open>An answer that was still missing.\<close>

lemma ack_task_counted:
  assumes bs: "placed_blocks ino bs" and c: "counted ino bs A t" and e: "(i, n) \<in> expected bs" and new: "(i, n) \<notin> A"
  shows "counted ino bs (insert (i, n) A) (ack_task i n t)"
proof -
  let ?A = "insert (i, n) A"
  obtain b where b: "b \<in> set bs" "bi_id b = i" "n \<in> set (bi_data_node_id b)" using e by (auto simp: expected_def)
  have other: "b' = b" if "b' \<in> set bs" "bi_id b' = i" for b'
    using that b bs inj_on_eq_iff [of bi_id "set bs" b' b] by (auto simp: placed_blocks_def distinct_map)
  have same: "missing ?A b' = missing A b'" "counted_block ?A b' tb = counted_block A b' tb" if "b' \<in> set bs" "b' \<noteq> b" for b' tb
    using other [OF that(1)] that(2) by (auto simp: missing_insert counted_block_def)
  from c b(1,2) obtain tb where tb: "um_find (tt_blocks t) i = Some tb" and cb: "counted_block A b tb"
    unfolding counted_def by blast
  have n: "n \<in> missing A b" using b new by (auto simp: missing_def)
  then have pos: "0 < card (missing A b)" by (auto simp: card_gt_0_iff)
  then have "tb_remaing_times tb > 0" using cb by (simp add: word_less_nat_alt counted_block_def)
  then have r: "unat (tb_remaing_times tb - 1) = card (missing ?A b)"
    using cb n b(2) by (simp add: unat_minus_one missing_insert word_gt_0 counted_block_def)
  have cb': "counted_block ?A b (ack_block n tb)"
    using cb b r \<open>tb_remaing_times tb > 0\<close> by (auto simp: counted_block_def ack_block_def um_keys_assign_present)
  have z: "tb_remaing_times tb = 1 \<longleftrightarrow> missing ?A b = {}"
    using r by (metis card_0_eq finite_missing unat_eq_zero right_minus_eq)
  have ack: "ack_task i n t = t\<lparr>tt_blocks := um_assign i (ack_block n tb) (tt_blocks t),
      tt_done_blocks := (if missing ?A b = {} then tt_done_blocks t + 1 else tt_done_blocks t)\<rparr>"
    using z \<open>tb_remaing_times tb > 0\<close> by (simp add: ack_task_def um_index_def tb ack_block_def Let_def word_gt_0)
  have fresh: "card (insert b {b' \<in> set bs. missing A b' = {}}) = Suc (card {b' \<in> set bs. missing A b' = {}})"
    using n by (intro card_insert_disjoint) auto
  have "{b' \<in> set bs. missing ?A b' = {}} = (if missing ?A b = {} then insert b {b' \<in> set bs. missing A b' = {}}
      else {b' \<in> set bs. missing A b' = {}})"
    using same(1) b(1) n by (cases "missing ?A b = {}") (simp, blast)+
  then have "card {b' \<in> set bs. missing ?A b' = {}} = (if missing ?A b = {} then Suc (unat (tt_done_blocks t)) else unat (tt_done_blocks t))"
    using c fresh by (simp add: counted_def)
  moreover have "unat (tt_done_blocks t) < 2 ^ 31"
    using c bs card_mono [of "set bs" "{b \<in> set bs. missing A b = {}}"] card_length [of bs] by (auto simp: counted_def placed_blocks_def)
  then have "unat (tt_done_blocks t + 1) = Suc (unat (tt_done_blocks t))" by (intro unat_succ) (auto simp: unsigned_minus_1_eq_mask mask_eq_exp_minus_1)
  ultimately have "unat (tt_done_blocks (ack_task i n t)) = card {b' \<in> set bs. missing ?A b' = {}}" by (simp add: ack)
  moreover have "um_keys (tt_blocks (ack_task i n t)) = map bi_id bs"
    using c b(1,2) um_keys_assign_present [of i "tt_blocks t"] by (auto simp: ack counted_def)
  moreover have "\<exists>tb'. um_find (tt_blocks (ack_task i n t)) (bi_id b') = Some tb' \<and> counted_block ?A b' tb'" if "b' \<in> set bs" for b'
  proof (cases "b' = b")
    case True
    with cb' b(2) show ?thesis by (simp add: ack)
  next
    case False
    with that other have "bi_id b' \<noteq> i" by blast
    with that c same(2) [OF that False] show ?thesis by (simp add: ack counted_def)
  qed
  ultimately show ?thesis using c by (simp add: counted_def ack)
qed

lemma counted_complete:
  assumes "placed_blocks ino bs" and "counted ino bs A t"
  shows "tt_total_blocks t \<le> tt_done_blocks t \<longleftrightarrow> expected bs \<subseteq> A"
proof -
  have n: "card (set bs) = length bs" using assms(1) by (simp add: placed_blocks_def distinct_map distinct_card)
  have "tt_total_blocks t \<le> tt_done_blocks t \<longleftrightarrow> card (set bs) \<le> card {b \<in> set bs. missing A b = {}}"
    using assms(2) n by (simp add: counted_def word_le_nat_alt)
  also have "\<dots> \<longleftrightarrow> {b \<in> set bs. missing A b = {}} = set bs"
    using card_seteq [of "set bs" "{b \<in> set bs. missing A b = {}}"] by (metis (lifting) List.finite_set mem_Collect_eq order_refl subsetI)
  also have "\<dots> \<longleftrightarrow> (\<forall>b \<in> set bs. missing A b = {})" by auto
  also have "\<dots> \<longleftrightarrow> expected bs \<subseteq> A" by (auto simp: missing_def expected_def)
  finally show ?thesis .
qed

text \<open>What the client will register: the blocks as they were placed.\<close>

lemma counted_infos:
  assumes "placed_blocks ino bs" and "counted ino bs A t"
  shows "map upload_block_info (um_values (tt_blocks t)) = bs"
proof -
  have k: "um_keys (tt_blocks t) = map bi_id bs" and d: "distinct (map bi_id bs)"
    using assms by (simp_all add: counted_def placed_blocks_def)
  have l: "length (tt_blocks t) = length bs" using arg_cong [OF k, of length] by (simp add: um_keys_def)
  have "upload_block_info (snd (tt_blocks t ! j)) = bs ! j" if "j < length bs" for j
  proof -
    have "map fst (tt_blocks t) ! j = map bi_id bs ! j" using k by (simp add: um_keys_def)
    then have "tt_blocks t ! j = (bi_id (bs ! j), snd (tt_blocks t ! j))" using that l by (simp add: prod_eq_iff)
    then have "(bi_id (bs ! j), snd (tt_blocks t ! j)) \<in> set (tt_blocks t)" using that l by (metis nth_mem)
    then have "um_find (tt_blocks t) (bi_id (bs ! j)) = Some (snd (tt_blocks t ! j))"
      using k d unfolding um_find_def by (intro map_of_is_SomeI) (simp_all add: um_keys_def)
    then have "counted_block A (bs ! j) (snd (tt_blocks t ! j))"
      using assms(2) nth_mem [OF that] unfolding counted_def by fastforce
    then show ?thesis by (simp add: counted_block_def upload_block_info_def BlockInfo_default_def)
  qed
  with l show ?thesis by (intro nth_equalityI) (simp_all add: um_values_def)
qed

definition ack_pair :: "UploadBlockResponse \<Rightarrow> u64 \<times> u64" where
  "ack_pair r = (ubr_block_id r, ubr_data_node_id r)"

text \<open>One answer of success.\<close>

lemma upload_ack:
  assumes bs: "placed_blocks ino bs" and c: "um_find (vc_upload_tasks c) ino = Some t" "counted ino bs A t" "\<not> vc_locked c"
    and r: "ubr_ino r = ino" "ubr_status_code r = kOk" "ack_pair r \<in> expected bs - A"
  obtains c' t' where "handle_upload_block_response (RpcStatus True m) r c = Done c'"
    and "um_find (vc_upload_tasks c') ino = Some t'" and "counted ino bs (insert (ack_pair r) A) t'" and "\<not> vc_locked c'"
    and "tt_remote_path t' = tt_remote_path t" and "vc_raft_clients c' = vc_raft_clients c" and "vc_leader_id c' = vc_leader_id c"
    and "vc_tasks c' = vc_tasks c @ (if expected bs \<subseteq> insert (ack_pair r) A then [SendUploadFile ino] else [])"
proof -
  let ?t = "ack_task (ubr_block_id r) (ubr_data_node_id r) t"
  let ?c = "c\<lparr>vc_upload_tasks := um_assign ino ?t (vc_upload_tasks c)\<rparr>"
  let ?d = "emit (AppendLog (ubr_message r)) (if expected bs \<subseteq> insert (ack_pair r) A then tasks_emplace (SendUploadFile ino) ?c else ?c)"
  have cnt: "counted ino bs (insert (ack_pair r) A) ?t"
    using ack_task_counted [OF bs c(2)] r(3) by (simp add: ack_pair_def)
  then have ino: "tt_ino ?t = ino" by (simp add: counted_def)
  have "handle_upload_block_response (RpcStatus True m) r c = Done ?d"
    using c(1,3) r(1,2) counted_complete [OF bs cnt] ino
    by (auto simp: handle_upload_block_response_def um_index_def Status_ok_def client_basics Let_def)
  moreover have "tt_remote_path ?t = tt_remote_path t" by (simp add: ack_task_def Let_def split: prod.splits)
  ultimately show thesis using cnt c(3) by (intro that [of ?d ?t]) (simp_all add: client_basics)
qed

lemma upload_acks:
  assumes bs: "placed_blocks ino bs" and rs: "distinct (map ack_pair rs)" "ack_pair ` set rs \<subseteq> expected bs - A"
      "\<forall>r \<in> set rs. ubr_ino r = ino \<and> ubr_status_code r = kOk"
    and c: "um_find (vc_upload_tasks c) ino = Some t" "counted ino bs A t" "\<not> vc_locked c"
  shows "\<exists>c' t'. run (handle_upload_block_response (RpcStatus True m)) rs c = Done c' \<and>
    um_find (vc_upload_tasks c') ino = Some t' \<and> counted ino bs (ack_pair ` set rs \<union> A) t' \<and>
    tt_remote_path t' = tt_remote_path t \<and> vc_raft_clients c' = vc_raft_clients c \<and> vc_leader_id c' = vc_leader_id c \<and>
    vc_tasks c' = vc_tasks c @ (if rs \<noteq> [] \<and> expected bs \<subseteq> ack_pair ` set rs \<union> A then [SendUploadFile ino] else [])"
  using rs c
proof (induction rs arbitrary: c t A)
  case Nil
  then show ?case by auto
next
  case (Cons r rs)
  have r: "ubr_ino r = ino" "ubr_status_code r = kOk" "ack_pair r \<in> expected bs - A" using Cons.prems(2,3) by auto
  obtain c1 t1 where 1: "handle_upload_block_response (RpcStatus True m) r c = Done c1"
    "um_find (vc_upload_tasks c1) ino = Some t1" "counted ino bs (insert (ack_pair r) A) t1" "\<not> vc_locked c1"
    "tt_remote_path t1 = tt_remote_path t" "vc_raft_clients c1 = vc_raft_clients c" "vc_leader_id c1 = vc_leader_id c"
    "vc_tasks c1 = vc_tasks c @ (if expected bs \<subseteq> insert (ack_pair r) A then [SendUploadFile ino] else [])"
    by (rule upload_ack [OF bs Cons.prems(4,5,6) r, of m])
  have p: "ack_pair ` set rs \<subseteq> expected bs - insert (ack_pair r) A" using Cons.prems(1,2) by auto
  have "rs = []" if "expected bs \<subseteq> insert (ack_pair r) A" using p that by (cases rs) auto
  then have q: "(expected bs \<subseteq> insert (ack_pair r) A) = (rs = [] \<and> expected bs \<subseteq> ack_pair ` set (r # rs) \<union> A)"
    by auto
  obtain c' t' where 2: "run (handle_upload_block_response (RpcStatus True m)) rs c1 = Done c'"
    "um_find (vc_upload_tasks c') ino = Some t'" "counted ino bs (ack_pair ` set rs \<union> insert (ack_pair r) A) t'"
    "tt_remote_path t' = tt_remote_path t1" "vc_raft_clients c' = vc_raft_clients c1" "vc_leader_id c' = vc_leader_id c1"
    "vc_tasks c' = vc_tasks c1 @ (if rs \<noteq> [] \<and> expected bs \<subseteq> ack_pair ` set rs \<union> insert (ack_pair r) A then [SendUploadFile ino] else [])"
    using Cons.IH [OF _ p _ 1(2,3,4)] Cons.prems(1,3) by auto
  have e: "ack_pair ` set (r # rs) \<union> A = ack_pair ` set rs \<union> insert (ack_pair r) A" by auto
  have "vc_tasks c' = vc_tasks c @ (if expected bs \<subseteq> ack_pair ` set rs \<union> insert (ack_pair r) A then [SendUploadFile ino] else [])"
  proof (cases "rs = []")
    case True
    with 1(8) 2(7) show ?thesis by simp
  next
    case False
    with q have "\<not> expected bs \<subseteq> insert (ack_pair r) A" by blast
    with False 1(8) 2(7) show ?thesis by simp
  qed
  with 2(1-6) 1(1,5,6,7) show ?case unfolding e by (intro exI [of _ c'] exI [of _ t']) simp
qed

section \<open>An upload from the answer to \<open>prepare_upload_file\<close> to the registration\<close>

definition block_sends :: "string \<Rightarrow> u64 \<Rightarrow> BlockInfo list \<Rightarrow> client_task list" where
  "block_sends local_path ino bs =
     concat (map (\<lambda>b. map (SendUploadBlock local_path (bi_id b) ino (bi_offset b) (bi_size b)) (bi_data_node_id b)) bs)"

lemma prepare_upload_starts:
  assumes "client_wf c" and "um_find (vc_upload_tasks c) ino = None" and "pur_status_code p = kOk"
    and "placed_blocks ino (pur_blocks p)"
  obtains c1 t where "handle_prepare_upload_file_response (RpcStatus True m) p c = Done c1"
    and "vc_tasks c1 = vc_tasks c @ block_sends (pur_local_path p) ino (pur_blocks p)"
    and "um_find (vc_upload_tasks c1) ino = Some t" and "counted ino (pur_blocks p) {} t" and "\<not> vc_locked c1"
    and "tt_remote_path t = pur_remote_path p" and "vc_raft_clients c1 = vc_raft_clients c" and "vc_leader_id c1 = vc_leader_id c"
proof -
  let ?bs = "pur_blocks p"
  obtain t where t: "make_task ?bs (pur_local_path p) (pur_remote_path p) = Done t" "counted ino ?bs {} t"
    "tt_local_path t = pur_local_path p" "tt_remote_path t = pur_remote_path p"
    "tt_blocks t = map (\<lambda>b. (bi_id b, make_block b)) ?bs" "tt_done_blocks t < tt_total_blocks t"
    by (rule make_task_counted [OF assms(4)])
  have "upload_block_tasks l (make_block b) = map (SendUploadBlock l (bi_id b) ino (bi_offset b) (bi_size b)) (bi_data_node_id b)"
    if "b \<in> set ?bs" for b l
  proof -
    have b: "bi_ino b = ino" "bi_data_node_id b \<noteq> []" "distinct (bi_data_node_id b)" "length (bi_data_node_id b) < 2 ^ 31"
      using assms(4) that by (auto simp: placed_blocks_def)
    then have "tb_remaing_times (make_block b) \<noteq> 0"
      using unat_of_nat_small [of "length (bi_data_node_id b)"] by (auto simp: make_block_def)
    then show ?thesis using make_block_flags [OF b(3)] b(1)
      by (simp add: upload_block_tasks_def filter_map comp_def) (simp add: make_block_def)
  qed
  then have q: "upload_queue t = block_sends (pur_local_path p) ino ?bs"
    using t(6) by (simp add: upload_queue_def t block_sends_def um_values_def comp_def not_le [symmetric] cong: map_cong)
  let ?c = "emit (AppendLog (pur_message p)) (c\<lparr>vc_tasks := vc_tasks c @ block_sends (pur_local_path p) ino ?bs,
    vc_upload_tasks := um_emplace ino t (vc_upload_tasks c)\<rparr>)"
  have "tt_ino t = ino" using t(2) by (simp add: counted_def)
  then have "handle_prepare_upload_file_response (RpcStatus True m) p c = Done ?c"
    using assms(1,3) t(1) q
    by (simp add: handle_prepare_upload_file_response_def Let_def Status_ok_def Status_is_not_leader_def
        client_wf_def client_basics do_upload_task_eq status_code_defs)
  with t assms(1,2) show thesis by (intro that [of ?c t]) (simp_all add: client_basics client_wf_def)
qed

lemma expected_nonempty:
  assumes "placed_blocks ino bs"
  shows "expected bs \<noteq> {}"
proof -
  have "hd bs \<in> set bs" "hd (bi_data_node_id (hd bs)) \<in> set (bi_data_node_id (hd bs))"
    using assms by (auto simp: placed_blocks_def)
  then show ?thesis unfolding expected_def by blast
qed

lemma prefix_complete:
  assumes "distinct (map f rs)" and "f ` set rs = S"
  shows "S \<subseteq> f ` set (take k rs) \<longleftrightarrow> \<not> k < length rs"
proof (cases "k < length rs")
  case True
  then have "f (rs ! k) \<notin> f ` set (take k rs)" using assms(1) by (auto simp: distinct_conv_nth set_conv_nth)
  moreover have "f (rs ! k) \<in> S" using True assms(2) by (auto intro: nth_mem)
  ultimately show ?thesis using True by blast
qed (use assms(2) in simp)

text \<open>
  C6. When the cluster has placed the blocks of a file, the client queues one upload for every
  block and every data node that is to hold it. However the answers of the data nodes are
  ordered, nothing more is queued until the last of them has arrived; then the registration of
  the file is queued, once, and it names the path and exactly the blocks that were placed.
\<close>

theorem upload_completes:
  assumes "client_wf c" and "um_find (vc_upload_tasks c) ino = None" and "um_contains (vc_raft_clients c) (vc_leader_id c)"
    and "pur_status_code p = kOk" and "placed_blocks ino (pur_blocks p)"
    and "\<forall>r \<in> set rs. ubr_ino r = ino \<and> ubr_status_code r = kOk"
    and "distinct (map ack_pair rs)" and "ack_pair ` set rs = expected (pur_blocks p)"
  shows "\<exists>c1. handle_prepare_upload_file_response (RpcStatus True m) p c = Done c1 \<and>
    vc_tasks c1 = vc_tasks c @ block_sends (pur_local_path p) ino (pur_blocks p) \<and>
    (\<forall>k. \<exists>c2. run (handle_upload_block_response (RpcStatus True m)) (take k rs) c1 = Done c2 \<and>
       vc_tasks c2 = vc_tasks c1 @ (if k < length rs then [] else [SendUploadFile ino])) \<and>
    (\<exists>c2 q. run (handle_upload_block_response (RpcStatus True m)) rs c1 = Done c2 \<and>
       vc_sent (send_upload_file_request ino c2) = vc_sent c2 @ [CallUploadFile (vc_leader_id c) q] \<and>
       ufq_ino q = ino \<and> ufq_path q = pur_remote_path p \<and> mset (ufq_blocks q) = mset (pur_blocks p))"
proof -
  let ?bs = "pur_blocks p"
  obtain c1 t where 1: "handle_prepare_upload_file_response (RpcStatus True m) p c = Done c1"
    "vc_tasks c1 = vc_tasks c @ block_sends (pur_local_path p) ino ?bs"
    "um_find (vc_upload_tasks c1) ino = Some t" "counted ino ?bs {} t" "\<not> vc_locked c1"
    "tt_remote_path t = pur_remote_path p" "vc_raft_clients c1 = vc_raft_clients c" "vc_leader_id c1 = vc_leader_id c"
    by (rule prepare_upload_starts [OF assms(1,2,4,5)])
  have acks: "\<exists>c2 t2. run (handle_upload_block_response (RpcStatus True m)) (take k rs) c1 = Done c2 \<and>
      um_find (vc_upload_tasks c2) ino = Some t2 \<and> counted ino ?bs (ack_pair ` set (take k rs)) t2 \<and>
      tt_remote_path t2 = pur_remote_path p \<and> vc_raft_clients c2 = vc_raft_clients c \<and> vc_leader_id c2 = vc_leader_id c \<and>
      vc_tasks c2 = vc_tasks c1 @ (if expected ?bs \<subseteq> ack_pair ` set (take k rs) then [SendUploadFile ino] else [])" for k
  proof -
    have "distinct (map ack_pair (take k rs))" using assms(7) by (simp add: take_map [symmetric])
    moreover have "ack_pair ` set (take k rs) \<subseteq> expected ?bs - {}" using assms(8) by (auto dest: in_set_takeD)
    moreover have "\<forall>r \<in> set (take k rs). ubr_ino r = ino \<and> ubr_status_code r = kOk" using assms(6) by (auto dest: in_set_takeD)
    ultimately show ?thesis
      using upload_acks [OF assms(5) _ _ _ 1(3,4,5), of "take k rs" m] 1(6,7,8) expected_nonempty [OF assms(5)]
      by (cases "take k rs = []") auto
  qed
  note all = prefix_complete [OF assms(7,8)]
  from acks [of "length rs"] obtain c2 t2 where 2: "run (handle_upload_block_response (RpcStatus True m)) rs c1 = Done c2"
    "um_find (vc_upload_tasks c2) ino = Some t2" "counted ino ?bs (ack_pair ` set rs) t2" "tt_remote_path t2 = pur_remote_path p"
    "vc_raft_clients c2 = vc_raft_clients c" "vc_leader_id c2 = vc_leader_id c" by auto
  have "\<exists>q. vc_sent (send_upload_file_request ino c2) = vc_sent c2 @ [CallUploadFile (vc_leader_id c) q] \<and>
      ufq_ino q = ino \<and> ufq_path q = pur_remote_path p \<and> mset (ufq_blocks q) = mset ?bs"
    using 2 assms(3) counted_infos [OF assms(5) 2(3)]
    by (auto simp: send_upload_file_request_def call_leader_def um_contains_def client_basics)
  moreover have "\<exists>c2. run (handle_upload_block_response (RpcStatus True m)) (take k rs) c1 = Done c2 \<and>
      vc_tasks c2 = vc_tasks c1 @ (if k < length rs then [] else [SendUploadFile ino])" for k
    using acks [of k] by (auto simp: all)
  ultimately show ?thesis using 1(1,2) 2(1) by blast
qed

definition ex_client :: "'fs \<Rightarrow> 'fs VosfsClient" where
  "ex_client fs = VosfsClient_new (''h'', 1) [(1, (''h'', 2))] [(7, (''h'', 3)), (8, (''h'', 4))] fs"

definition ex_placed :: PrepareUploadFileResponse where
  "ex_placed = \<lparr>pur_status_code = kOk, pur_message = [], pur_local_path = ''./f'', pur_remote_path = ''/f'',
     pur_blocks = [\<lparr>bi_id = 0, bi_ino = 2, bi_offset = 0, bi_size = 5, bi_data_node_id = [7, 8]\<rparr>]\<rparr>"

definition ex_upload_ack :: "u64 \<Rightarrow> UploadBlockResponse" where
  "ex_upload_ack n = \<lparr>ubr_status_code = kOk, ubr_message = [], ubr_block_id = 0, ubr_ino = 2, ubr_data_node_id = n\<rparr>"

lemmas ex_upload_defs = ex_client_def ex_placed_def ex_upload_ack_def VosfsClient_new_def

theorem upload_completes_witness:
  "\<exists>c1 c2. handle_prepare_upload_file_response (RpcStatus True []) ex_placed (ex_client ()) = Done c1 \<and>
     run (handle_upload_block_response (RpcStatus True [])) (take 2 [ex_upload_ack 8, ex_upload_ack 7]) c1 = Done c2 \<and>
     vc_tasks c2 = vc_tasks c1 @ [SendUploadFile 2]"
proof -
  have h: "client_wf (ex_client ())" "um_find (vc_upload_tasks (ex_client ())) 2 = None"
    "um_contains (vc_raft_clients (ex_client ())) (vc_leader_id (ex_client ()))" "pur_status_code ex_placed = kOk"
    "placed_blocks 2 (pur_blocks ex_placed)" "\<forall>r \<in> set [ex_upload_ack 8, ex_upload_ack 7]. ubr_ino r = 2 \<and> ubr_status_code r = kOk"
    "distinct (map ack_pair [ex_upload_ack 8, ex_upload_ack 7])" "ack_pair ` set [ex_upload_ack 8, ex_upload_ack 7] = expected (pur_blocks ex_placed)"
    by (auto simp: ex_upload_defs client_wf_def um_contains_def um_find_def placed_blocks_def ack_pair_def expected_def)
  from upload_completes [OF h, of "[]"] obtain c1 where
    1: "handle_prepare_upload_file_response (RpcStatus True []) ex_placed (ex_client ()) = Done c1" and
    2: "\<forall>k. \<exists>c2. run (handle_upload_block_response (RpcStatus True [])) (take k [ex_upload_ack 8, ex_upload_ack 7]) c1 = Done c2 \<and>
      vc_tasks c2 = vc_tasks c1 @ (if k < length [ex_upload_ack 8, ex_upload_ack 7] then [] else [SendUploadFile 2])"
    by (elim exE conjE)
  from 2 [rule_format, of 2] 1 show ?thesis by auto
qed

section \<open>An answer that is counted twice\<close>

lemma ack_task_known:
  assumes "um_find (tt_blocks t) i = Some b"
  shows "ack_task i n t = t\<lparr>tt_blocks := um_assign i (ack_block n b) (tt_blocks t),
    tt_done_blocks := (if tb_remaing_times (ack_block n b) = 0 then tt_done_blocks t + 1 else tt_done_blocks t)\<rparr>"
  using assms by (simp add: ack_task_def um_index_def Let_def)

lemma upload_response_known:
  assumes "\<not> vc_locked c" and "um_find (vc_upload_tasks c) (ubr_ino r) = Some t" and "ubr_status_code r = kOk"
  shows "handle_upload_block_response (RpcStatus True m) r c =
    (let t' = ack_task (ubr_block_id r) (ubr_data_node_id r) t;
         c' = c\<lparr>vc_upload_tasks := um_assign (ubr_ino r) t' (vc_upload_tasks c)\<rparr>
     in Done (emit (AppendLog (ubr_message r))
          (if tt_total_blocks t' \<le> tt_done_blocks t' then tasks_emplace (SendUploadFile (tt_ino t')) c' else c')))"
  using assms by (simp add: handle_upload_block_response_def um_index_def Status_ok_def client_basics Let_def)

text \<open>
  The client counts answers and not data nodes: when the last block of an upload waits
  for two data nodes and the answer of one of them arrives twice, the registration of the file is
  queued although the other data node has not answered and is still marked as not done.
\<close>

theorem repeated_ack_completes:
  assumes "client_wf c" and "um_find (vc_upload_tasks c) (ubr_ino r) = Some t" and "tt_ino t = ubr_ino r"
    and "tt_done_blocks t < tt_total_blocks t" and "tt_total_blocks t = tt_done_blocks t + 1"
    and "um_find (tt_blocks t) (ubr_block_id r) = Some b" and "tb_remaing_times b = 2"
    and "um_find (tb_data_node_ids b) n' = Some False" and "n' \<noteq> ubr_data_node_id r" and "ubr_status_code r = kOk"
  shows "\<exists>c' t' b'. run (handle_upload_block_response (RpcStatus True m)) [r, r] c = Done c' \<and>
    vc_tasks c' = vc_tasks c @ [SendUploadFile (ubr_ino r)] \<and> um_find (vc_upload_tasks c') (ubr_ino r) = Some t' \<and>
    um_find (tt_blocks t') (ubr_block_id r) = Some b' \<and> um_find (tb_data_node_ids b') n' = Some False"
proof -
  let ?n = "ubr_data_node_id r" and ?i = "ubr_block_id r"
  let ?t1 = "ack_task ?i ?n t" and ?c1 = "\<lambda>t. c\<lparr>vc_upload_tasks := um_assign (ubr_ino r) t (vc_upload_tasks c)\<rparr>"
  have b1: "tb_remaing_times (ack_block ?n b) = 1" and b2: "tb_remaing_times (ack_block ?n (ack_block ?n b)) = 0"
    using assms(7) by (simp_all add: ack_block_def)
  have t1: "um_find (tt_blocks ?t1) ?i = Some (ack_block ?n b)" "tt_done_blocks ?t1 = tt_done_blocks t"
    "tt_total_blocks ?t1 = tt_total_blocks t" "tt_ino ?t1 = ubr_ino r"
    using assms(3) b1 by (simp_all add: ack_task_known [OF assms(6)])
  have t2: "tt_done_blocks (ack_task ?i ?n ?t1) = tt_total_blocks (ack_task ?i ?n ?t1)" "tt_ino (ack_task ?i ?n ?t1) = ubr_ino r"
    "um_find (tt_blocks (ack_task ?i ?n ?t1)) ?i = Some (ack_block ?n (ack_block ?n b))"
    using assms(5) t1 b2 by (simp_all add: ack_task_known [OF t1(1)])
  have "\<not> vc_locked c" using assms(1) by (simp add: client_wf_def)
  then have 1: "handle_upload_block_response (RpcStatus True m) r c = Done (emit (AppendLog (ubr_message r)) (?c1 ?t1))"
    using upload_response_known [OF _ assms(2,10)] t1 assms(4) by (simp add: Let_def)
  obtain c' where c': "handle_upload_block_response (RpcStatus True m) r (emit (AppendLog (ubr_message r)) (?c1 ?t1)) = Done c'"
    "vc_tasks c' = vc_tasks c @ [SendUploadFile (ubr_ino r)]" "um_find (vc_upload_tasks c') (ubr_ino r) = Some (ack_task ?i ?n ?t1)"
    using upload_response_known [of "emit (AppendLog (ubr_message r)) (?c1 ?t1)" r ?t1] \<open>\<not> vc_locked c\<close> assms(10) t2
    by (simp add: Let_def client_basics)
  moreover have "um_find (tb_data_node_ids (ack_block ?n (ack_block ?n b))) n' = Some False"
    using assms(8,9) by (simp add: ack_block_def)
  ultimately show ?thesis using 1 t2(3) by (intro exI [of _ c'] exI) simp
qed

theorem repeated_ack_completes_witness:
  "\<exists>c1 c2. handle_prepare_upload_file_response (RpcStatus True []) ex_placed (ex_client ()) = Done c1 \<and>
     run (handle_upload_block_response (RpcStatus True [])) [ex_upload_ack 7, ex_upload_ack 7] c1 = Done c2 \<and>
     vc_tasks c2 = vc_tasks c1 @ [SendUploadFile 2]"
proof -
  let ?b = "\<lparr>tb_remaing_times = 2, tb_id = 0, tb_ino = 2, tb_offset = 0, tb_size = 5,
    tb_data_node_ids = [(7, False), (8, False)]\<rparr>"
  let ?t = "\<lparr>tt_ino = 2, tt_total_blocks = 1, tt_done_blocks = 0, tt_local_path = ''./f'', tt_remote_path = ''/f'',
    tt_blocks = [(0, ?b)]\<rparr>"
  obtain c1 where 1: "handle_prepare_upload_file_response (RpcStatus True []) ex_placed (ex_client ()) = Done c1"
    "vc_upload_tasks c1 = [(2, ?t)]"
    by (simp add: handle_prepare_upload_file_response_def ex_upload_defs make_task_def make_block_def um_emplace_def um_contains_def
        um_find_def do_upload_task_eq client_basics Let_def Status_ok_def Status_is_not_leader_def status_code_defs)
  have wf: "client_wf c1" using prepare_upload_wf [OF _ 1(1)] by (simp add: ex_client_def VosfsClient_new_wf)
  have "\<exists>c' t' b'. run (handle_upload_block_response (RpcStatus True [])) [ex_upload_ack 7, ex_upload_ack 7] c1 = Done c' \<and>
      vc_tasks c' = vc_tasks c1 @ [SendUploadFile (ubr_ino (ex_upload_ack 7))] \<and> um_find (vc_upload_tasks c') (ubr_ino (ex_upload_ack 7)) = Some t' \<and>
      um_find (tt_blocks t') (ubr_block_id (ex_upload_ack 7)) = Some b' \<and> um_find (tb_data_node_ids b') 8 = Some False"
    by (rule repeated_ack_completes [OF wf, where t = ?t and b = ?b]) (simp_all add: 1(2) ex_upload_ack_def um_find_def)
  with 1(1) show ?thesis by (auto simp: ex_upload_ack_def)
qed

end
