(* ===== verification/Client_Download.thy ===== *)
theory Client_Download
  imports Client_Upload
begin

text \<open>
  Downloads of the client: blocks that arrive in any order are written at their offsets into the
  local file.
\<close>

section \<open>What the code relies on in the file API\<close>

text \<open>
  \<open>view\<close> is the content of the disk by path. Opening for writing creates a missing file and keeps
  the content of another; \<open>write_all\<close> puts the bytes at the position, with zero bytes in a gap
  before it; \<open>read\<close> returns bytes of the file from the position on, at most as many as asked for.
\<close>

definition overlay :: "string \<Rightarrow> nat \<Rightarrow> string \<Rightarrow> string" where
  "overlay f off data = take off (f @ replicate (off - length f) (char_of (0 :: nat))) @ data @ drop (off + length data) f"

definition content :: "('fs \<Rightarrow> string \<rightharpoonup> string) \<Rightarrow> 'fs \<Rightarrow> string \<Rightarrow> string" where
  "content view fs path = (case view fs path of None \<Rightarrow> [] | Some f \<Rightarrow> f)"

definition file_spec :: "('fs, 'j, 'tok) client_env \<Rightarrow> ('fs \<Rightarrow> string \<rightharpoonup> string) \<Rightarrow> bool" where
  "file_spec E view \<longleftrightarrow>
     (\<forall>fs p fs'. ce_open_write E fs p = (None, fs') \<longrightarrow> view fs' = (view fs)(p \<mapsto> content view fs p)) \<and>
     (\<forall>fs p off data fs' f. ce_write_all E fs p off data = (None, fs') \<longrightarrow> view fs p = Some f \<longrightarrow>
        view fs' = (view fs)(p \<mapsto> overlay f (unat off) data)) \<and>
     (\<forall>fs p off n data. ce_read E fs p off n = Inr data \<longrightarrow>
        (\<exists>f k. view fs p = Some f \<and> k \<le> unat n \<and> data = take k (drop (unat off) f)))"

text \<open>No call of the file API fails on this path.\<close>

definition writable :: "('fs, 'j, 'tok) client_env \<Rightarrow> string \<Rightarrow> bool" where
  "writable E path \<longleftrightarrow> (\<forall>fs off data. fst (ce_open_write E fs path) = None \<and> ce_seek E fs path off \<and>
     fst (ce_write_all E fs path off data) = None)"

lemma store_block_view:
  assumes "file_spec E view" and "writable E path"
  obtains fs' where "store_block E path off data fs = (None, fs')"
    and "view fs' = (view fs)(path \<mapsto> overlay (content view fs path) (unat off) data)"
proof -
  obtain fs1 where 1: "ce_open_write E fs path = (None, fs1)" using assms(2) by (metis prod.collapse writable_def)
  obtain fs2 where 2: "ce_write_all E fs1 path off data = (None, fs2)" using assms(2) by (metis prod.collapse writable_def)
  have v1: "view fs1 = (view fs)(path \<mapsto> content view fs path)" using assms(1) 1 by (simp add: file_spec_def)
  then have "view fs1 path = Some (content view fs path)" by simp
  then have "view fs2 = (view fs1)(path \<mapsto> overlay (content view fs path) (unat off) data)"
    using assms(1) 2 unfolding file_spec_def by blast
  with v1 1 2 assms(2) show thesis by (intro that [of fs2]) (simp_all add: store_block_def writable_def)
qed

section \<open>Writing the pieces of a file in any order\<close>

text \<open>The file agrees with \<open>g\<close> at the positions in \<open>C\<close> and is not longer.\<close>

definition agrees :: "string \<Rightarrow> nat set \<Rightarrow> string \<Rightarrow> bool" where
  "agrees g C f \<longleftrightarrow> length f \<le> length g \<and> (\<forall>k \<in> C. k < length f \<and> f ! k = g ! k)"

lemma length_overlay: "length (overlay f off data) = max (off + length data) (length f)"
  by (auto simp: overlay_def)

lemma nth_overlay:
  assumes "k < max (off + length data) (length f)"
  shows "overlay f off data ! k =
    (if off \<le> k \<and> k < off + length data then data ! (k - off) else if k < length f then f ! k else char_of (0 :: nat))"
  using assms by (auto simp: overlay_def nth_append min_def)

lemma agrees_overlay:
  assumes "agrees g C f" and "off + n \<le> length g"
  shows "agrees g (C \<union> {off..<off + n}) (overlay f off (take n (drop off g)))"
proof -
  let ?d = "take n (drop off g)"
  have d: "length ?d = n" using assms(2) by simp
  have f: "k < length f \<and> f ! k = g ! k" if "k \<in> C" for k using assms(1) that by (simp add: agrees_def)
  have "overlay f off ?d ! k = g ! k" if "k \<in> C \<union> {off..<off + n}" for k
    using that f [of k] assms(2) nth_overlay [of k off ?d f] unfolding d by auto
  moreover have "k < max (off + n) (length f)" if "k \<in> C \<union> {off..<off + n}" for k using that f [of k] by auto
  moreover have "max (off + n) (length f) \<le> length g" using assms by (simp add: agrees_def)
  ultimately show ?thesis unfolding agrees_def length_overlay d by blast
qed

lemma agrees_all: "agrees g {..<length g} f \<Longrightarrow> f = g"
proof (rule nth_equalityI)
  assume a: "agrees g {..<length g} f"
  have "k < length f" if "k < length g" for k using a that by (simp add: agrees_def)
  with a show "length f = length g" by (metis agrees_def le_antisym linorder_not_less less_irrefl)
  with a show "\<And>k. k < length f \<Longrightarrow> f ! k = g ! k" by (simp add: agrees_def)
qed

definition block_range :: "BlockInfo \<Rightarrow> nat set" where
  "block_range b = {unat (bi_offset b)..<unat (bi_offset b) + unat (bi_size b)}"

section \<open>Counting the blocks\<close>

text \<open>The task when the blocks with the ids in \<open>D\<close> have arrived.\<close>

definition fetched :: "u64 \<Rightarrow> BlockInfo list \<Rightarrow> string \<Rightarrow> u64 set \<Rightarrow> TransportTask \<Rightarrow> bool" where
  "fetched ino bs path D t \<longleftrightarrow> tt_ino t = ino \<and> tt_local_path t = path \<and> unat (tt_total_blocks t) = length bs \<and>
     unat (tt_done_blocks t) = card D \<and>
     (\<forall>b \<in> set bs. \<exists>tb. um_find (tt_blocks t) (bi_id b) = Some tb \<and> tb_offset tb = bi_offset b)"

text \<open>The state of a download: the disk holds the bytes of the blocks that have arrived.\<close>

definition downloading ::
    "('fs \<Rightarrow> string \<rightharpoonup> string) \<Rightarrow> (string \<rightharpoonup> string) \<Rightarrow> string \<Rightarrow> string \<Rightarrow> BlockInfo list \<Rightarrow> u64 set \<Rightarrow> 'fs \<Rightarrow> bool" where
  "downloading view disk0 path g bs D fs \<longleftrightarrow> (\<exists>f. view fs = disk0(path := f) \<and> (D \<noteq> {} \<longrightarrow> f \<noteq> None)) \<and>
     agrees g (\<Union>b \<in> {b \<in> set bs. bi_id b \<in> D}. block_range b) (content view fs path)"

lemma downloading_store:
  assumes spec: "file_spec E view" "writable E path" and d: "downloading view disk0 path g bs D fs"
    and b: "b \<in> set bs" "distinct (map bi_id bs)" "unat (bi_offset b) + unat (bi_size b) \<le> length g"
  obtains fs' where "store_block E path (bi_offset b) (file_slice g (bi_offset b) (bi_size b)) fs = (None, fs')"
    and "downloading view disk0 path g bs (insert (bi_id b) D) fs'"
proof -
  let ?C = "\<lambda>D. \<Union>b \<in> {b \<in> set bs. bi_id b \<in> D}. block_range b"
  obtain fs' where s: "store_block E path (bi_offset b) (file_slice g (bi_offset b) (bi_size b)) fs = (None, fs')"
    and v: "view fs' = (view fs)(path \<mapsto> overlay (content view fs path) (unat (bi_offset b)) (file_slice g (bi_offset b) (bi_size b)))"
    by (rule store_block_view [OF spec])
  have "{b' \<in> set bs. bi_id b' \<in> insert (bi_id b) D} = insert b {b' \<in> set bs. bi_id b' \<in> D}"
    using b(1,2) by (auto simp: distinct_map inj_on_eq_iff)
  then have "?C (insert (bi_id b) D) = ?C D \<union> block_range b" by auto
  moreover have "agrees g (?C D \<union> block_range b) (content view fs' path)"
    using d agrees_overlay [OF _ b(3)] v by (simp add: downloading_def content_def file_slice_def block_range_def)
  ultimately show thesis using s v d by (intro that [of fs']) (auto simp: downloading_def)
qed

lemma download_ack:
  assumes spec: "file_spec E view" "writable E path"
    and bs: "b \<in> set bs" "distinct (map bi_id bs)" "unat (bi_offset b) + unat (bi_size b) \<le> length g" "length bs < 2 ^ 31"
    and c: "\<not> vc_locked c" "um_find (vc_download_tasks c) ino = Some t" "fetched ino bs path D t"
      "D \<subseteq> bi_id ` set bs" "bi_id b \<notin> D" "downloading view disk0 path g bs D (vc_disk c)"
    and r: "dbr_ino r = ino" "dbr_block_id r = bi_id b" "dbr_status_code r = kOk"
      "dbr_data r = file_slice g (bi_offset b) (bi_size b)"
  obtains c' where "handle_download_block_response E (RpcStatus True m) r c = Done c'" and "\<not> vc_locked c'"
    and "downloading view disk0 path g bs (insert (bi_id b) D) (vc_disk c')"
    and "if card (insert (bi_id b) D) = length bs then um_find (vc_download_tasks c') ino = None
         else \<exists>t'. um_find (vc_download_tasks c') ino = Some t' \<and> fetched ino bs path (insert (bi_id b) D) t'"
proof -
  obtain tb where tb: "um_find (tt_blocks t) (bi_id b) = Some tb" "tb_offset tb = bi_offset b"
    using c(3) bs(1) unfolding fetched_def by blast
  obtain fs' where s: "store_block E path (bi_offset b) (dbr_data r) (vc_disk c) = (None, fs')"
    and d: "downloading view disk0 path g bs (insert (bi_id b) D) fs'"
    using downloading_store [OF spec c(6) bs(1,2,3)] r(4) by metis
  let ?t = "t\<lparr>tt_blocks := um_assign (bi_id b) (tb\<lparr>tb_remaing_times := 0\<rparr>) (tt_blocks t), tt_done_blocks := tt_done_blocks t + 1\<rparr>"
  have fin: "finite D" using c(4) finite_subset by blast
  have le: "card (insert (bi_id b) D) \<le> length bs"
    using card_mono [of "bi_id ` set bs" "insert (bi_id b) D"] c(4) bs(1) distinct_card [OF bs(2)] by simp
  then have "unat (tt_done_blocks t) < 2 ^ 31" using c(3,5) fin bs(4) by (simp add: fetched_def)
  then have "unat (tt_done_blocks t + 1) = Suc (unat (tt_done_blocks t))"
    by (intro unat_succ) (auto simp: unsigned_minus_1_eq_mask mask_eq_exp_minus_1)
  then have ft: "fetched ino bs path (insert (bi_id b) D) ?t"
    using c(3,5) fin tb(2) bs(1,2) by (auto simp: fetched_def distinct_map inj_on_eq_iff)
  have q: "tt_total_blocks t \<le> tt_done_blocks t + 1 \<longleftrightarrow> card (insert (bi_id b) D) = length bs"
    using ft le by (auto simp: fetched_def word_le_nat_alt)
  let ?m = "um_assign ino ?t (um_assign ino t (vc_download_tasks c))"
  let ?c' = "emit (AppendLog (dbr_message r)) (c\<lparr>vc_disk := fs',
    vc_download_tasks := (if card (insert (bi_id b) D) = length bs then um_erase ino ?m else ?m)\<rparr>)"
  have "tt_local_path t = path" "tt_ino t = ino" using c(3) by (simp_all add: fetched_def)
  then have "handle_download_block_response E (RpcStatus True m) r c = Done ?c'"
    using c(1,2) tb s r q by (simp add: handle_download_block_response_def um_index_def Status_ok_def client_basics Let_def)
  then show thesis using c(1) d ft by (rule_tac that [of ?c']) (simp_all add: client_basics)
qed

lemma download_acks:
  assumes spec: "file_spec E view" "writable E path"
    and bs: "distinct (map bi_id bs)" "\<forall>b \<in> set bs. unat (bi_offset b) + unat (bi_size b) \<le> length g" "length bs < 2 ^ 31"
    and rs: "distinct (map dbr_block_id rs)" "dbr_block_id ` set rs \<subseteq> bi_id ` set bs - D"
      "\<forall>r \<in> set rs. dbr_ino r = ino \<and> dbr_status_code r = kOk \<and>
         (\<forall>b \<in> set bs. bi_id b = dbr_block_id r \<longrightarrow> dbr_data r = file_slice g (bi_offset b) (bi_size b))"
    and c: "\<not> vc_locked c" "um_find (vc_download_tasks c) ino = Some t" "fetched ino bs path D t" "D \<subseteq> bi_id ` set bs"
      "downloading view disk0 path g bs D (vc_disk c)"
  shows "\<exists>c'. run (handle_download_block_response E (RpcStatus True m)) rs c = Done c' \<and>
    downloading view disk0 path g bs (dbr_block_id ` set rs \<union> D) (vc_disk c') \<and>
    (um_find (vc_download_tasks c') ino = None \<longleftrightarrow> rs \<noteq> [] \<and> dbr_block_id ` set rs \<union> D = bi_id ` set bs)"
  using rs c
proof (induction rs arbitrary: c t D)
  case Nil
  then show ?case by auto
next
  case (Cons r rs)
  let ?D = "insert (dbr_block_id r) D"
  obtain b where b: "b \<in> set bs" "dbr_block_id r = bi_id b" "bi_id b \<notin> D" using Cons.prems(2) by auto
  have r: "dbr_ino r = ino" "dbr_status_code r = kOk" "dbr_data r = file_slice g (bi_offset b) (bi_size b)"
    using Cons.prems(3) b by auto
  obtain c1 where 1: "handle_download_block_response E (RpcStatus True m) r c = Done c1" "\<not> vc_locked c1"
    "downloading view disk0 path g bs ?D (vc_disk c1)"
    "if card ?D = length bs then um_find (vc_download_tasks c1) ino = None
     else \<exists>t'. um_find (vc_download_tasks c1) ino = Some t' \<and> fetched ino bs path ?D t'"
    using download_ack [OF spec b(1) bs(1) _ bs(3) Cons.prems(4,5,6,7) b(3) Cons.prems(8) r(1) b(2) r(2,3), of m] bs(2) b(1,2)
    by metis
  have sub: "?D \<subseteq> bi_id ` set bs" using Cons.prems(2,7) by auto
  have full: "card ?D = length bs \<longleftrightarrow> ?D = bi_id ` set bs"
    using sub card_subset_eq [of "bi_id ` set bs" ?D] distinct_card [OF bs(1)] by auto
  have "dbr_block_id r \<notin> dbr_block_id ` set rs" using Cons.prems(1) by simp
  moreover have "dbr_block_id ` set rs \<subseteq> bi_id ` set bs - D" using Cons.prems(2) by simp
  ultimately have p: "dbr_block_id ` set rs \<subseteq> bi_id ` set bs - ?D" by blast
  have e: "dbr_block_id ` set (r # rs) \<union> D = dbr_block_id ` set rs \<union> ?D" by auto
  show ?case
  proof (cases "?D = bi_id ` set bs")
    case True
    with p have "rs = []" by auto
    with 1 full True show ?thesis by (auto simp: e)
  next
    case False
    with 1(4) full obtain t' where t': "um_find (vc_download_tasks c1) ino = Some t'" "fetched ino bs path ?D t'" by auto
    have "distinct (map dbr_block_id rs)" "\<forall>r \<in> set rs. dbr_ino r = ino \<and> dbr_status_code r = kOk \<and>
         (\<forall>b \<in> set bs. bi_id b = dbr_block_id r \<longrightarrow> dbr_data r = file_slice g (bi_offset b) (bi_size b))"
      using Cons.prems(1,3) by auto
    from Cons.IH [OF this(1) p this(2) 1(2) t' sub 1(3)] 1(1) False show ?thesis unfolding e by (cases "rs = []") auto
  qed
qed

section \<open>A download from the answer to \<open>prepare_download_file\<close> to the file\<close>

definition tiles :: "BlockInfo list \<Rightarrow> string \<Rightarrow> bool" where
  "tiles bs g \<longleftrightarrow> (\<Union>b \<in> set bs. block_range b) = {..<length g} \<and>
     (\<forall>b \<in> set bs. unat (bi_offset b) + unat (bi_size b) \<le> length g)"

text \<open>The answers of the data nodes: each block once, with its bytes of \<open>g\<close>.\<close>

definition block_answers :: "u64 \<Rightarrow> BlockInfo list \<Rightarrow> string \<Rightarrow> DownloadBlockResponse list \<Rightarrow> bool" where
  "block_answers ino bs g rs \<longleftrightarrow> distinct (map dbr_block_id rs) \<and> dbr_block_id ` set rs = bi_id ` set bs \<and>
     (\<forall>r \<in> set rs. dbr_ino r = ino \<and> dbr_status_code r = kOk \<and>
        (\<forall>b \<in> set bs. bi_id b = dbr_block_id r \<longrightarrow> dbr_data r = file_slice g (bi_offset b) (bi_size b)))"

lemma prepare_download_starts:
  assumes "client_wf c" and "um_find (vc_download_tasks c) ino = None" and "pdr_status_code p = kOk"
    and "placed_blocks ino (pdr_blocks p)" and "0 \<in> bi_id ` set (pdr_blocks p)"
  obtains c1 t where "handle_prepare_download_file_response (RpcStatus True m) p c = Done c1"
    and "vc_tasks c1 = vc_tasks c @ map (\<lambda>b. SendDownloadBlock (bi_id b) ino (hd (bi_data_node_id b))) (pdr_blocks p)"
    and "um_find (vc_download_tasks c1) ino = Some t" and "fetched ino (pdr_blocks p) (pdr_local_path p) {} t"
    and "\<not> vc_locked c1" and "vc_disk c1 = vc_disk c" and "vc_sent c1 = vc_sent c" and "vc_session c1 = vc_session c"
    and "vc_data_clients c1 = vc_data_clients c"
proof -
  let ?bs = "pdr_blocks p"
  obtain t where t: "make_task ?bs (pdr_local_path p) (pdr_remote_path p) = Done t" "counted ino ?bs {} t"
    "tt_local_path t = pdr_local_path p" "tt_blocks t = map (\<lambda>b. (bi_id b, make_block b)) ?bs"
    "tt_done_blocks t < tt_total_blocks t" "tt_done_blocks t = 0"
    by (rule make_task_counted [OF assms(4)])
  have ft: "fetched ino ?bs (pdr_local_path p) {} t" using t(2,3,6) by (auto simp: fetched_def counted_def counted_block_def)
  have "download_block_tasks (make_block b) = [SendDownloadBlock (bi_id b) ino (hd (bi_data_node_id b))]" if "b \<in> set ?bs" for b
  proof -
    have b: "bi_ino b = ino" "bi_data_node_id b \<noteq> []" "distinct (bi_data_node_id b)" "length (bi_data_node_id b) < 2 ^ 31"
      using assms(4) that by (auto simp: placed_blocks_def)
    then have "tb_remaing_times (make_block b) \<noteq> 0"
      using unat_of_nat_small [of "length (bi_data_node_id b)"] by (auto simp: make_block_def)
    then show ?thesis using make_block_flags [OF b(3)] b(1,2)
      by (cases "bi_data_node_id b") (simp_all add: download_block_tasks_def, simp add: make_block_def)
  qed
  moreover have "um_find (tt_blocks t) (tt_done_blocks t) \<noteq> None"
    using assms(5) t(4,6) by (auto simp: um_find_def map_of_eq_None_iff comp_def image_image)
  ultimately have q: "download_queue t = map (\<lambda>b. SendDownloadBlock (bi_id b) ino (hd (bi_data_node_id b))) ?bs"
    by (auto simp: download_queue_def t(4) um_values_def comp_def concat_map_singleton cong: map_cong)
  let ?c = "emit (AppendLog (pdr_message p)) (c\<lparr>vc_tasks := vc_tasks c @ download_queue t,
    vc_download_tasks := um_emplace ino t (vc_download_tasks c)\<rparr>)"
  have "tt_ino t = ino" using t(2) by (simp add: counted_def)
  then have "handle_prepare_download_file_response (RpcStatus True m) p c = Done ?c"
    using assms(1,3) t(1)
    by (simp add: do_download_task_eq [OF t(5)] handle_prepare_download_file_response_def Let_def Status_ok_def Status_is_not_leader_def
        client_wf_def client_basics status_code_defs)
  with ft assms(1,2) q show thesis by (intro that [of ?c t]) (simp_all add: client_basics client_wf_def)
qed

lemma downloading_complete:
  assumes "downloading view disk0 path g bs (bi_id ` set bs) fs" and "tiles bs g" and "bs \<noteq> []"
  shows "view fs = disk0(path \<mapsto> g)"
proof -
  have "{b \<in> set bs. bi_id b \<in> bi_id ` set bs} = set bs" by auto
  with assms obtain f where f: "view fs = disk0(path \<mapsto> f)" "agrees g {..<length g} f"
    by (auto simp: downloading_def tiles_def content_def split: option.splits)
  then show ?thesis using agrees_all by blast
qed

text \<open>The answers up to any point, from the state in which nothing has arrived.\<close>

lemma download_prefix:
  assumes spec: "file_spec E view" "writable E path"
    and bs: "placed_blocks ino bs" "tiles bs g" and ans: "block_answers ino bs g rs"
    and c: "\<not> vc_locked c" "um_find (vc_download_tasks c) ino = Some t" "fetched ino bs path {} t" "view (vc_disk c) path = None"
  shows "\<exists>c2. run (handle_download_block_response E (RpcStatus True m)) (take k rs) c = Done c2 \<and>
    downloading view (view (vc_disk c)) path g bs (dbr_block_id ` set (take k rs)) (vc_disk c2) \<and>
    (um_find (vc_download_tasks c2) ino = None \<longleftrightarrow> \<not> k < length rs)"
proof -
  have b: "distinct (map bi_id bs)" "\<forall>b \<in> set bs. unat (bi_offset b) + unat (bi_size b) \<le> length g" "length bs < 2 ^ 31" "bs \<noteq> []"
    using bs by (simp_all add: placed_blocks_def tiles_def)
  have rs: "distinct (map dbr_block_id rs)" "dbr_block_id ` set rs = bi_id ` set bs" using ans by (simp_all add: block_answers_def)
  have "downloading view (view (vc_disk c)) path g bs {} (vc_disk c)"
    using c(4) by (auto simp: downloading_def content_def agrees_def intro!: exI [of _ None])
  moreover have "distinct (map dbr_block_id (take k rs))" using rs(1) by (simp add: take_map [symmetric])
  moreover have sub: "dbr_block_id ` set (take k rs) \<subseteq> bi_id ` set bs - {}" by (metis Diff_empty image_mono rs(2) set_take_subset)
  moreover have "\<forall>r \<in> set (take k rs). dbr_ino r = ino \<and> dbr_status_code r = kOk \<and>
      (\<forall>b \<in> set bs. bi_id b = dbr_block_id r \<longrightarrow> dbr_data r = file_slice g (bi_offset b) (bi_size b))"
    using ans unfolding block_answers_def by (blast dest: in_set_takeD)
  moreover have "(take k rs \<noteq> [] \<and> dbr_block_id ` set (take k rs) \<union> {} = bi_id ` set bs) \<longleftrightarrow> \<not> k < length rs"
    using prefix_complete [OF rs, of k] sub b(4) by (cases "take k rs = []") auto
  ultimately show ?thesis
    using download_acks [OF spec b(1,2,3) _ _ _ c(1,2,3), of "take k rs" "view (vc_disk c)" m] by auto
qed

text \<open>
  C7. When the cluster has named the blocks of a file, the client queues one download for each,
  at the first data node named for it. If the blocks tile the file and the data nodes answer with
  their bytes, in whatever order, the local file ends up with exactly the content of the file, no
  other file changes, and the task is dropped with the last answer and not before.
\<close>

theorem download_assembles:
  assumes "file_spec E view" and "writable E (pdr_local_path p)" and "view (vc_disk c) (pdr_local_path p) = None"
    and "client_wf c" and "um_find (vc_download_tasks c) ino = None" and "pdr_status_code p = kOk"
    and "placed_blocks ino (pdr_blocks p)" and "0 \<in> bi_id ` set (pdr_blocks p)"
    and "tiles (pdr_blocks p) g" and "block_answers ino (pdr_blocks p) g rs"
  shows "\<exists>c1. handle_prepare_download_file_response (RpcStatus True m) p c = Done c1 \<and>
    vc_tasks c1 = vc_tasks c @ map (\<lambda>b. SendDownloadBlock (bi_id b) ino (hd (bi_data_node_id b))) (pdr_blocks p) \<and>
    (\<forall>k. \<exists>c2. run (handle_download_block_response E (RpcStatus True m)) (take k rs) c1 = Done c2 \<and>
       (um_find (vc_download_tasks c2) ino = None \<longleftrightarrow> \<not> k < length rs)) \<and>
    (\<exists>c2. run (handle_download_block_response E (RpcStatus True m)) rs c1 = Done c2 \<and>
       view (vc_disk c2) = (view (vc_disk c))(pdr_local_path p \<mapsto> g))"
proof -
  let ?bs = "pdr_blocks p" and ?path = "pdr_local_path p" and ?run = "\<lambda>rs. run (handle_download_block_response E (RpcStatus True m)) rs"
  obtain c1 t where 1: "handle_prepare_download_file_response (RpcStatus True m) p c = Done c1"
    "vc_tasks c1 = vc_tasks c @ map (\<lambda>b. SendDownloadBlock (bi_id b) ino (hd (bi_data_node_id b))) ?bs"
    "um_find (vc_download_tasks c1) ino = Some t" "fetched ino ?bs ?path {} t" "\<not> vc_locked c1" "vc_disk c1 = vc_disk c"
    by (rule prepare_download_starts [OF assms(4-8)])
  have "view (vc_disk c1) ?path = None" using 1(6) assms(3) by simp
  note acks = download_prefix [OF assms(1,2,7,9,10) 1(5,3,4) this, of m]
  have "dbr_block_id ` set rs = bi_id ` set ?bs" using assms(10) by (simp add: block_answers_def)
  with acks [of "length rs"] obtain c2 where 2: "?run rs c1 = Done c2"
    "downloading view (view (vc_disk c)) ?path g ?bs (bi_id ` set ?bs) (vc_disk c2)" by (auto simp: 1(6))
  have "view (vc_disk c2) = (view (vc_disk c))(?path \<mapsto> g)"
    using downloading_complete [OF 2(2) assms(9)] assms(7) by (simp add: placed_blocks_def)
  with 2(1) have A: "\<exists>c2. ?run rs c1 = Done c2 \<and> view (vc_disk c2) = (view (vc_disk c))(?path \<mapsto> g)" by blast
  have B: "\<exists>c2. ?run (take k rs) c1 = Done c2 \<and> (um_find (vc_download_tasks c2) ino = None \<longleftrightarrow> \<not> k < length rs)" for k
    using acks [of k] by (elim exE conjE) (intro exI conjI, assumption+)
  show ?thesis by (rule exI [of _ c1], intro conjI allI) (rule 1(1,2) A B)+
qed

definition ex_client_env :: "(string \<rightharpoonup> string, jval, unit) client_env" where
  "ex_client_env = \<lparr>ce_metadata = (\<lambda>fs p. case fs p of None \<Rightarrow> Inl [] | Some f \<Rightarrow> Inr (of_nat (length f))),
     ce_open = (\<lambda>fs p. if fs p = None then Some [] else None), ce_seek = (\<lambda>fs p off. True),
     ce_read = (\<lambda>fs p off n. case fs p of None \<Rightarrow> Inl [] | Some f \<Rightarrow> Inr (file_slice f off n)),
     ce_open_write = (\<lambda>fs p. (None, fs(p \<mapsto> content (\<lambda>fs. fs) fs p))),
     ce_write_all = (\<lambda>fs p off data. (None, fs(p \<mapsto> overlay (content (\<lambda>fs. fs) fs p) (unat off) data))),
     ce_texts = ex_texts, ce_json = ex_json,
     ce_jwt = \<lparr>jwt_decode = (\<lambda>_. Some ()), jwt_verify = (\<lambda>_ _ _. True), jwt_claim = (\<lambda>_ _. None)\<rparr>,
     ce_digest = Some, ce_format_time = to_string\<rparr>"

lemma ex_client_env_spec: "file_spec ex_client_env (\<lambda>fs. fs)" "writable ex_client_env path" "json_spec (ce_json ex_client_env)"
  by (auto simp: file_spec_def writable_def ex_client_env_def content_def file_slice_def ex_json_spec split: option.splits)

definition ex_located :: PrepareDownloadFileResponse where
  "ex_located = \<lparr>pdr_status_code = kOk, pdr_message = [], pdr_local_path = ''./g'', pdr_remote_path = ''/f'',
     pdr_blocks = [\<lparr>bi_id = 0, bi_ino = 2, bi_offset = 0, bi_size = 2, bi_data_node_id = [7, 8]\<rparr>,
       \<lparr>bi_id = 1, bi_ino = 2, bi_offset = 2, bi_size = 1, bi_data_node_id = [8, 7]\<rparr>]\<rparr>"

definition ex_piece :: "u64 \<Rightarrow> string \<Rightarrow> DownloadBlockResponse" where
  "ex_piece i data = \<lparr>dbr_status_code = kOk, dbr_message = [], dbr_block_id = i, dbr_ino = 2, dbr_data_node_id = 7, dbr_data = data\<rparr>"

theorem download_assembles_witness:
  "\<exists>c1 c2. handle_prepare_download_file_response (RpcStatus True []) ex_located (ex_client Map.empty) = Done c1 \<and>
     run (handle_download_block_response ex_client_env (RpcStatus True [])) [ex_piece 1 ''c'', ex_piece 0 ''ab''] c1 = Done c2 \<and>
     vc_disk c2 = [''./g'' \<mapsto> ''abc'']"
proof -
  let ?rs = "[ex_piece 1 ''c'', ex_piece 0 ''ab'']" and ?c = "ex_client Map.empty"
  have h: "client_wf ?c" "um_find (vc_download_tasks ?c) 2 = None" "pdr_status_code ex_located = kOk"
    "placed_blocks 2 (pdr_blocks ex_located)" "0 \<in> bi_id ` set (pdr_blocks ex_located)" "vc_disk ?c (pdr_local_path ex_located) = None"
    by (auto simp: ex_located_def ex_upload_defs client_wf_def placed_blocks_def um_find_def)
  have "tiles (pdr_blocks ex_located) ''abc''" by (auto simp: tiles_def ex_located_def block_range_def)
  moreover have "block_answers 2 (pdr_blocks ex_located) ''abc'' ?rs"
    by (auto simp: block_answers_def ex_located_def ex_piece_def file_slice_def)
  ultimately have "\<exists>c1. handle_prepare_download_file_response (RpcStatus True []) ex_located ?c = Done c1 \<and>
      (\<exists>c2. run (handle_download_block_response ex_client_env (RpcStatus True [])) ?rs c1 = Done c2 \<and>
        vc_disk c2 = (vc_disk ?c)(pdr_local_path ex_located \<mapsto> ''abc''))"
    using download_assembles [OF ex_client_env_spec(1,2) h(6) h(1-5), of "''abc''" ?rs "[]"] by blast
  then show ?thesis by (auto simp: ex_upload_defs ex_located_def)
qed

end
