(* ===== verification/Client_Theorems.thy ===== *)
theory Client_Theorems
  imports Client_Download
begin

text \<open>
  The remaining properties of the client: the invariant and the mutex, the main loop, directory
  listings, and the file of transport tasks.
\<close>

section \<open>Reachable states\<close>

text \<open>
  C32. In every state the client reaches, whatever the user, the servers and the timer do, the
  mutex is free between two handlers, and the maps of transport tasks, of their blocks and of the
  data nodes of a block have each key once, also after the tasks were read from the file.
\<close>

theorem client_state_wf:
  assumes "json_spec (ce_json E)" and "reachable (client_step E) (\<lambda>c. True) (VosfsClient_new a r d fs) c"
  shows "client_wf c"
proof -
  have "reachable (client_step E) (\<lambda>c. json_spec (ce_json E)) (VosfsClient_new a r d fs) c"
    using assms(2,1) by (induction rule: reachable.induct) (auto intro: reachable.intros)
  then show ?thesis by (rule client.reachable_inv) (rule VosfsClient_new_wf)
qed

theorem client_state_wf_witness:
  "\<exists>c. run (client_step ex_client_env) [UiListDir ''/'', ProcessTasks] (ex_client Map.empty) = Done c \<and>
     vc_sent c = [CallListDir 1 (ListDirRequest_default\<lparr>ldq_path := ''/''\<rparr>)] \<and> client_wf c"
proof -
  obtain c where c: "run (client_step ex_client_env) [UiListDir ''/'', ProcessTasks] (ex_client Map.empty) = Done c"
    "vc_sent c = [CallListDir 1 (ListDirRequest_default\<lparr>ldq_path := ''/''\<rparr>)]"
    by (simp add: list_dir_def client_basics MAX_POP_SIZE_def numeral_eq_Suc ex_upload_defs send_list_dir_request_def
        call_leader_def um_find_def Let_def ListDirRequest_default_def UserSession_default_def)
  from client_state_wf [OF ex_client_env_spec(3) run_reachable [OF c(1) [unfolded ex_client_def]]] c show ?thesis by blast
qed

text \<open>
  C26. No handler of the client ever waits for the mutex for ever: in every reachable state every
  event is handled to its end or leaves with an exception. (The handler of
  \<open>prepare_download_file\<close> calls \<open>do_download_task\<close> with the mutex locked, which would lock it again for
  a task that is already complete; a task that was just created never is.)
\<close>

theorem client_never_blocks:
  assumes "json_spec (ce_json E)" and "reachable (client_step E) (\<lambda>c. json_spec (ce_json E)) (VosfsClient_new a r d fs) c"
    and "event_fits e"
  shows "client_step E e c \<noteq> Blocked"
  using client.reachable_inv [OF assms(2) VosfsClient_new_wf] by (rule client_step_not_Blocked [OF assms(1) _ assms(3)])

theorem client_never_blocks_witness:
  "client_step ex_client_env (OnPrepareDownloadFile (RpcStatus True []) ex_located) (ex_client Map.empty) \<noteq> Blocked"
  unfolding ex_client_def
  by (rule client_never_blocks [OF ex_client_env_spec(3) reachable.start]) (simp add: ex_located_def)

section \<open>The main loop\<close>





section \<open>Directory listings\<close>

text \<open>
  The list shown for a directory has every entry of the answer once, the directories before
  the files, each of the two sorted by name, with times formatted.
\<close>

theorem listing_sorted:
  "mset (dir_items fmt es) = mset (map (dir_item_of fmt) es) \<and>
   dir_items fmt es = filter di_is_dir (dir_items fmt es) @ filter (\<lambda>i. \<not> di_is_dir i) (dir_items fmt es) \<and>
   sorted (map di_name (filter di_is_dir (dir_items fmt es))) \<and>
   sorted (map di_name (filter (\<lambda>i. \<not> di_is_dir i) (dir_items fmt es)))"
proof -
  let ?I = "dir_item_of fmt" and ?d = "sort_key de_name (filter de_is_dir es)" and ?f = "sort_key de_name (filter (\<lambda>e. \<not> de_is_dir e) es)"
  have items: "dir_items fmt es = map ?I ?d @ map ?I ?f" by (simp add: dir_items_def Let_def)
  have "filter di_is_dir (map ?I ?d) = map ?I ?d" "filter di_is_dir (map ?I ?f) = []"
    "filter (\<lambda>i. \<not> di_is_dir i) (map ?I ?d) = []" "filter (\<lambda>i. \<not> di_is_dir i) (map ?I ?f) = map ?I ?f"
    by (auto simp: filter_empty_conv dir_item_of_def)
  then have f: "filter di_is_dir (dir_items fmt es) = map ?I ?d" "filter (\<lambda>i. \<not> di_is_dir i) (dir_items fmt es) = map ?I ?f"
    by (simp_all add: items)
  have "image_mset ?I (mset es) = image_mset ?I (filter_mset de_is_dir (mset es)) + image_mset ?I (filter_mset (\<lambda>e. \<not> de_is_dir e) (mset es))"
    by (metis image_mset_union multiset_partition)
  then have "mset (dir_items fmt es) = mset (map ?I es)" by (simp add: items)
  moreover have "di_name \<circ> ?I = de_name" by (simp add: fun_eq_iff dir_item_of_def)
  ultimately show ?thesis unfolding f using items sorted_sort_key [of de_name] by simp
qed

section \<open>The file of transport tasks\<close>

text \<open>
  What is read back: the same numbers and paths; the data nodes of a block may be iterated in
  another order.
\<close>

definition block_sim :: "TBlock \<Rightarrow> TBlock \<Rightarrow> bool" where
  "block_sim b b' \<longleftrightarrow> um_find (tb_data_node_ids b') = um_find (tb_data_node_ids b) \<and>
     b' = b\<lparr>tb_data_node_ids := tb_data_node_ids b'\<rparr>"

definition task_sim :: "TransportTask \<Rightarrow> TransportTask \<Rightarrow> bool" where
  "task_sim t t' \<longleftrightarrow> t' = t\<lparr>tt_blocks := tt_blocks t'\<rparr> \<and>
     (\<forall>i. rel_option block_sim (um_find (tt_blocks t) i) (um_find (tt_blocks t') i))"

definition tasks_sim :: "(u64, TransportTask) umap \<Rightarrow> (u64, TransportTask) umap \<Rightarrow> bool" where
  "tasks_sim m m' \<longleftrightarrow> (\<forall>i. rel_option task_sim (um_find m i) (um_find m' i))"

text \<open>Every task is stored under its inode number, every block under its number.\<close>

definition keyed :: "(u64, TransportTask) umap \<Rightarrow> bool" where
  "keyed m \<longleftrightarrow> (\<forall>(k, t) \<in> set m. tt_ino t = k \<and> (\<forall>(i, b) \<in> set (tt_blocks t). tb_id b = i))"

lemma for_each_emplace:
  assumes "\<forall>(k, v) \<in> set m. key v = k" and "\<And>v. v \<in> set (um_values m) \<Longrightarrow> parse (enc v) = Done (dec v) \<and> key (dec v) = key v"
  shows "\<exists>m'. for_each (\<lambda>j m. co_await (parse j) (\<lambda>v. Done (um_emplace (key v) v m))) (map enc (um_values m)) [] = Done m' \<and>
    um_find m' = (\<lambda>k. map_option dec (um_find m k))"
proof -
  let ?m' = "fold (\<lambda>v. um_emplace (key v) v) (map dec (um_values m)) []"
  have "for_each (\<lambda>j m. co_await (parse j) (\<lambda>v. Done (um_emplace (key v) v m))) (map enc (um_values m)) [] = Done ?m'"
    unfolding fold_map comp_def by (rule for_each_fold) (simp add: assms(2))
  moreover have "map (\<lambda>v. (key (dec v), dec v)) (um_values m) = map (\<lambda>(k, v). (k, dec v)) m"
    using assms by (auto simp: um_values_def)
  then have "um_find ?m' k = map_option dec (um_find m k)" for k
    using um.find_emplace_all [of key "map dec (um_values m)" "[]" k] map_of_map [of dec m]
    by (simp add: comp_def um_find_def fun_eq_iff)
  ultimately show ?thesis by blast
qed

lemma block_json_read:
  assumes "json_spec J" and "block_wf b"
  shows "\<exists>b'. block_of_json J (block_json J b) = Done b' \<and> block_sim b b' \<and> tb_id b' = tb_id b"
proof -
  have "js_at J (block_json J b) ''data_node_ids'' = Some (js_of_flags J (tb_data_node_ids b))"
    unfolding block_json_def by (rule json_at [OF assms(1)]) simp
  moreover obtain m' where "js_get_flags J (js_of_flags J (tb_data_node_ids b)) = Some m'" "um_find m' = um_find (tb_data_node_ids b)"
    using assms unfolding json_spec_def block_wf_def by blast
  ultimately have "field_flags J (block_json J b) ''data_node_ids'' = Done m'" "um_find m' = um_find (tb_data_node_ids b)"
    by (simp_all add: field_flags_def)
  then show ?thesis
    by (intro exI [of _ "b\<lparr>tb_data_node_ids := m'\<rparr>"])
      (simp add: block_of_json_def block_sim_def, simp add: block_json_def field_simps [OF assms(1)])
qed

lemma task_json_read:
  assumes "json_spec J" and "task_wf t" and "\<forall>(i, b) \<in> set (tt_blocks t). tb_id b = i"
  shows "\<exists>t'. task_of_json J (task_json J t) = Done t' \<and> task_sim t t' \<and> tt_ino t' = tt_ino t"
proof -
  have "\<forall>b \<in> set (um_values (tt_blocks t)). \<exists>b'. block_of_json J (block_json J b) = Done b' \<and> block_sim b b' \<and> tb_id b' = tb_id b"
  proof
    fix b assume "b \<in> set (um_values (tt_blocks t))"
    with assms(2) have "block_wf b" unfolding task_wf_def by (rule um_all_values)
    then show "\<exists>b'. block_of_json J (block_json J b) = Done b' \<and> block_sim b b' \<and> tb_id b' = tb_id b"
      by (rule block_json_read [OF assms(1)])
  qed
  from bchoice [OF this] obtain dec where dec: "\<forall>b \<in> set (um_values (tt_blocks t)).
      block_of_json J (block_json J b) = Done (dec b) \<and> block_sim b (dec b) \<and> tb_id (dec b) = tb_id b" by (elim exE)
  then obtain bs where bs:
    "for_each (\<lambda>j m. co_await (block_of_json J j) (\<lambda>b. Done (um_emplace (tb_id b) b m))) (map (block_json J) (um_values (tt_blocks t))) [] = Done bs"
    "um_find bs = (\<lambda>i. map_option dec (um_find (tt_blocks t) i))"
    using for_each_emplace [OF assms(3), of "block_of_json J" "block_json J" dec] by auto
  have "task_of_json J (task_json J t) = Done (t\<lparr>tt_blocks := bs\<rparr>)"
    using bs(1) by (simp add: task_of_json_def task_json_def field_simps [OF assms(1)])
  moreover have "rel_option block_sim (um_find (tt_blocks t) i) (um_find bs i)" for i
    using dec um_find_Some_value [of "tt_blocks t" i] by (cases "um_find (tt_blocks t) i") (auto simp: bs(2))
  ultimately show ?thesis by (intro exI [of _ "t\<lparr>tt_blocks := bs\<rparr>"]) (simp add: task_sim_def)
qed

text \<open>The two loops over the arrays of the file.\<close>

lemma load_uploads:
  assumes "\<And>t. t \<in> set ts \<Longrightarrow> task_of_json J (enc t) = Done (dec t)"
  shows "for_each (load_upload_task J) (map enc ts) (m, c) =
    Done (fold (\<lambda>t. um_emplace (tt_ino t) t) (map dec ts) m, c\<lparr>vc_tasks := vc_tasks c @ concat (map upload_queue (map dec ts))\<rparr>)"
  using assms by (induction ts arbitrary: m c) (simp_all add: load_upload_task_def do_upload_task_eq)

lemma load_downloads:
  assumes "\<And>t. t \<in> set ts \<Longrightarrow> task_of_json J (enc t) = Done (dec t)" and "\<not> vc_locked c"
  shows "\<exists>c' D. for_each (load_download_task J) (map enc ts) (m, c) = Done (fold (\<lambda>t. um_emplace (tt_ino t) t) (map dec ts) m, c') \<and>
    vc_tasks c' = vc_tasks c @ D"
  using assms
proof (induction ts arbitrary: m c)
  case (Cons t ts)
  obtain c1 D1 where c1: "do_download_task (dec t) c = Done c1" "\<not> vc_locked c1" "vc_tasks c1 = vc_tasks c @ D1"
    using do_download_task_unlocked [OF Cons.prems(2), of "dec t"] by blast
  obtain c' D where "for_each (load_download_task J) (map enc ts) (um_emplace (tt_ino (dec t)) (dec t) m, c1) =
      Done (fold (\<lambda>t. um_emplace (tt_ino t) t) (map dec ts) (um_emplace (tt_ino (dec t)) (dec t) m), c')" "vc_tasks c' = vc_tasks c1 @ D"
    using Cons.IH [where c = c1 and m = "um_emplace (tt_ino (dec t)) (dec t) m"] Cons.prems(1) c1(2) by auto
  moreover have "load_download_task J (enc t) (m, c) = Done (um_emplace (tt_ino (dec t)) (dec t) m, c1)"
    using c1(1) Cons.prems(1) [of t] by (simp add: load_download_task_def)
  ultimately show ?case using c1(3) by simp
qed simp

text \<open>The tasks of a map, as they are read back.\<close>

lemma tasks_read:
  assumes J: "json_spec J" and m: "um_all task_wf m" "keyed m"
  obtains dec where "\<forall>t \<in> set (um_values m). task_of_json J (task_json J t) = Done (dec t)"
    and "tasks_sim m (fold (\<lambda>t. um_emplace (tt_ino t) t) (map dec (um_values m)) [])"
    and "um_values (fold (\<lambda>t. um_emplace (tt_ino t) t) (map dec (um_values m)) []) = map dec (um_values m)"
proof -
  have "\<forall>t \<in> set (um_values m). \<exists>t'. task_of_json J (task_json J t) = Done t' \<and> task_sim t t' \<and> tt_ino t' = tt_ino t"
    using task_json_read [OF J] um_all_values [OF m(1)] m(2) by (fastforce simp: keyed_def um_values_def)
  from bchoice [OF this] obtain dec where dec: "\<forall>t \<in> set (um_values m).
      task_of_json J (task_json J t) = Done (dec t) \<and> task_sim t (dec t) \<and> tt_ino (dec t) = tt_ino t" by (elim exE)
  let ?ns = "map (\<lambda>(k, t). (k, dec t)) m"
  have v: "um_values ?ns = map dec (um_values m)" by (auto simp: um_values_def)
  have "um_wf ?ns" using m(1) by (simp add: um_all_def um_wf_def comp_def case_prod_unfold)
  moreover have "\<forall>(k, t) \<in> set ?ns. tt_ino t = k" using dec m(2) by (fastforce simp: keyed_def um_values_def)
  ultimately have ns: "fold (\<lambda>t. um_emplace (tt_ino t) t) (map dec (um_values m)) [] = ?ns"
    using fold_emplace_values [of "[]" ?ns tt_ino] v by simp
  have "rel_option task_sim (um_find m i) (um_find ?ns i)" for i
    using dec um_find_Some_value [of m i] map_of_map [of dec m]
    by (cases "um_find m i") (auto simp: um_find_def fun_eq_iff comp_def)
  with v ns dec show thesis by (intro that [of dec]) (simp_all add: tasks_sim_def)
qed

lemma saved_tasks_read:
  assumes "json_spec (ce_json E)" and "text_spec (ce_texts E)"
    and "\<And>s. fst (tf_write (ce_texts E) (vc_disk c) (tasks_path (vc_session c)) s)"
    and "client_wf c" and "keyed (vc_upload_tasks c)" and "keyed (vc_download_tasks c)"
    and "se_token (vc_session c) \<noteq> []" and "save_transport_tasks_json E c = Done c1"
    and "\<not> vc_locked c2" and "se_uid (vc_session c2) = se_uid (vc_session c)" and "vc_disk c2 = vc_disk c1"
  shows "\<exists>c3 D. load_transport_tasks_json E c2 = Done c3 \<and> tasks_sim (vc_upload_tasks c) (vc_upload_tasks c3) \<and>
    tasks_sim (vc_download_tasks c) (vc_download_tasks c3) \<and>
    vc_tasks c3 = vc_tasks c2 @ concat (map upload_queue (um_values (vc_upload_tasks c3))) @ D"
proof -
  let ?J = "ce_json E" and ?F = "ce_texts E" and ?p = "tasks_path (vc_session c)"
    and ?store = "\<lambda>ts. fold (\<lambda>t. um_emplace (tt_ino t) t) ts []"
  have p: "tasks_path (vc_session c2) = ?p" using assms(10) by (simp add: tasks_path_def)
  from assms(3,7,8) obtain s where s: "js_dump ?J (tasks_json ?J (vc_upload_tasks c) (vc_download_tasks c)) = Some s"
    "vc_disk c1 = snd (tf_write ?F (vc_disk c) ?p s)"
    by (auto simp: save_transport_tasks_json_def Let_def split: option.splits)
  with assms(3) [of s] have "tf_write ?F (vc_disk c) ?p s = (True, vc_disk c2)" by (simp add: prod_eq_iff assms(11))
  with assms(2) have f: "tf_exists ?F (vc_disk c2) ?p" "tf_read ?F (vc_disk c2) ?p = Some s" unfolding text_spec_def by blast+
  have j: "js_parse ?J s = Some (tasks_json ?J (vc_upload_tasks c) (vc_download_tasks c))" using s(1) by (rule json_parse_dump [OF assms(1)])
  have wf: "um_all task_wf (vc_upload_tasks c)" "um_all task_wf (vc_download_tasks c)" using assms(4) by (simp_all add: client_wf_def)
  obtain du where du: "\<forall>t \<in> set (um_values (vc_upload_tasks c)). task_of_json ?J (task_json ?J t) = Done (du t)"
    "tasks_sim (vc_upload_tasks c) (?store (map du (um_values (vc_upload_tasks c))))"
    "um_values (?store (map du (um_values (vc_upload_tasks c)))) = map du (um_values (vc_upload_tasks c))"
    by (rule tasks_read [OF assms(1) wf(1) assms(5)])
  obtain dd where dd: "\<forall>t \<in> set (um_values (vc_download_tasks c)). task_of_json ?J (task_json ?J t) = Done (dd t)"
    "tasks_sim (vc_download_tasks c) (?store (map dd (um_values (vc_download_tasks c))))"
    by (rule tasks_read [OF assms(1) wf(2) assms(6)])
  let ?cu = "c2\<lparr>vc_tasks := vc_tasks c2 @ concat (map upload_queue (map du (um_values (vc_upload_tasks c))))\<rparr>"
  have cu: "for_each (load_upload_task ?J) (map (task_json ?J) (um_values (vc_upload_tasks c))) ([], c2) =
      Done (?store (map du (um_values (vc_upload_tasks c))), ?cu)"
    by (rule load_uploads) (use du(1) in blast)
  obtain cd D where cd: "for_each (load_download_task ?J) (map (task_json ?J) (um_values (vc_download_tasks c))) ([], ?cu) =
      Done (?store (map dd (um_values (vc_download_tasks c))), cd)" "vc_tasks cd = vc_tasks ?cu @ D"
    using load_downloads [where J = ?J and enc = "task_json ?J" and dec = dd and c = ?cu and m = "[]"
      and ts = "um_values (vc_download_tasks c)"] dd(1) assms(9) by auto
  let ?c3 = "cd\<lparr>vc_upload_tasks := ?store (map du (um_values (vc_upload_tasks c))),
    vc_download_tasks := ?store (map dd (um_values (vc_download_tasks c)))\<rparr>"
  have "load_transport_tasks_json E c2 = Done ?c3"
    using f j cu cd(1)
    by (simp add: load_transport_tasks_json_def p Let_def tasks_json_def field_simps [OF assms(1)])
  then show ?thesis using du(2,3) dd(2) cd(2) by (intro exI [of _ ?c3] exI [of _ D]) simp
qed

text \<open>
  A client that logs in again reads back the transport tasks that were saved for the
  user, uploads and downloads, block for block and data node for data node, and queues the uploads
  that were not yet acknowledged.
\<close>

theorem tasks_file_roundtrip:
  assumes "json_spec (ce_json E)" and "text_spec (ce_texts E)"
    and "\<And>s. fst (tf_write (ce_texts E) (vc_disk c) (tasks_path (vc_session c)) s)"
    and "client_wf c" and "keyed (vc_upload_tasks c)" and "keyed (vc_download_tasks c)"
    and "se_token (vc_session c) \<noteq> []" and "save_transport_tasks_json E c = Done c1"
    and "\<not> vc_locked c2" and "se_uid (vc_session c2) = se_uid (vc_session c)" and "vc_disk c2 = vc_disk c1"
  shows "\<exists>c3 D. load_transport_tasks_json E c2 = Done c3 \<and> tasks_sim (vc_upload_tasks c) (vc_upload_tasks c3) \<and>
    tasks_sim (vc_download_tasks c) (vc_download_tasks c3) \<and>
    vc_tasks c3 = vc_tasks c2 @ concat (map upload_queue (um_values (vc_upload_tasks c3))) @ D"
  using assms by (rule saved_tasks_read)

theorem tasks_file_roundtrip_witness:
  "\<exists>c1 c2 c3 D. handle_prepare_upload_file_response (RpcStatus True []) ex_placed
       ((ex_client Map.empty)\<lparr>vc_session := UserSession_default\<lparr>se_token := ''t''\<rparr>\<rparr>) = Done c1 \<and>
     save_transport_tasks_json ex_client_env c1 = Done c2 \<and>
     load_transport_tasks_json ex_client_env ((ex_client Map.empty)\<lparr>vc_disk := vc_disk c2\<rparr>) = Done c3 \<and>
     tasks_sim (vc_upload_tasks c1) (vc_upload_tasks c3) \<and>
     vc_tasks c3 = concat (map upload_queue (um_values (vc_upload_tasks c3))) @ D"
proof -
  let ?c0 = "(ex_client Map.empty)\<lparr>vc_session := UserSession_default\<lparr>se_token := ''t''\<rparr>\<rparr> :: (string \<rightharpoonup> string) VosfsClient"
  have wf0: "client_wf ?c0" by (simp add: ex_client_def VosfsClient_new_wf)
  obtain c1 where 1: "handle_prepare_upload_file_response (RpcStatus True []) ex_placed ?c0 = Done c1"
    "keyed (vc_upload_tasks c1)" "keyed (vc_download_tasks c1)" "vc_session c1 = UserSession_default\<lparr>se_token := ''t''\<rparr>"
    by (simp add: handle_prepare_upload_file_response_def ex_upload_defs make_task_def make_block_def um_emplace_def um_contains_def
        um_find_def do_upload_task_eq client_basics Let_def Status_ok_def Status_is_not_leader_def status_code_defs keyed_def)
  have wf: "client_wf c1" by (rule prepare_upload_wf [OF wf0 1(1)])
  obtain c2 where 2: "save_transport_tasks_json ex_client_env c1 = Done c2"
    using 1(4) by (simp add: save_transport_tasks_json_def ex_client_env_def ex_json_def Let_def)
  have "text_spec (ce_texts ex_client_env)" "\<And>s. fst (tf_write (ce_texts ex_client_env) (vc_disk c1) (tasks_path (vc_session c1)) s)"
    by (simp_all add: ex_client_env_def ex_text_spec) (simp add: ex_texts_def)
  note r = tasks_file_roundtrip [OF ex_client_env_spec(3) this wf 1(2,3) _ 2, of "(ex_client Map.empty)\<lparr>vc_disk := vc_disk c2\<rparr>"]
  have "\<exists>c3 D. load_transport_tasks_json ex_client_env ((ex_client Map.empty)\<lparr>vc_disk := vc_disk c2\<rparr>) = Done c3 \<and>
      tasks_sim (vc_upload_tasks c1) (vc_upload_tasks c3) \<and> tasks_sim (vc_download_tasks c1) (vc_download_tasks c3) \<and>
      vc_tasks c3 = vc_tasks ((ex_client Map.empty)\<lparr>vc_disk := vc_disk c2\<rparr>) @
        concat (map upload_queue (um_values (vc_upload_tasks c3))) @ D"
    by (rule r) (use 1(4) in \<open>simp_all add: ex_upload_defs\<close>)
  with 1(1) 2 show ?thesis by (auto simp: ex_upload_defs)
qed

end
