(* ===== verification/Auth_Node.thy ===== *)
theory Auth_Node
  imports Auth_Messages Common Std_Text
begin

text \<open>
  \<open>class AuthNode\<close> (\<open>include/vosfs/auth/node.hpp\<close>, \<open>src/auth/node.cpp\<close>): registration, login and
  deletion of users in a table of an SQLite database. SQLite and \<open>jwt-cpp\<close> are outside the
  repository and are parameters. The handlers hold the mutex for one statement at a time, so
  each statement is a section of its own, and the sections of different requests may
  interleave.
\<close>

section \<open>The database\<close>

text \<open>
  The statements the code prepares, one constructor for each SQL text. \<open>sq_prepare\<close> is
  \<open>sqlite3_prepare_v2(...) == SQLITE_OK\<close>; \<open>sq_step\<close> runs a statement with its bound parameters
  once; \<open>sq_column_int64\<close>, \<open>sq_column_int\<close> and \<open>sq_column_blob\<close> read a column of a row.
\<close>

datatype sql =
    CreateUserTable
  | SelectUserName \<comment> \<open>SELECT 1 FROM user WHERE user_name = ? LIMIT 1\<close>
  | InsertUser \<comment> \<open>INSERT INTO user (user_name, avatar, password, role, ...) VALUES (?, '', ?, ...)\<close>
  | DeleteUser \<comment> \<open>DELETE FROM user WHERE uid = ? AND password = ?\<close>
  | SelectLogin \<comment> \<open>SELECT uid, avatar, status, quota, create_time FROM user WHERE user_name = ? AND password = ? AND role = ? LIMIT 1\<close>
  | UpdateAccess \<comment> \<open>UPDATE user SET last_access_time = ?, last_access_ip = ? WHERE uid = ?\<close>

datatype sq_value = SqInt i64 | SqText string

datatype 'row step_result = SQLITE_ROW 'row | SQLITE_DONE | SQLITE_ERROR

record ('db, 'row) sqlite =
  sq_open :: "string \<Rightarrow> 'db option"
  sq_exec :: "'db \<Rightarrow> sql \<Rightarrow> bool \<times> 'db"
  sq_prepare :: "'db \<Rightarrow> sql \<Rightarrow> bool"
  sq_step :: "'db \<Rightarrow> sql \<Rightarrow> sq_value list \<Rightarrow> 'row step_result \<times> 'db"
  sq_column_int64 :: "'row \<Rightarrow> nat \<Rightarrow> i64"
  sq_column_int :: "'row \<Rightarrow> nat \<Rightarrow> i32"
  sq_column_blob :: "'row \<Rightarrow> nat \<Rightarrow> string"

text \<open>
  \<open>jwt::create()\<close> up to \<open>sign\<close>: type, issuer, expiry in milliseconds, payload claims, secret.
\<close>

record 'tok token_lib =
  tl_jwt :: "'tok jwt"
  tl_sign :: "string \<Rightarrow> string \<Rightarrow> u64 \<Rightarrow> (string \<times> string) list \<Rightarrow> string \<Rightarrow> string"

section \<open>The node\<close>

definition DEFAULT_USER_QUOTA_BYTES :: u64 where "DEFAULT_USER_QUOTA_BYTES = 100 * 1024 * 1024 * 1024"

definition DEFAULT_ADMIN_SECRET :: string where "DEFAULT_ADMIN_SECRET = ''123456''"

record 'db AuthNode =
  an_db :: 'db
  an_host :: string
  an_port :: u16

definition AuthNode_create ::
    "('db, 'row) sqlite \<Rightarrow> string \<Rightarrow> string \<Rightarrow> u16 \<Rightarrow> 'db AuthNode Result" where
  "AuthNode_create S db_path host port =
     (case sq_open S db_path of
        None \<Rightarrow> Inl (make_error kDatabaseConnectionFailed)
      | Some db \<Rightarrow>
          (case sq_exec S db CreateUserTable of (ok, db') \<Rightarrow>
             if \<not> ok then Inl (make_error kDatabaseQueryFailed)
             else Inr \<lparr>an_db = db', an_host = host, an_port = port\<rparr>))"

section \<open>Registration\<close>

text \<open>The checks before the database is asked.\<close>

definition register_check :: "RegisterUserRequest \<Rightarrow> RegisterUserResponse option" where
  "register_check request =
     (if ruq_user_name request = [] \<or> ruq_password request = []
      then Some (RegisterUserResponse_default\<lparr>rur_status_code := kInvalidArgument, rur_message := msg_reg_empty\<rparr>)
      else if \<not> User_Role_IsValid (ruq_role request)
      then Some (RegisterUserResponse_default\<lparr>rur_status_code := kInvalidArgument, rur_message := msg_reg_bad_role\<rparr>)
      else if ruq_role request = User_Role_kAdmin \<and> ruq_admin_secret request \<noteq> DEFAULT_ADMIN_SECRET
      then Some (RegisterUserResponse_default\<lparr>rur_status_code := kInvalidArgument, rur_message := msg_reg_bad_secret\<rparr>)
      else None)"

text \<open>The first section: an answer when the name is taken or the statement cannot be prepared.\<close>

definition register_query ::
    "('db, 'row) sqlite \<Rightarrow> RegisterUserRequest \<Rightarrow> 'db \<Rightarrow> 'db \<times> RegisterUserResponse option" where
  "register_query S request db =
     (if \<not> sq_prepare S db SelectUserName
      then (db, Some (RegisterUserResponse_default\<lparr>rur_status_code := kInternal, rur_message := msg_reg_query_failed\<rparr>))
      else
        (case sq_step S db SelectUserName [SqText (ruq_user_name request)] of (ret, db') \<Rightarrow>
           (case ret of
              SQLITE_ROW _ \<Rightarrow>
                (db', Some (RegisterUserResponse_default\<lparr>rur_status_code := kInvalidArgument, rur_message := msg_reg_exists\<rparr>))
            | _ \<Rightarrow> (db', None))))"

definition register_params :: "u64 \<Rightarrow> string \<Rightarrow> RegisterUserRequest \<Rightarrow> sq_value list" where
  "register_params now ip request =
     [SqText (ruq_user_name request), SqText (ruq_password request), SqInt (scast (ruq_role request)),
      SqInt (scast User_Status_kEnabled), SqInt DEFAULT_USER_QUOTA_BYTES,
      SqInt now, SqInt now, SqInt now, SqText ip]"

definition register_insert ::
    "('db, 'row) sqlite \<Rightarrow> u64 \<Rightarrow> string \<Rightarrow> RegisterUserRequest \<Rightarrow> 'db \<Rightarrow> 'db \<times> RegisterUserResponse" where
  "register_insert S now ip request db =
     (if \<not> sq_prepare S db InsertUser
      then (db, RegisterUserResponse_default\<lparr>rur_status_code := kInternal, rur_message := msg_reg_prepare_failed\<rparr>)
      else
        (case sq_step S db InsertUser (register_params now ip request) of (ret, db') \<Rightarrow>
           (case ret of
              SQLITE_DONE \<Rightarrow> (db', RegisterUserResponse_default\<lparr>rur_status_code := kOk, rur_message := msg_reg_ok\<rparr>)
            | _ \<Rightarrow> (db', RegisterUserResponse_default\<lparr>rur_status_code := kInternal, rur_message := msg_reg_exec_failed\<rparr>))))"

definition handle_register_user_request ::
    "('db, 'row) sqlite \<Rightarrow> u64 \<Rightarrow> string \<Rightarrow> RegisterUserRequest \<Rightarrow> 'db \<Rightarrow> 'db \<times> RegisterUserResponse" where
  "handle_register_user_request S now ip request db =
     (case register_check request of
        Some response \<Rightarrow> (db, response)
      | None \<Rightarrow>
          (case register_query S request db of
             (db1, Some response) \<Rightarrow> (db1, response)
           | (db1, None) \<Rightarrow> register_insert S now ip request db1))"

section \<open>Deletion\<close>

text \<open>The \<open>try\<close> block: the user id a token carries, \<open>None\<close> when anything throws.\<close>

definition token_uid :: "'tok jwt \<Rightarrow> string \<Rightarrow> i64 option" where
  "token_uid J token =
     (case jwt_decode J token of
        None \<Rightarrow> None
      | Some decoded \<Rightarrow>
          if \<not> jwt_verify J DEFAULT_JWT_ISSUER DEFAULT_JWT_ISSUER_SECRET decoded then None
          else (case jwt_claim J decoded ''uid'' of None \<Rightarrow> None | Some uid_str \<Rightarrow> stoll uid_str))"

definition handle_delete_user_request ::
    "('db, 'row) sqlite \<Rightarrow> 'tok jwt \<Rightarrow> DeleteUserRequest \<Rightarrow> 'db \<Rightarrow> 'db \<times> DeleteUserResponse" where
  "handle_delete_user_request S J request db =
     (case token_uid J (duq_token request) of
        None \<Rightarrow> (db, DeleteUserResponse_default\<lparr>dur_status_code := kPermissionDenied, dur_message := msg_invalid_token\<rparr>)
      | Some uid \<Rightarrow>
          if \<not> sq_prepare S db DeleteUser
          then (db, DeleteUserResponse_default\<lparr>dur_status_code := kInternal, dur_message := msg_del_failed\<rparr>)
          else
            (case sq_step S db DeleteUser [SqInt uid, SqText (duq_password request)] of (ret, db') \<Rightarrow>
               (case ret of
                  SQLITE_DONE \<Rightarrow> (db', DeleteUserResponse_default\<lparr>dur_status_code := kOk, dur_message := msg_del_ok\<rparr>)
                | _ \<Rightarrow> (db', DeleteUserResponse_default\<lparr>dur_status_code := kInternal, dur_message := msg_del_failed\<rparr>))))"

section \<open>Login\<close>

text \<open>The first section: the row of the user, or the answer that refuses.\<close>

definition login_query ::
    "('db, 'row) sqlite \<Rightarrow> LoginUserByNameRequest \<Rightarrow> 'db \<Rightarrow> 'db \<times> (LoginUserByNameResponse + 'row)" where
  "login_query S request db =
     (if \<not> sq_prepare S db SelectLogin
      then (db, Inl (LoginUserByNameResponse_default\<lparr>lur_status_code := kInternal, lur_message := msg_login_query_failed\<rparr>))
      else
        (case sq_step S db SelectLogin
            [SqText (luq_user_name request), SqText (luq_password request), SqInt (scast (luq_role request))] of
           (ret, db') \<Rightarrow>
           (case ret of
              SQLITE_ROW row \<Rightarrow>
                (let status = sq_column_int S row 2 in
                 if \<not> User_Status_IsValid status \<or> status = User_Status_kDisabled \<or> status = User_Status_kDeleted
                 then (db', Inl (LoginUserByNameResponse_default\<lparr>lur_status_code := kPermissionDenied, lur_message := msg_login_disabled\<rparr>))
                 else (db', Inr row))
            | _ \<Rightarrow> (db', Inl (LoginUserByNameResponse_default\<lparr>lur_status_code := kInternal, lur_message := msg_login_bad\<rparr>)))))"

text \<open>
  The token for a row. The code then decodes the token it has just signed and reads its quota; an
  exception there leaves the handler. \<open>fmt\<close> is \<open>kosio::util::format_time\<close>.
\<close>

definition login_token :: "('db, 'row) sqlite \<Rightarrow> 'tok token_lib \<Rightarrow> u64 \<Rightarrow> LoginUserByNameRequest \<Rightarrow> 'row \<Rightarrow> string" where
  "login_token S T now request row =
     tl_sign T ''JWS'' DEFAULT_JWT_ISSUER (now + DEFAULT_TOKEN_VALID_TIME_IN_SECOND * 1000)
       [(''uid'', int_to_string (sint (sq_column_int64 S row 0))),
        (''role'', int_to_string (sint (luq_role request))),
        (''quota'', int_to_string (sint (sq_column_int64 S row 3)))]
       DEFAULT_JWT_ISSUER_SECRET"

definition login_response ::
    "('db, 'row) sqlite \<Rightarrow> 'tok token_lib \<Rightarrow> (i64 \<Rightarrow> string) \<Rightarrow> u64 \<Rightarrow> LoginUserByNameRequest \<Rightarrow> 'row
     \<Rightarrow> LoginUserByNameResponse outcome" where
  "login_response S T fmt now request row =
     (let token = login_token S T now request row in
      co_await (from_option (jwt_decode (tl_jwt T) token))
        (\<lambda>decoded. co_await (from_option (jwt_claim (tl_jwt T) decoded ''quota''))
           (\<lambda>quota_str.
              Done (LoginUserByNameResponse_default\<lparr>lur_token := token, lur_user_name := luq_user_name request,
                lur_avatar := sq_column_blob S row 1, lur_create_time := fmt (sq_column_int64 S row 4)\<rparr>))))"

text \<open>The second section: a failed update is logged and the login goes on.\<close>

definition login_update ::
    "('db, 'row) sqlite \<Rightarrow> u64 \<Rightarrow> string \<Rightarrow> i64 \<Rightarrow> LoginUserByNameResponse \<Rightarrow> 'db \<Rightarrow> 'db \<times> LoginUserByNameResponse" where
  "login_update S now ip uid response db =
     (if \<not> sq_prepare S db UpdateAccess
      then (db, LoginUserByNameResponse_default\<lparr>lur_status_code := kInternal, lur_message := msg_login_update_failed\<rparr>)
      else
        (case sq_step S db UpdateAccess [SqInt now, SqText ip, SqInt uid] of (ret, db') \<Rightarrow>
           (db', response\<lparr>lur_status_code := kOk, lur_message := msg_login_ok\<rparr>)))"

definition handle_login_user_by_user_name_request ::
    "('db, 'row) sqlite \<Rightarrow> 'tok token_lib \<Rightarrow> (i64 \<Rightarrow> string) \<Rightarrow> u64 \<Rightarrow> string \<Rightarrow> LoginUserByNameRequest \<Rightarrow> 'db
     \<Rightarrow> ('db \<times> LoginUserByNameResponse) outcome" where
  "handle_login_user_by_user_name_request S T fmt now ip request db =
     (case login_query S request db of
        (db1, Inl response) \<Rightarrow> Done (db1, response)
      | (db1, Inr row) \<Rightarrow>
          co_await (login_response S T fmt now request row)
            (\<lambda>response. Done (login_update S now ip (sq_column_int64 S row 0) response db1)))"

section \<open>Sections in any order\<close>

text \<open>
  One statement of one request: the requests that are being handled at the same time take turns
  at the mutex.
\<close>

datatype auth_section =
    SecRegisterQuery RegisterUserRequest
  | SecRegisterInsert u64 string RegisterUserRequest
  | SecDelete DeleteUserRequest
  | SecLoginQuery LoginUserByNameRequest
  | SecLoginUpdate u64 string i64

fun auth_step :: "('db, 'row) sqlite \<Rightarrow> 'tok jwt \<Rightarrow> auth_section \<Rightarrow> 'db \<Rightarrow> 'db outcome" where
  "auth_step S J (SecRegisterQuery q) db = Done (fst (register_query S q db))"
| "auth_step S J (SecRegisterInsert now ip q) db = Done (fst (register_insert S now ip q db))"
| "auth_step S J (SecDelete q) db = Done (fst (handle_delete_user_request S J q db))"
| "auth_step S J (SecLoginQuery q) db = Done (fst (login_query S q db))"
| "auth_step S J (SecLoginUpdate now ip uid) db =
     Done (fst (login_update S now ip uid LoginUserByNameResponse_default db))"

end
