(* ===== verification/Auth_Theorems.thy ===== *)
theory Auth_Theorems
  imports Auth_Node "HOL-Library.Countable"
begin

text \<open>
  The properties of the auth node, over what SQL says of its statements (\<open>sqlite_spec\<close>) and what
  \<open>jwt-cpp\<close> says of a token that was signed and has not expired (\<open>jwt_spec\<close>). \<open>users\<close> is the
  content of the table, row by row.
\<close>

section \<open>What the code relies on\<close>

definition query_spec :: "('db, 'row) sqlite \<Rightarrow> ('db \<Rightarrow> User list) \<Rightarrow> bool" where
  "query_spec S users \<longleftrightarrow>
     (\<forall>db ps. users (snd (sq_step S db SelectUserName ps)) = users db \<and> users (snd (sq_step S db SelectLogin ps)) = users db) \<and>
     (\<forall>db n. case fst (sq_step S db SelectUserName [SqText n]) of
        SQLITE_ROW _ \<Rightarrow> n \<in> us_user_name ` set (users db)
      | SQLITE_DONE \<Rightarrow> n \<notin> us_user_name ` set (users db)
      | SQLITE_ERROR \<Rightarrow> True) \<and>
     (\<forall>db n p r. case fst (sq_step S db SelectLogin [SqText n, SqText p, SqInt (scast r)]) of
        SQLITE_ROW row \<Rightarrow>
          (\<exists>u \<in> set (users db). us_user_name u = n \<and> us_password u = p \<and> us_role u = r \<and>
             sq_column_int64 S row 0 = us_uid u \<and> sq_column_blob S row 1 = us_avatar u \<and>
             sq_column_int S row 2 = us_status u \<and> sq_column_int64 S row 3 = us_quota u \<and>
             sq_column_int64 S row 4 = us_create_time u)
      | SQLITE_DONE \<Rightarrow> \<not> (\<exists>u \<in> set (users db). us_user_name u = n \<and> us_password u = p \<and> us_role u = r)
      | SQLITE_ERROR \<Rightarrow> True)"

text \<open>A statement that is not done has changed nothing; the name is unique, the id new.\<close>

definition change_spec :: "('db, 'row) sqlite \<Rightarrow> ('db \<Rightarrow> User list) \<Rightarrow> bool" where
  "change_spec S users \<longleftrightarrow>
     (\<forall>db s ps. fst (sq_step S db s ps) \<noteq> SQLITE_DONE \<longrightarrow> users (snd (sq_step S db s ps)) = users db) \<and>
     (\<forall>db db' n p r st qu ct mt lt ip.
        sq_step S db InsertUser [SqText n, SqText p, SqInt (scast r), SqInt (scast st), SqInt qu,
          SqInt ct, SqInt mt, SqInt lt, SqText ip] = (SQLITE_DONE, db') \<longrightarrow>
        n \<notin> us_user_name ` set (users db) \<and>
        (\<exists>uid. uid \<notin> us_uid ` set (users db) \<and>
           users db' = users db @ [\<lparr>us_uid = uid, us_user_name = n, us_avatar = [], us_password = p, us_role = r,
             us_status = st, us_quota = qu, us_create_time = ct, us_modify_time = mt, us_last_access_time = lt,
             us_last_access_ip = ip\<rparr>])) \<and>
     (\<forall>db db' uid p. sq_step S db DeleteUser [SqInt uid, SqText p] = (SQLITE_DONE, db') \<longrightarrow>
        users db' = filter (\<lambda>u. \<not> (us_uid u = uid \<and> us_password u = p)) (users db)) \<and>
     (\<forall>db db' t ip uid. sq_step S db UpdateAccess [SqInt t, SqText ip, SqInt uid] = (SQLITE_DONE, db') \<longrightarrow>
        users db' =
          map (\<lambda>u. if us_uid u = uid then u\<lparr>us_last_access_time := t, us_last_access_ip := ip\<rparr> else u) (users db))"

definition sqlite_spec :: "('db, 'row) sqlite \<Rightarrow> ('db \<Rightarrow> User list) \<Rightarrow> bool" where
  "sqlite_spec S users \<longleftrightarrow> query_spec S users \<and> change_spec S users"


definition users_inv :: "User list \<Rightarrow> bool" where
  "users_inv us \<longleftrightarrow> distinct (map us_user_name us) \<and> distinct (map us_uid us)"

section \<open>The sections\<close>



definition registered :: "u64 \<Rightarrow> string \<Rightarrow> RegisterUserRequest \<Rightarrow> i64 \<Rightarrow> User" where
  "registered now ip q uid =
     \<lparr>us_uid = uid, us_user_name = ruq_user_name q, us_avatar = [], us_password = ruq_password q, us_role = ruq_role q,
       us_status = User_Status_kEnabled, us_quota = DEFAULT_USER_QUOTA_BYTES, us_create_time = now, us_modify_time = now,
       us_last_access_time = now, us_last_access_ip = ip\<rparr>"


lemma delete_done:
  "sqlite_spec S users \<Longrightarrow> sq_step S db DeleteUser [SqInt uid, SqText p] = (SQLITE_DONE, db') \<Longrightarrow>
     users db' = filter (\<lambda>u. \<not> (us_uid u = uid \<and> us_password u = p)) (users db)"
  by (simp add: sqlite_spec_def change_spec_def)





lemma delete_users:
  assumes "sqlite_spec S users" and "token_uid J (duq_token q) = Some uid" and "sq_prepare S db DeleteUser"
    and "fst (sq_step S db DeleteUser [SqInt uid, SqText (duq_password q)]) = SQLITE_DONE"
  shows "dur_status_code (snd (handle_delete_user_request S J q db)) = kOk"
    and "users (fst (handle_delete_user_request S J q db)) =
      filter (\<lambda>u. \<not> (us_uid u = uid \<and> us_password u = duq_password q)) (users db)"
proof -
  obtain db' where st: "sq_step S db DeleteUser [SqInt uid, SqText (duq_password q)] = (SQLITE_DONE, db')"
    using assms(4) by (metis prod.collapse)
  then have h: "handle_delete_user_request S J q db =
      (db', DeleteUserResponse_default\<lparr>dur_status_code := kOk, dur_message := msg_del_ok\<rparr>)"
    using assms(2,3) by (simp add: handle_delete_user_request_def)
  with delete_done [OF assms(1) st] show "dur_status_code (snd (handle_delete_user_request S J q db)) = kOk"
    "users (fst (handle_delete_user_request S J q db)) =
      filter (\<lambda>u. \<not> (us_uid u = uid \<and> us_password u = duq_password q)) (users db)" by simp_all
qed






section \<open>An instance\<close>

text \<open>
  A table that is a list of users, with the statements as list operations, and tokens that are
  their own content, numbered.
\<close>

definition ex_matches :: "string \<Rightarrow> string \<Rightarrow> i64 \<Rightarrow> User \<Rightarrow> bool" where
  "ex_matches n p r u \<longleftrightarrow> us_user_name u = n \<and> us_password u = p \<and> scast (us_role u) = r"

definition ex_insert :: "string \<Rightarrow> string \<Rightarrow> i64 \<Rightarrow> i64 \<Rightarrow> i64 \<Rightarrow> i64 \<Rightarrow> i64 \<Rightarrow> i64 \<Rightarrow> string \<Rightarrow> User list \<Rightarrow> User step_result \<times> User list" where
  "ex_insert n p r st qu ct mt lt ip us =
     (let uid = of_nat (length us) in
      if n \<in> us_user_name ` set us \<or> uid \<in> us_uid ` set us then (SQLITE_ERROR, us)
      else (SQLITE_DONE, us @ [\<lparr>us_uid = uid, us_user_name = n, us_avatar = [], us_password = p, us_role = scast r,
        us_status = scast st, us_quota = qu, us_create_time = ct, us_modify_time = mt, us_last_access_time = lt,
        us_last_access_ip = ip\<rparr>]))"

definition arg_text :: "sq_value list \<Rightarrow> nat \<Rightarrow> string" where
  "arg_text ps i = (case ps ! i of SqText t \<Rightarrow> t | SqInt _ \<Rightarrow> [])"

definition arg_int :: "sq_value list \<Rightarrow> nat \<Rightarrow> i64" where
  "arg_int ps i = (case ps ! i of SqInt v \<Rightarrow> v | SqText _ \<Rightarrow> 0)"

definition ex_row :: "User option \<Rightarrow> User step_result" where
  "ex_row r = (case r of Some u \<Rightarrow> SQLITE_ROW u | None \<Rightarrow> SQLITE_DONE)"

definition ex_sq_step :: "User list \<Rightarrow> sql \<Rightarrow> sq_value list \<Rightarrow> User step_result \<times> User list" where
  "ex_sq_step us s ps = (case s of
      CreateUserTable \<Rightarrow> (SQLITE_DONE, us)
    | SelectUserName \<Rightarrow> (ex_row (find (\<lambda>u. us_user_name u = arg_text ps 0) us), us)
    | SelectLogin \<Rightarrow> (ex_row (find (ex_matches (arg_text ps 0) (arg_text ps 1) (arg_int ps 2)) us), us)
    | InsertUser \<Rightarrow> ex_insert (arg_text ps 0) (arg_text ps 1) (arg_int ps 2) (arg_int ps 3) (arg_int ps 4) (arg_int ps 5)
        (arg_int ps 6) (arg_int ps 7) (arg_text ps 8) us
    | DeleteUser \<Rightarrow> (SQLITE_DONE, filter (\<lambda>u. \<not> (us_uid u = arg_int ps 0 \<and> us_password u = arg_text ps 1)) us)
    | UpdateAccess \<Rightarrow> (SQLITE_DONE, map (\<lambda>u. if us_uid u = arg_int ps 2
        then u\<lparr>us_last_access_time := arg_int ps 0, us_last_access_ip := arg_text ps 1\<rparr> else u) us))"

definition ex_sqlite :: "(User list, User) sqlite" where
  "ex_sqlite = \<lparr>sq_open = (\<lambda>_. Some []), sq_exec = (\<lambda>us _. (True, us)), sq_prepare = (\<lambda>_ _. True), sq_step = ex_sq_step,
     sq_column_int64 = (\<lambda>u i. if i = 0 then us_uid u else if i = 3 then us_quota u else us_create_time u),
     sq_column_int = (\<lambda>u _. us_status u), sq_column_blob = (\<lambda>u _. us_avatar u)\<rparr>"

lemma ex_sq_step_unchanged:
  "fst (ex_sq_step us s ps) \<noteq> SQLITE_DONE \<Longrightarrow> snd (ex_sq_step us s ps) = us"
  by (cases s) (auto simp: ex_sq_step_def ex_insert_def Let_def split: if_splits)

lemma ex_sq_step_query: "s = SelectUserName \<or> s = SelectLogin \<Longrightarrow> snd (ex_sq_step us s ps) = us"
  by (auto simp: ex_sq_step_def)

lemma scast_i32: "scast (scast (r :: i32) :: i64) = r"
  by (simp add: scast_up_scast_id is_up)

lemma scast_i32_inj: "(scast (r :: i32) :: i64) = scast s \<longleftrightarrow> r = s"
  by (metis scast_i32)

lemma ex_sqlite_simps [simp]:
  "sq_prepare ex_sqlite us s" "sq_step ex_sqlite = ex_sq_step" "sq_column_int64 ex_sqlite u 0 = us_uid u"
  "sq_column_blob ex_sqlite u i = us_avatar u" "sq_column_int ex_sqlite u 2 = us_status u"
  "sq_column_int64 ex_sqlite u 3 = us_quota u" "sq_column_int64 ex_sqlite u 4 = us_create_time u"
  by (simp_all add: ex_sqlite_def)

lemma ex_query_spec: "query_spec ex_sqlite (\<lambda>us. us)"
  unfolding query_spec_def
proof (intro conjI allI)
  fix us :: "User list" and n p :: string and r :: i32
  show "case fst (sq_step ex_sqlite us SelectUserName [SqText n]) of SQLITE_ROW _ \<Rightarrow> n \<in> us_user_name ` set us
      | SQLITE_DONE \<Rightarrow> n \<notin> us_user_name ` set us | SQLITE_ERROR \<Rightarrow> True"
  proof (cases "find (\<lambda>u. us_user_name u = n) us")
    case None
    then have "n \<notin> us_user_name ` set us" by (auto simp: find_None_iff)
    with None show ?thesis by (simp add: ex_sq_step_def arg_text_def ex_row_def)
  next
    case (Some u)
    then have "n \<in> us_user_name ` set us" by (auto simp: find_Some_iff)
    with Some show ?thesis by (simp add: ex_sq_step_def arg_text_def ex_row_def)
  qed
  show "case fst (sq_step ex_sqlite us SelectLogin [SqText n, SqText p, SqInt (scast r)]) of
      SQLITE_ROW row \<Rightarrow> \<exists>u \<in> set us. us_user_name u = n \<and> us_password u = p \<and> us_role u = r \<and>
        sq_column_int64 ex_sqlite row 0 = us_uid u \<and> sq_column_blob ex_sqlite row 1 = us_avatar u \<and>
        sq_column_int ex_sqlite row 2 = us_status u \<and> sq_column_int64 ex_sqlite row 3 = us_quota u \<and>
        sq_column_int64 ex_sqlite row 4 = us_create_time u
    | SQLITE_DONE \<Rightarrow> \<not> (\<exists>u \<in> set us. us_user_name u = n \<and> us_password u = p \<and> us_role u = r)
    | SQLITE_ERROR \<Rightarrow> True"
  proof (cases "find (ex_matches n p (scast r)) us")
    case None
    then have "\<not> (\<exists>u \<in> set us. us_user_name u = n \<and> us_password u = p \<and> us_role u = r)"
      by (auto simp: find_None_iff ex_matches_def)
    with None show ?thesis by (simp add: ex_sq_step_def arg_text_def arg_int_def ex_row_def)
  next
    case (Some u)
    then have "u \<in> set us" "ex_matches n p (scast r) u" by (auto simp: find_Some_iff)
    with Some show ?thesis
      by (auto simp: ex_sq_step_def arg_text_def arg_int_def ex_row_def ex_matches_def scast_i32_inj)
  qed
qed (simp_all add: ex_sq_step_query)

lemma ex_change_spec: "change_spec ex_sqlite (\<lambda>us. us)"
  unfolding change_spec_def
proof (intro conjI allI impI)
  fix us us' n p r st qu ct mt lt ip
  assume "sq_step ex_sqlite us InsertUser [SqText n, SqText p, SqInt (scast (r :: i32)), SqInt (scast (st :: i32)), SqInt qu,
    SqInt ct, SqInt mt, SqInt lt, SqText ip] = (SQLITE_DONE, us')"
  then have "ex_insert n p (scast r) (scast st) qu ct mt lt ip us = (SQLITE_DONE, us')"
    by (simp add: ex_sq_step_def arg_text_def arg_int_def)
  then show "n \<notin> us_user_name ` set us" and "\<exists>uid. uid \<notin> us_uid ` set us \<and> us' = us @
      [\<lparr>us_uid = uid, us_user_name = n, us_avatar = [], us_password = p, us_role = r, us_status = st, us_quota = qu,
        us_create_time = ct, us_modify_time = mt, us_last_access_time = lt, us_last_access_ip = ip\<rparr>]"
    by (auto simp: ex_insert_def Let_def scast_i32 split: if_splits)
qed (simp_all add: ex_sq_step_unchanged, auto simp: ex_sq_step_def arg_text_def arg_int_def)

lemma ex_sqlite_spec: "sqlite_spec ex_sqlite (\<lambda>us. us)"
  using ex_query_spec ex_change_spec by (simp add: sqlite_spec_def)

definition ex_tokens :: "(string \<times> string \<times> (string \<times> string) list) token_lib" where
  "ex_tokens = \<lparr>tl_jwt = \<lparr>jwt_decode = (\<lambda>s. Some (from_nat (length s))),
       jwt_verify = (\<lambda>iss secret (iss', secret', _). iss = iss' \<and> secret = secret'),
       jwt_claim = (\<lambda>(_, _, claims) k. map_of claims k)\<rparr>,
     tl_sign = (\<lambda>_ iss _ claims secret. replicate (to_nat (iss, secret, claims)) (CHR ''1''))\<rparr>"


section \<open>Properties\<close>


definition ex_register :: RegisterUserRequest where
  "ex_register = \<lparr>ruq_user_name = ''ann'', ruq_password = ''pw'', ruq_role = User_Role_kUser, ruq_admin_secret = []\<rparr>"

definition ex_user :: User where
  "ex_user = registered 5 ''ip'' ex_register 0"











text \<open>
  C33. A request with a valid token is answered with success whether or not the password is right:
  the right password removes exactly the user of the token, a wrong one removes nobody.
\<close>

theorem delete_user_effect:
  assumes "sqlite_spec S users" and "users_inv (users db)" and "token_uid J (duq_token q) = Some (us_uid u)"
    and "u \<in> set (users db)" and "sq_prepare S db DeleteUser"
    and "fst (sq_step S db DeleteUser [SqInt (us_uid u), SqText (duq_password q)]) = SQLITE_DONE"
  shows "dur_status_code (snd (handle_delete_user_request S J q db)) = kOk \<and>
    users (fst (handle_delete_user_request S J q db)) =
      (if us_password u = duq_password q then filter (\<lambda>v. v \<noteq> u) (users db) else users db)"
proof -
  note del = delete_users [OF assms(1,3,5,6)]
  have "us_uid v = us_uid u \<longleftrightarrow> v = u" if "v \<in> set (users db)" for v
    using assms(2,4) that by (auto simp: users_inv_def distinct_map dest: inj_onD)
  then have "filter (\<lambda>v. \<not> (us_uid v = us_uid u \<and> us_password v = duq_password q)) (users db) =
      (if us_password u = duq_password q then filter (\<lambda>v. v \<noteq> u) (users db) else users db)"
    by (auto intro!: filter_cong filter_True)
  with del show ?thesis by simp
qed

definition ex_token :: string where
  "ex_token = login_token ex_sqlite ex_tokens 7 \<lparr>luq_user_name = ''ann'', luq_password = ''pw'', luq_role = User_Role_kUser\<rparr> ex_user"

lemma ex_token_uid: "token_uid (tl_jwt ex_tokens) ex_token = Some (us_uid ex_user)"
  by (simp add: token_uid_def ex_token_def login_token_def ex_tokens_def stoll_int_to_string)

theorem delete_user_effect_witness:
  "dur_status_code (snd (handle_delete_user_request ex_sqlite (tl_jwt ex_tokens) \<lparr>duq_token = ex_token, duq_password = ''no''\<rparr> [ex_user])) = kOk \<and>
   fst (handle_delete_user_request ex_sqlite (tl_jwt ex_tokens) \<lparr>duq_token = ex_token, duq_password = ''no''\<rparr> [ex_user]) = [ex_user]"
proof -
  have "users_inv [ex_user]" by (simp add: users_inv_def)
  moreover have "us_password ex_user \<noteq> ''no''" by (simp add: ex_user_def registered_def ex_register_def)
  ultimately show ?thesis
    using delete_user_effect [OF ex_sqlite_spec, of "[ex_user]" "tl_jwt ex_tokens" "\<lparr>duq_token = ex_token, duq_password = ''no''\<rparr>" ex_user]
    by (simp add: ex_token_uid ex_sq_step_def)
qed

end
