(* ===== verification/Data_Node.thy ===== *)
theory Data_Node
  imports Common Wire_Messages
begin

text \<open>
  \<open>class DataNode\<close> (\<open>include/vosfs/storage/node.hpp\<close>, \<open>src/storage/node.cpp\<close>): a storage node
  keeps each block of a file as a file of its own, named after the inode and the block. The file
  API is outside the repository; \<open>block_api\<close> holds the calls made of it. \<open>File::write\<close> reports how
  many bytes it wrote, and the handler does not look at the number.
\<close>

record 'fs block_api =
  bf_exists :: "'fs \<Rightarrow> string \<Rightarrow> bool"
  bf_create_directories :: "'fs \<Rightarrow> string \<Rightarrow> bool \<times> 'fs"
  bf_create :: "'fs \<Rightarrow> string \<Rightarrow> bool \<times> 'fs"
  bf_write :: "'fs \<Rightarrow> string \<Rightarrow> string \<Rightarrow> nat option \<times> 'fs"
  bf_open :: "'fs \<Rightarrow> string \<Rightarrow> bool"
  bf_read_to_end :: "'fs \<Rightarrow> string \<Rightarrow> string option"

record DataNode =
  dn_id :: u64
  dn_host :: string
  dn_port :: u16
  dn_block_dir :: string

definition get_block_path :: "DataNode \<Rightarrow> u64 \<Rightarrow> u64 \<Rightarrow> string" where
  "get_block_path d ino block_id =
     (let block_name = to_string ino @ ''-'' @ to_string block_id in
      if dn_block_dir d = ''/'' then dn_block_dir d @ block_name else dn_block_dir d @ ''/'' @ block_name)"

definition make_upload_block_response :: "u32 \<Rightarrow> string \<Rightarrow> u64 \<Rightarrow> u64 \<Rightarrow> u64 \<Rightarrow> UploadBlockResponse" where
  "make_upload_block_response status_code message block_id ino data_node_id =
     UploadBlockResponse_default\<lparr>ubr_status_code := status_code, ubr_message := message,
       ubr_block_id := block_id, ubr_ino := ino, ubr_data_node_id := data_node_id\<rparr>"

definition make_download_block_response :: "u32 \<Rightarrow> string \<Rightarrow> u64 \<Rightarrow> u64 \<Rightarrow> u64 \<Rightarrow> string \<Rightarrow> DownloadBlockResponse" where
  "make_download_block_response status_code message block_id ino data_node_id data =
     DownloadBlockResponse_default\<lparr>dbr_status_code := status_code, dbr_message := message,
       dbr_block_id := block_id, dbr_ino := ino, dbr_data_node_id := data_node_id, dbr_data := data\<rparr>"

text \<open>The start of \<open>wait\<close>: without a block directory the node throws.\<close>

definition DataNode_wait :: "'fs block_api \<Rightarrow> DataNode \<Rightarrow> 'fs \<Rightarrow> 'fs outcome" where
  "DataNode_wait A d fs =
     (if bf_exists A fs (dn_block_dir d) then Done fs
      else case bf_create_directories A fs (dn_block_dir d) of
             (created, fs') \<Rightarrow> if created then Done fs' else Crashed)"

definition handle_upload_block_request ::
    "'fs block_api \<Rightarrow> 'tok jwt \<Rightarrow> DataNode \<Rightarrow> UploadBlockRequest \<Rightarrow> 'fs \<Rightarrow> 'fs \<times> UploadBlockResponse" where
  "handle_upload_block_request A J d request fs =
     (let block_id = ubq_block_id request; ino = ubq_ino request in
      if \<not> vertify_token J (ubq_token request)
      then (fs, make_upload_block_response kPermissionDenied msg_invalid_token block_id ino (dn_id d))
      else
        (let block_path = get_block_path d ino block_id in
         case bf_create A fs block_path of (created, fs1) \<Rightarrow>
           if \<not> created
           then (fs1, make_upload_block_response kInternal msg_block_create_failed block_id ino (dn_id d))
           else
             (case bf_write A fs1 block_path (ubq_data request) of (written, fs2) \<Rightarrow>
                if written = None
                then (fs2, make_upload_block_response kInternal msg_block_write_failed block_id ino (dn_id d))
                else (fs2, make_upload_block_response kOk msg_block_upload_ok block_id ino (dn_id d)))))"

definition handle_download_block_request ::
    "'fs block_api \<Rightarrow> 'tok jwt \<Rightarrow> DataNode \<Rightarrow> DownloadBlockRequest \<Rightarrow> 'fs \<Rightarrow> DownloadBlockResponse" where
  "handle_download_block_request A J d request fs =
     (let block_id = dbq_block_id request; ino = dbq_ino request in
      if \<not> vertify_token J (dbq_token request)
      then make_download_block_response kPermissionDenied msg_invalid_token block_id ino (dn_id d) []
      else
        (let block_path = get_block_path d ino block_id in
         if \<not> bf_open A fs block_path
         then make_download_block_response kInternal msg_block_read_failed block_id ino (dn_id d) []
         else
           (case bf_read_to_end A fs block_path of
              None \<Rightarrow> make_download_block_response kInternal msg_block_read_failed block_id ino (dn_id d) []
            | Some data \<Rightarrow> make_download_block_response kOk msg_block_read_ok block_id ino (dn_id d) data)))"

section \<open>What the code relies on in the file API\<close>

text \<open>
  \<open>view\<close> is the content of the disk by path: a created file is empty, a write into a file that
  was just created stores the bytes it reports, a file that exists opens, and reading it to the
  end either fails or returns its content.
\<close>

definition block_spec :: "'fs block_api \<Rightarrow> ('fs \<Rightarrow> string \<rightharpoonup> string) \<Rightarrow> bool" where
  "block_spec A view \<longleftrightarrow>
     (\<forall>fs p. fst (bf_create A fs p) \<longrightarrow> view (snd (bf_create A fs p)) = (view fs)(p \<mapsto> [])) \<and>
     (\<forall>fs p data k. view fs p = Some [] \<longrightarrow> fst (bf_write A fs p data) = Some k \<longrightarrow>
        k \<le> length data \<and> view (snd (bf_write A fs p data)) = (view fs)(p \<mapsto> take k data)) \<and>
     (\<forall>fs p. bf_open A fs p \<longleftrightarrow> view fs p \<noteq> None) \<and>
     (\<forall>fs p data. bf_read_to_end A fs p = Some data \<longrightarrow> view fs p = Some data)"

section \<open>Block paths\<close>

lemma to_string_no_dash: "CHR ''-'' \<notin> set (to_string w)"
  using nat_digits_range [of "CHR ''-''" "unat w"] by (auto simp: to_string_def)

lemma block_name_inj:
  assumes "to_string i @ ''-'' @ to_string b = to_string j @ ''-'' @ to_string c"
  shows "i = j \<and> b = c"
proof -
  have tw: "takeWhile (\<lambda>x. x \<noteq> CHR ''-'') (to_string w @ ''-'' @ r) = to_string w" for w r
    using to_string_no_dash [of w] by (auto simp: takeWhile_append)
  have "to_string i = to_string j" using arg_cong [OF assms, of "takeWhile (\<lambda>x. x \<noteq> CHR ''-'')"] by (simp only: tw)
  with assms show ?thesis by (simp add: to_string_inj)
qed

lemma get_block_path_inj [simp]: "get_block_path d i b = get_block_path d j c \<longleftrightarrow> i = j \<and> b = c"
  using block_name_inj [of i b j c] by (auto simp: get_block_path_def Let_def)

section \<open>Properties\<close>

lemma upload_block_stores:
  assumes spec: "block_spec A view" and ok: "ubr_status_code (snd (handle_upload_block_request A J d q fs)) = kOk"
  obtains k where "k \<le> length (ubq_data q)" and
    "view (fst (handle_upload_block_request A J d q fs)) =
       (view fs)(get_block_path d (ubq_ino q) (ubq_block_id q) \<mapsto> take k (ubq_data q))"
proof -
  let ?p = "get_block_path d (ubq_ino q) (ubq_block_id q)"
  obtain c fs1 where cr: "bf_create A fs ?p = (c, fs1)" by fastforce
  obtain w fs2 where wr: "bf_write A fs1 ?p (ubq_data q) = (w, fs2)" by fastforce
  from ok cr wr obtain k where c: c and k: "w = Some k" and r: "fst (handle_upload_block_request A J d q fs) = fs2"
    by (cases w) (auto simp: handle_upload_block_request_def Let_def make_upload_block_response_def split: if_splits)
  have v1: "view fs1 = (view fs)(?p \<mapsto> [])" using spec cr c unfolding block_spec_def by (metis fst_conv snd_conv)
  then have "view fs1 ?p = Some []" by simp
  then have "k \<le> length (ubq_data q) \<and> view fs2 = (view fs1)(?p \<mapsto> take k (ubq_data q))"
    using spec wr k unfolding block_spec_def by (metis fst_conv snd_conv)
  with v1 r show thesis by (intro that) simp_all
qed

text \<open>
  After a block upload that was answered with success, a download of the same block
  returns a prefix of the data: all of it when the write was complete, which the node does not
  check. Downloads of every other block see the disk as before.
\<close>

theorem block_upload_download:
  assumes "block_spec A view" and "ubr_status_code (snd (handle_upload_block_request A J d q fs)) = kOk"
    and "dbr_status_code (handle_download_block_request A J d r (fst (handle_upload_block_request A J d q fs))) = kOk"
  shows "if dbq_ino r = ubq_ino q \<and> dbq_block_id r = ubq_block_id q
    then \<exists>k \<le> length (ubq_data q).
      dbr_data (handle_download_block_request A J d r (fst (handle_upload_block_request A J d q fs))) = take k (ubq_data q)
    else view fs (get_block_path d (dbq_ino r) (dbq_block_id r)) =
      Some (dbr_data (handle_download_block_request A J d r (fst (handle_upload_block_request A J d q fs))))"
proof -
  let ?fs = "fst (handle_upload_block_request A J d q fs)" and ?p = "get_block_path d (dbq_ino r) (dbq_block_id r)"
  obtain k where k: "k \<le> length (ubq_data q)"
    "view ?fs = (view fs)(get_block_path d (ubq_ino q) (ubq_block_id q) \<mapsto> take k (ubq_data q))"
    using upload_block_stores [OF assms(1,2)] by blast
  from assms(3) have "bf_read_to_end A ?fs ?p = Some (dbr_data (handle_download_block_request A J d r ?fs))"
    by (auto simp: handle_download_block_request_def Let_def make_download_block_response_def
        split: if_splits option.splits)
  then have "view ?fs ?p = Some (dbr_data (handle_download_block_request A J d r ?fs))"
    using assms(1) unfolding block_spec_def by blast
  with k show ?thesis by (auto split: if_splits)
qed

definition ex_blocks :: "(string \<rightharpoonup> string) block_api" where
  "ex_blocks = \<lparr>bf_exists = (\<lambda>_ _. True), bf_create_directories = (\<lambda>fs _. (True, fs)),
     bf_create = (\<lambda>fs p. (True, fs(p \<mapsto> []))), bf_write = (\<lambda>fs p data. (Some (length data), fs(p \<mapsto> data))),
     bf_open = (\<lambda>fs p. fs p \<noteq> None), bf_read_to_end = (\<lambda>fs p. fs p)\<rparr>"

definition ex_token_ok :: "unit jwt" where
  "ex_token_ok = \<lparr>jwt_decode = (\<lambda>_. Some ()), jwt_verify = (\<lambda>_ _ _. True), jwt_claim = (\<lambda>_ _. None)\<rparr>"

definition ex_data_node :: DataNode where
  "ex_data_node = \<lparr>dn_id = 7, dn_host = ''h'', dn_port = 1, dn_block_dir = ''/b''\<rparr>"

definition ex_block :: UploadBlockRequest where
  "ex_block = \<lparr>ubq_token = [], ubq_block_id = 3, ubq_ino = 2, ubq_data = ''xyz''\<rparr>"

theorem block_upload_download_witness:
  "\<exists>k \<le> length (ubq_data ex_block).
     dbr_data (handle_download_block_request ex_blocks ex_token_ok ex_data_node (\<lparr>dbq_token = [], dbq_block_id = 3, dbq_ino = 2\<rparr>)
       (fst (handle_upload_block_request ex_blocks ex_token_ok ex_data_node ex_block Map.empty))) = take k (ubq_data ex_block)"
proof -
  let ?r = "\<lparr>dbq_token = [], dbq_block_id = 3, dbq_ino = 2\<rparr>"
  have t: "vertify_token ex_token_ok s" for s by (simp add: ex_token_ok_def vertify_token_def)
  have spec: "block_spec ex_blocks (\<lambda>fs. fs)" by (simp add: block_spec_def ex_blocks_def)
  have up: "ubr_status_code (snd (handle_upload_block_request ex_blocks ex_token_ok ex_data_node ex_block Map.empty)) = kOk"
    by (simp add: handle_upload_block_request_def Let_def t ex_blocks_def make_upload_block_response_def)
  have "dbr_status_code (handle_download_block_request ex_blocks ex_token_ok ex_data_node ?r
      (fst (handle_upload_block_request ex_blocks ex_token_ok ex_data_node ex_block Map.empty))) = kOk"
    by (simp add: handle_upload_block_request_def handle_download_block_request_def Let_def t ex_blocks_def ex_block_def
        make_download_block_response_def)
  from block_upload_download [OF spec up this] show ?thesis by (simp add: ex_block_def)
qed

end
