(* ===== verification/System_Theorems.thy ===== *)
theory System_Theorems
  imports Client_Theorems Auth_Theorems Data_Node Raft_Service
begin

text \<open>
  Properties that span the client and the servers: a file through the data nodes and back, the
  way to the leader, the session of a user.
\<close>

section \<open>Blocks that tile a file\<close>

lemma split_blocks_ranges:
  assumes "unat off + unat n < 2 ^ 64"
  shows "(\<Union>b \<in> set (split_blocks i off n). block_range b) = {unat off..<unat off + unat n}"
    and "\<forall>b \<in> set (split_blocks i off n). unat (bi_offset b) + unat (bi_size b) \<le> unat off + unat n"
  using assms
proof (induction i off n rule: split_blocks.induct)
  case (1 i off n)
  let ?B = VOSFS_BLOCK_SIZE
  {
    case 1
    show ?case
    proof (cases n rule: split_blocks_cases)
      case full
      have u: "unat (n - ?B) = unat n - unat ?B" "unat ?B \<le> unat n" using full by (simp_all add: unat_sub_le word_le_nat_alt)
      then have o: "unat (off + ?B) = unat off + unat ?B" using 1 by (simp add: unat_word_ariths)
      from "1.IH"(1) [OF full(1) refl full(2)] 1 u o full(2) show ?thesis
        by (auto simp: split_blocks_simps block_range_def)
    qed (simp_all add: split_blocks_simps block_range_def)
  next
    case 2
    show ?case
    proof (cases n rule: split_blocks_cases)
      case full
      have u: "unat (n - ?B) = unat n - unat ?B" "unat ?B \<le> unat n" using full by (simp_all add: unat_sub_le word_le_nat_alt)
      then have o: "unat (off + ?B) = unat off + unat ?B" using 2 by (simp add: unat_word_ariths)
      from "1.IH"(2) [OF full(1) refl full(2)] 2 u o full(2) show ?thesis by (auto simp: split_blocks_simps)
    qed (simp_all add: split_blocks_simps)
  }
qed

text \<open>The numbers, offsets and sizes of blocks, which the cluster leaves as the client chose them.\<close>

definition block_shape :: "BlockInfo \<Rightarrow> u64 \<times> u64 \<times> u64" where
  "block_shape b = (bi_id b, bi_offset b, bi_size b)"

definition cut_like :: "BlockInfo list \<Rightarrow> string \<Rightarrow> bool" where
  "cut_like bs f \<longleftrightarrow> f \<noteq> [] \<and> length f < 2 ^ 64 \<and> map block_shape bs = map block_shape (split_blocks 0 0 (of_nat (length f)))"

lemma cut_like_shape:
  assumes "cut_like bs f" and "b \<in> set bs"
  obtains b' where "b' \<in> set (split_blocks 0 0 (of_nat (length f)))" and "block_shape b = block_shape b'"
proof -
  have "block_shape b \<in> set (map block_shape bs)" using assms(2) by simp
  also have "map block_shape bs = map block_shape (split_blocks 0 0 (of_nat (length f)))" using assms(1) by (simp add: cut_like_def)
  finally show thesis using that by auto
qed

lemma cut_like_tiles:
  assumes "cut_like bs f"
  shows "tiles bs f"
proof -
  let ?n = "of_nat (length f) :: u64" and ?r = "\<lambda>(i :: u64, off :: u64, sz :: u64). {unat off..<unat off + unat sz}"
  have n: "unat ?n = length f" using assms by (simp add: cut_like_def unat_of_nat_small)
  then have s: "(\<Union>b \<in> set (split_blocks 0 0 ?n). block_range b) = {..<length f}"
    "\<forall>b \<in> set (split_blocks 0 0 ?n). unat (bi_offset b) + unat (bi_size b) \<le> length f"
    using split_blocks_ranges [of 0 ?n 0] assms by (simp_all add: cut_like_def atLeast0LessThan)
  have r: "block_range b = ?r (block_shape b)" for b by (simp add: block_range_def block_shape_def)
  have img: "block_range ` set xs = ?r ` set (map block_shape xs)" for xs
    unfolding set_map image_image by (rule image_cong [OF refl r])
  have "map block_shape bs = map block_shape (split_blocks 0 0 ?n)" using assms by (simp add: cut_like_def)
  then have "block_range ` set bs = block_range ` set (split_blocks 0 0 ?n)" by (simp only: img)
  then have "(\<Union>b \<in> set bs. block_range b) = {..<length f}" using s(1) by simp
  moreover have "unat (bi_offset b) + unat (bi_size b) \<le> length f" if b: "b \<in> set bs" for b
  proof -
    obtain b' where "b' \<in> set (split_blocks 0 0 ?n)" "block_shape b = block_shape b'" by (rule cut_like_shape [OF assms b])
    with s(2) show ?thesis by (simp add: block_shape_def)
  qed
  ultimately show ?thesis by (simp add: tiles_def)
qed

lemma cut_like_first:
  assumes "cut_like bs f"
  shows "0 \<in> bi_id ` set bs"
proof -
  let ?n = "of_nat (length f) :: u64"
  have "unat ?n \<noteq> 0" using assms by (simp add: cut_like_def unat_of_nat_small)
  then have "0 < ?n" by (simp add: word_less_nat_alt)
  then obtain b bs' where "split_blocks 0 0 ?n = b # bs'" "bi_id b = 0"
    by (cases ?n rule: split_blocks_cases) (simp_all add: split_blocks_simps)
  then have "fst (hd (map block_shape bs)) = 0" "map block_shape bs \<noteq> []" using assms by (auto simp: cut_like_def block_shape_def)
  then show ?thesis by (cases bs) (auto simp: block_shape_def)
qed

section \<open>The queue of the client\<close>

text \<open>A queue of coroutines each of which makes one call.\<close>

lemma sends_run:
  assumes "\<And>t q s. t \<in> set ts \<Longrightarrow> run_task E t (c\<lparr>vc_sent := s, vc_tasks := q\<rparr>) = Done (c\<lparr>vc_sent := s @ [f t], vc_tasks := q\<rparr>)"
  shows "process_tasks E (length ts) (c\<lparr>vc_sent := s, vc_tasks := ts\<rparr>) = Done (c\<lparr>vc_sent := s @ map f ts, vc_tasks := []\<rparr>)"
  using assms by (induction ts arbitrary: s) simp_all

section \<open>Blocks on the data nodes\<close>

text \<open>The disk of a data node after it has handled upload requests.\<close>

definition serve :: "'fs block_api \<Rightarrow> 'tok jwt \<Rightarrow> DataNode \<Rightarrow> UploadBlockRequest list \<Rightarrow> 'fs \<Rightarrow> 'fs" where
  "serve A J d qs fs = fold (\<lambda>q fs. fst (handle_upload_block_request A J d q fs)) qs fs"

text \<open>Files can be created, writes are complete, and what is there can be read.\<close>

definition disk_ok :: "'fs block_api \<Rightarrow> ('fs \<Rightarrow> string \<rightharpoonup> string) \<Rightarrow> bool" where
  "disk_ok A view \<longleftrightarrow> (\<forall>fs p data. fst (bf_create A fs p) \<and> fst (bf_write A fs p data) = Some (length data) \<and>
     (view fs p \<noteq> None \<longrightarrow> bf_read_to_end A fs p \<noteq> None))"

lemma upload_view:
  assumes "block_spec A view" and "disk_ok A view" and "vertify_token J (ubq_token q)"
  shows "view (fst (handle_upload_block_request A J d q fs)) =
    (view fs)(get_block_path d (ubq_ino q) (ubq_block_id q) \<mapsto> ubq_data q)"
proof -
  let ?p = "get_block_path d (ubq_ino q) (ubq_block_id q)"
  have "fst (bf_create A fs ?p)" using assms(2) by (simp add: disk_ok_def)
  then obtain fs1 where 1: "bf_create A fs ?p = (True, fs1)" by (cases "bf_create A fs ?p") auto
  have "fst (bf_write A fs1 ?p (ubq_data q)) = Some (length (ubq_data q))" using assms(2) by (simp add: disk_ok_def)
  then obtain fs2 where 2: "bf_write A fs1 ?p (ubq_data q) = (Some (length (ubq_data q)), fs2)"
    by (cases "bf_write A fs1 ?p (ubq_data q)") auto
  have v1: "view fs1 = (view fs)(?p \<mapsto> [])" using assms(1) [unfolded block_spec_def, THEN conjunct1, rule_format, of fs ?p] 1 by simp
  then have "view fs1 ?p = Some []" by simp
  then have "view fs2 = (view fs1)(?p \<mapsto> ubq_data q)"
    using assms(1) [unfolded block_spec_def, THEN conjunct2, THEN conjunct1, rule_format, of fs1 ?p "ubq_data q" "length (ubq_data q)"] 2
    by simp
  with v1 1 2 assms(3) show ?thesis by (simp add: handle_upload_block_request_def Let_def)
qed

lemma serve_keeps:
  assumes "block_spec A view" and "disk_ok A view" and "\<forall>q \<in> set qs. vertify_token J (ubq_token q)"
    and "\<forall>q \<in> set qs. get_block_path d (ubq_ino q) (ubq_block_id q) = p \<longrightarrow> ubq_data q = data"
    and "view fs p = Some data \<or> (\<exists>q \<in> set qs. get_block_path d (ubq_ino q) (ubq_block_id q) = p)"
  shows "view (serve A J d qs fs) p = Some data"
  using assms(3-5)
proof (induction qs arbitrary: fs)
  case (Cons q qs)
  let ?fs = "fst (handle_upload_block_request A J d q fs)"
  have "view ?fs = (view fs)(get_block_path d (ubq_ino q) (ubq_block_id q) \<mapsto> ubq_data q)"
    using Cons.prems(1) by (intro upload_view [OF assms(1,2)]) simp
  with Cons.prems have "view ?fs p = Some data \<or> (\<exists>q \<in> set qs. get_block_path d (ubq_ino q) (ubq_block_id q) = p)"
    by auto
  with Cons.IH [of ?fs] Cons.prems(1,2) show ?case by (simp add: serve_def)
qed (simp add: serve_def)

lemma download_answer:
  assumes "block_spec A view" and "disk_ok A view" and "vertify_token J (dbq_token q)"
    and "view fs (get_block_path d (dbq_ino q) (dbq_block_id q)) = Some data"
  shows "handle_download_block_request A J d q fs =
    make_download_block_response kOk msg_block_read_ok (dbq_block_id q) (dbq_ino q) (dn_id d) data"
proof -
  let ?p = "get_block_path d (dbq_ino q) (dbq_block_id q)"
  have "bf_open A fs ?p" using assms(1,4) unfolding block_spec_def by simp
  moreover obtain data' where "bf_read_to_end A fs ?p = Some data'" using assms(2,4) unfolding disk_ok_def by blast
  moreover from this have "view fs ?p = Some data'" using assms(1) unfolding block_spec_def by blast
  ultimately show ?thesis using assms(3,4) by (simp add: handle_download_block_request_def Let_def)
qed

section \<open>A file through the data nodes and back\<close>

text \<open>The client's local file can be read, completely, at every position.\<close>

definition readable :: "('fs, 'j, 'tok) client_env \<Rightarrow> 'fs \<Rightarrow> string \<Rightarrow> string \<Rightarrow> bool" where
  "readable E fs path f \<longleftrightarrow> ce_open E fs path = None \<and> (\<forall>off n. ce_seek E fs path off \<and> ce_read E fs path off n = Inr (file_slice f off n))"

definition data_nodes_known :: "'fs VosfsClient \<Rightarrow> BlockInfo list \<Rightarrow> bool" where
  "data_nodes_known c bs \<longleftrightarrow> (\<forall>b \<in> set bs. \<forall>i \<in> set (bi_data_node_id b). um_contains (vc_data_clients c) i)"

definition block_request :: "string \<Rightarrow> u64 \<Rightarrow> string \<Rightarrow> BlockInfo \<Rightarrow> UploadBlockRequest" where
  "block_request token ino f b = \<lparr>ubq_token = token, ubq_block_id = bi_id b, ubq_ino = ino, ubq_data = file_slice f (bi_offset b) (bi_size b)\<rparr>"

lemma block_nonempty:
  assumes "cut_like bs f" and "b \<in> set bs"
  shows "file_slice f (bi_offset b) (bi_size b) \<noteq> []"
proof -
  obtain b' where b': "b' \<in> set (split_blocks 0 0 (of_nat (length f)))" "block_shape b = block_shape b'"
    by (rule cut_like_shape [OF assms])
  have "0 < bi_size b" using split_blocks_bounds [OF b'(1)] b'(2) by (simp add: block_shape_def)
  moreover have "unat (bi_offset b) + unat (bi_size b) \<le> length f" using cut_like_tiles [OF assms(1)] assms(2) by (simp add: tiles_def)
  ultimately show ?thesis by (auto simp: file_slice_def word_less_nat_alt)
qed

text \<open>The calls that the queued uploads of a file make.\<close>

lemma uploads_sent:
  assumes "cut_like bs f" and "readable E (vc_disk u) path f" and "data_nodes_known u bs"
  shows "process_tasks E (length (block_sends path ino bs)) (u\<lparr>vc_sent := [], vc_tasks := block_sends path ino bs\<rparr>) =
    Done (u\<lparr>vc_tasks := [], vc_sent := concat (map (\<lambda>b. map (\<lambda>i. CallUploadBlock i (block_request (se_token (vc_session u)) ino f b))
      (bi_data_node_id b)) bs)\<rparr>)"
proof -
  let ?call = "\<lambda>t. case t of SendUploadBlock p k i off n d \<Rightarrow> CallUploadBlock d
    \<lparr>ubq_token = se_token (vc_session u), ubq_block_id = k, ubq_ino = i, ubq_data = file_slice f off n\<rparr>"
  have "run_task E t (u\<lparr>vc_sent := s, vc_tasks := q\<rparr>) = Done (u\<lparr>vc_sent := s @ [?call t], vc_tasks := q\<rparr>)"
    if t: "t \<in> set (block_sends path ino bs)" for t q s
  proof -
    from t obtain b i where b: "b \<in> set bs" "i \<in> set (bi_data_node_id b)"
      and t: "t = SendUploadBlock path (bi_id b) ino (bi_offset b) (bi_size b) i" by (auto simp: block_sends_def)
    have "um_find (vc_data_clients u) i \<noteq> None" using assms(3) b by (auto simp: data_nodes_known_def um_contains_def)
    with block_nonempty [OF assms(1) b(1)] assms(2) show ?thesis
      by (auto simp: t send_upload_block_request_def read_block_def readable_def call_data_node_def client_basics UploadBlockRequest_default_def)
  qed
  moreover have "map ?call (block_sends path ino bs) =
      concat (map (\<lambda>b. map (\<lambda>i. CallUploadBlock i (block_request (se_token (vc_session u)) ino f b)) (bi_data_node_id b)) bs)"
    by (simp add: block_sends_def map_concat comp_def block_request_def)
  ultimately show ?thesis using sends_run [of "block_sends path ino bs" E u ?call "[]"] by simp
qed

lemma downloads_sent:
  assumes "data_nodes_known c bs" and "placed_blocks ino bs"
  shows "process_tasks E (length bs) (c\<lparr>vc_sent := [], vc_tasks := map (\<lambda>b. SendDownloadBlock (bi_id b) ino (hd (bi_data_node_id b))) bs\<rparr>) =
    Done (c\<lparr>vc_tasks := [], vc_sent := map (\<lambda>b. CallDownloadBlock (hd (bi_data_node_id b))
      \<lparr>dbq_token = se_token (vc_session c), dbq_block_id = bi_id b, dbq_ino = ino\<rparr>) bs\<rparr>)"
proof -
  let ?ts = "map (\<lambda>b. SendDownloadBlock (bi_id b) ino (hd (bi_data_node_id b))) bs"
  let ?call = "\<lambda>t. case t of SendDownloadBlock k i d \<Rightarrow> CallDownloadBlock d
    \<lparr>dbq_token = se_token (vc_session c), dbq_block_id = k, dbq_ino = i\<rparr>"
  have "run_task E t (c\<lparr>vc_sent := s, vc_tasks := q\<rparr>) = Done (c\<lparr>vc_sent := s @ [?call t], vc_tasks := q\<rparr>)" if t: "t \<in> set ?ts" for t q s
  proof -
    from t obtain b where b: "b \<in> set bs" and t: "t = SendDownloadBlock (bi_id b) ino (hd (bi_data_node_id b))" by auto
    have "um_find (vc_data_clients c) (hd (bi_data_node_id b)) \<noteq> None"
      using assms b by (auto simp: data_nodes_known_def um_contains_def placed_blocks_def)
    then show ?thesis
      by (auto simp: t send_download_block_request_def call_data_node_def client_basics DownloadBlockRequest_default_def)
  qed
  then show ?thesis using sends_run [of ?ts E c ?call "[]"] by (simp add: comp_def)
qed

text \<open>What the data nodes answer, each with its disk.\<close>

definition data_answer ::
    "'dfs block_api \<Rightarrow> 'tok jwt \<Rightarrow> (u64 \<Rightarrow> DataNode) \<Rightarrow> (u64 \<Rightarrow> 'dfs) \<Rightarrow> rpc \<Rightarrow> DownloadBlockResponse" where
  "data_answer A J node disk call =
     (case call of CallDownloadBlock i q \<Rightarrow> handle_download_block_request A J (node i) q (disk i)
      | _ \<Rightarrow> DownloadBlockResponse_default)"

lemma uploaded_answers:
  assumes A: "block_spec A dview" "disk_ok A dview" and tok: "vertify_token J token" "vertify_token J token'"
    and bs: "placed_blocks ino bs"
    and Q: "\<And>i. set (Q i) = {q. \<exists>b \<in> set bs. i \<in> set (bi_data_node_id b) \<and> q = block_request token ino f b}"
    and calls: "mset calls = mset (map (\<lambda>b. CallDownloadBlock (hd (bi_data_node_id b))
      \<lparr>dbq_token = token', dbq_block_id = bi_id b, dbq_ino = ino\<rparr>) bs)"
  shows "block_answers ino bs f (map (data_answer A J node (\<lambda>i. serve A J (node i) (Q i) (disk i))) calls)"
proof -
  let ?disk = "\<lambda>i. serve A J (node i) (Q i) (disk i)"
    and ?q = "\<lambda>b. \<lparr>dbq_token = token', dbq_block_id = bi_id b, dbq_ino = ino\<rparr>"
  let ?call = "\<lambda>b. CallDownloadBlock (hd (bi_data_node_id b)) (?q b)"
  have same: "b' = b" if "b \<in> set bs" "b' \<in> set bs" "bi_id b' = bi_id b" for b b'
    using that bs inj_onD [of bi_id "set bs" b' b] by (simp add: placed_blocks_def distinct_map)
  have ans: "data_answer A J node ?disk (?call b) = make_download_block_response kOk msg_block_read_ok (bi_id b) ino
      (dn_id (node (hd (bi_data_node_id b)))) (file_slice f (bi_offset b) (bi_size b))" if b: "b \<in> set bs" for b
  proof -
    let ?i = "hd (bi_data_node_id b)"
    have i: "?i \<in> set (bi_data_node_id b)" using bs b by (simp add: placed_blocks_def)
    have "dview (?disk ?i) (get_block_path (node ?i) ino (bi_id b)) = Some (file_slice f (bi_offset b) (bi_size b))"
    proof (rule serve_keeps [OF A])
      show "\<forall>q \<in> set (Q ?i). vertify_token J (ubq_token q)" using tok(1) by (auto simp: Q block_request_def)
      show "\<forall>q \<in> set (Q ?i). get_block_path (node ?i) (ubq_ino q) (ubq_block_id q) = get_block_path (node ?i) ino (bi_id b) \<longrightarrow>
          ubq_data q = file_slice f (bi_offset b) (bi_size b)"
        by (auto simp: Q block_request_def dest: same [OF b])
      have "block_request token ino f b \<in> set (Q ?i)" using i b unfolding Q by blast
      then show "dview (disk ?i) (get_block_path (node ?i) ino (bi_id b)) = Some (file_slice f (bi_offset b) (bi_size b)) \<or>
          (\<exists>q \<in> set (Q ?i). get_block_path (node ?i) (ubq_ino q) (ubq_block_id q) = get_block_path (node ?i) ino (bi_id b))"
        by (intro disjI2 bexI [of _ "block_request token ino f b"]) (simp_all add: block_request_def)
    qed
    with download_answer [OF A, of J "?q b" "?disk ?i" "node ?i"] tok(2) show ?thesis by (simp add: data_answer_def)
  qed
  have set: "set calls = ?call ` set bs" using arg_cong [OF calls, of set_mset] by simp
  let ?id = "\<lambda>c. dbr_block_id (data_answer A J node ?disk c)"
  have "mset (map ?id calls) = mset (map ?id (map ?call bs))" unfolding mset_map [of ?id] calls ..
  also have "map ?id (map ?call bs) = map bi_id bs" using ans by (simp add: make_download_block_response_def)
  finally have M: "mset (map dbr_block_id (map (data_answer A J node ?disk) calls)) = mset (map bi_id bs)"
    by (simp add: comp_def image_mset.compositionality)
  have "distinct (map dbr_block_id (map (data_answer A J node ?disk) calls))"
    using mset_eq_imp_distinct_iff [OF M] bs by (simp only: placed_blocks_def)
  moreover have "dbr_block_id ` set (map (data_answer A J node ?disk) calls) = bi_id ` set bs"
    using mset_eq_setD [OF M] by (simp only: set_map)
  moreover have "dbr_ino r = ino \<and> dbr_status_code r = kOk \<and>
      (\<forall>b \<in> set bs. bi_id b = dbr_block_id r \<longrightarrow> dbr_data r = file_slice f (bi_offset b) (bi_size b))"
    if r: "r \<in> set (map (data_answer A J node ?disk) calls)" for r
  proof -
    obtain b where b: "b \<in> set bs" "r = data_answer A J node ?disk (?call b)" using r by (auto simp: set)
    have "b' = b" if "b' \<in> set bs" "bi_id b' = bi_id b" for b' using same [OF b(1) that] .
    then show ?thesis by (auto simp: b(2) ans [OF b(1)] make_download_block_response_def)
  qed
  ultimately show ?thesis unfolding block_answers_def by (intro conjI ballI) (assumption | blast)+
qed

text \<open>
  C3. A file that one client cuts into blocks and uploads, and that another client downloads, comes
  back byte for byte: the data nodes may handle the upload requests in any order and more than once,
  the answers to the download requests may arrive in any order, and nothing else on the disk of
  the second client changes. (Files can be opened, reads and writes are complete, tokens are
  valid, and the blocks are those the cluster recorded.)
\<close>

theorem file_survives:
  assumes "cut_like (pdr_blocks p) f" and "placed_blocks ino (pdr_blocks p)"
    and "readable E (vc_disk u) path f" and "data_nodes_known u (pdr_blocks p)" and "vertify_token J (se_token (vc_session u))"
    and "process_tasks E (length (block_sends path ino (pdr_blocks p)))
      (u\<lparr>vc_sent := [], vc_tasks := block_sends path ino (pdr_blocks p)\<rparr>) = Done u'"
    and "block_spec A dview" and "disk_ok A dview" and "\<And>i. set (Q i) = {q. CallUploadBlock i q \<in> set (vc_sent u')}"
    and "file_spec E' view" and "writable E' (pdr_local_path p)" and "view (vc_disk c) (pdr_local_path p) = None"
    and "client_wf c" and "um_find (vc_download_tasks c) ino = None" and "pdr_status_code p = kOk"
    and "data_nodes_known c (pdr_blocks p)" and "vertify_token J (se_token (vc_session c))" and "vc_tasks c = []" and "vc_sent c = []"
  shows "\<exists>c1 c2. handle_prepare_download_file_response (RpcStatus True m) p c = Done c1 \<and>
    process_tasks E' (length (pdr_blocks p)) c1 = Done c2 \<and>
    (\<forall>calls. mset calls = mset (vc_sent c2) \<longrightarrow>
      (\<exists>c3. run (handle_download_block_response E' (RpcStatus True m))
          (map (data_answer A J node (\<lambda>i. serve A J (node i) (Q i) (disk i))) calls) c2 = Done c3 \<and>
        view (vc_disk c3) = (view (vc_disk c))(pdr_local_path p \<mapsto> f) \<and> um_find (vc_download_tasks c3) ino = None))"
proof -
  let ?bs = "pdr_blocks p" and ?tok = "se_token (vc_session u)" and ?tok' = "se_token (vc_session c)"
  let ?answer = "data_answer A J node (\<lambda>i. serve A J (node i) (Q i) (disk i))"
  note tl = cut_like_tiles [OF assms(1)]
  have "vc_sent u' = concat (map (\<lambda>b. map (\<lambda>i. CallUploadBlock i (block_request ?tok ino f b)) (bi_data_node_id b)) ?bs)"
    using uploads_sent [OF assms(1,3,4)] assms(6) by auto
  then have Q: "set (Q i) = {q. \<exists>b \<in> set ?bs. i \<in> set (bi_data_node_id b) \<and> q = block_request ?tok ino f b}" for i
    by (auto simp: assms(9))
  obtain c1 t where 1: "handle_prepare_download_file_response (RpcStatus True m) p c = Done c1"
    "vc_tasks c1 = vc_tasks c @ map (\<lambda>b. SendDownloadBlock (bi_id b) ino (hd (bi_data_node_id b))) ?bs"
    "um_find (vc_download_tasks c1) ino = Some t" "fetched ino ?bs (pdr_local_path p) {} t" "\<not> vc_locked c1"
    "vc_disk c1 = vc_disk c" "vc_sent c1 = vc_sent c" "vc_session c1 = vc_session c" "vc_data_clients c1 = vc_data_clients c"
    by (rule prepare_download_starts [OF assms(13-15,2) cut_like_first [OF assms(1)]])
  let ?calls = "map (\<lambda>b. CallDownloadBlock (hd (bi_data_node_id b)) \<lparr>dbq_token = ?tok', dbq_block_id = bi_id b, dbq_ino = ino\<rparr>) ?bs"
  let ?c2 = "c1\<lparr>vc_tasks := [], vc_sent := ?calls\<rparr>"
  have "c1\<lparr>vc_sent := [], vc_tasks := map (\<lambda>b. SendDownloadBlock (bi_id b) ino (hd (bi_data_node_id b))) ?bs\<rparr> = c1"
    using 1(2,7) assms(18,19) by (cases c1) simp
  moreover have "data_nodes_known c1 ?bs" using assms(16) 1(9) by (simp add: data_nodes_known_def)
  ultimately have 2: "process_tasks E' (length ?bs) c1 = Done ?c2"
    using downloads_sent [of c1 ?bs ino E'] assms(2) 1(8) by simp
  have "\<exists>c3. run (handle_download_block_response E' (RpcStatus True m)) (map ?answer calls) ?c2 = Done c3 \<and>
      view (vc_disk c3) = (view (vc_disk c))(pdr_local_path p \<mapsto> f) \<and> um_find (vc_download_tasks c3) ino = None"
    if calls: "mset calls = mset (vc_sent ?c2)" for calls
  proof -
    have ans: "block_answers ino ?bs f (map ?answer calls)"
      by (rule uploaded_answers [OF assms(7,8,5,17,2) Q]) (use calls in simp)
    then have ids: "dbr_block_id ` set (map ?answer calls) = bi_id ` set ?bs" by (simp only: block_answers_def)
    have "\<not> vc_locked ?c2" "um_find (vc_download_tasks ?c2) ino = Some t" "view (vc_disk ?c2) (pdr_local_path p) = None"
      using 1(3,5,6) assms(12) by simp_all
    from download_prefix [OF assms(10,11,2) tl ans this(1,2) 1(4) this(3), of m "length calls"] obtain c3 where
      3: "run (handle_download_block_response E' (RpcStatus True m)) (map ?answer calls) ?c2 = Done c3"
      "downloading view (view (vc_disk c)) (pdr_local_path p) f ?bs (bi_id ` set ?bs) (vc_disk c3)"
      "um_find (vc_download_tasks c3) ino = None" using ids 1(6) by auto
    have "view (vc_disk c3) = (view (vc_disk c))(pdr_local_path p \<mapsto> f)"
      using downloading_complete [OF 3(2) tl] assms(2) by (simp add: placed_blocks_def)
    with 3(1,3) show ?thesis by blast
  qed
  with 1(1) 2 show ?thesis by blast
qed

definition ex_file_block :: BlockInfo where
  "ex_file_block = \<lparr>bi_id = 0, bi_ino = 2, bi_offset = 0, bi_size = 3, bi_data_node_id = [7, 8]\<rparr>"

definition ex_file_answer :: PrepareDownloadFileResponse where
  "ex_file_answer = \<lparr>pdr_status_code = kOk, pdr_message = [], pdr_local_path = ''./g'', pdr_remote_path = ''/f'', pdr_blocks = [ex_file_block]\<rparr>"

definition ex_requests :: "u64 \<Rightarrow> UploadBlockRequest list" where
  "ex_requests i = (if i = 7 \<or> i = 8 then [block_request [] 2 ''abc'' ex_file_block] else [])"

theorem file_survives_witness:
  "\<exists>c1 c2. handle_prepare_download_file_response (RpcStatus True []) ex_file_answer (ex_client Map.empty) = Done c1 \<and>
     process_tasks ex_client_env 1 c1 = Done c2 \<and>
     (\<exists>c3. run (handle_download_block_response ex_client_env (RpcStatus True []))
        (map (data_answer ex_blocks ex_token_ok (\<lambda>i. ex_data_node)
          (\<lambda>i. serve ex_blocks ex_token_ok ex_data_node (ex_requests i) Map.empty)) (vc_sent c2)) c2 = Done c3 \<and>
      vc_disk c3 = [''./g'' \<mapsto> ''abc''])"
proof -
  let ?u = "ex_client [''./f'' \<mapsto> ''abc'']" and ?c = "ex_client (Map.empty :: string \<rightharpoonup> string)" and ?bs = "pdr_blocks ex_file_answer"
  have bs: "?bs = [ex_file_block]" by (simp add: ex_file_answer_def)
  have "split_blocks 0 0 3 = [BlockInfo_default\<lparr>bi_id := 0, bi_offset := 0, bi_size := 3\<rparr>]"
    by (rule split_blocks_simps(2)) (simp_all add: VOSFS_BLOCK_SIZE_def)
  then have cut: "cut_like ?bs ''abc''" by (simp add: cut_like_def bs block_shape_def ex_file_block_def)
  have placed: "placed_blocks 2 ?bs" by (simp add: placed_blocks_def bs ex_file_block_def)
  have rd: "readable ex_client_env (vc_disk ?u) ''./f'' ''abc''"
    by (simp add: readable_def ex_client_env_def ex_client_def VosfsClient_new_def)
  have known: "data_nodes_known ?u ?bs" "data_nodes_known ?c ?bs"
    by (simp_all add: data_nodes_known_def bs ex_file_block_def ex_client_def VosfsClient_new_def um_contains_def um_find_def)
  have tok: "vertify_token ex_token_ok t" for t by (simp add: ex_token_ok_def vertify_token_def)
  have dsk: "block_spec ex_blocks (\<lambda>fs. fs)" "disk_ok ex_blocks (\<lambda>fs. fs)" by (simp_all add: block_spec_def disk_ok_def ex_blocks_def)
  note up = uploads_sent [OF cut rd known(1), of 2]
  have Q: "set (ex_requests i) = {q. CallUploadBlock i q \<in> set (vc_sent (?u\<lparr>vc_tasks := [], vc_sent := concat (map (\<lambda>b.
      map (\<lambda>i. CallUploadBlock i (block_request (se_token (vc_session ?u)) 2 ''abc'' b)) (bi_data_node_id b)) ?bs)\<rparr>))}" for i
    by (auto simp: ex_requests_def bs ex_file_block_def ex_client_def VosfsClient_new_def UserSession_default_def)
  have h: "vc_disk ?c (pdr_local_path ex_file_answer) = None" "client_wf ?c" "um_find (vc_download_tasks ?c) 2 = None"
    "pdr_status_code ex_file_answer = kOk" "vc_tasks ?c = []" "vc_sent ?c = []"
    by (simp_all add: ex_client_def VosfsClient_new_wf) (simp_all add: VosfsClient_new_def ex_file_answer_def)
  from file_survives [OF cut placed rd known(1) tok up dsk Q ex_client_env_spec(1,2) h(1-4) known(2) tok h(5,6), of "[]" "\<lambda>i. ex_data_node" "\<lambda>i. Map.empty"]
  obtain c1 c2 where
    "handle_prepare_download_file_response (RpcStatus True []) ex_file_answer ?c = Done c1"
    "process_tasks ex_client_env (length ?bs) c1 = Done c2"
    "\<exists>c3. run (handle_download_block_response ex_client_env (RpcStatus True [])) (map (data_answer ex_blocks ex_token_ok (\<lambda>i. ex_data_node)
        (\<lambda>i. serve ex_blocks ex_token_ok ex_data_node (ex_requests i) Map.empty)) (vc_sent c2)) c2 = Done c3 \<and>
      vc_disk c3 = (vc_disk ?c)(pdr_local_path ex_file_answer \<mapsto> ''abc'')"
    by blast
  then show ?thesis by (auto simp: bs ex_file_answer_def ex_client_def VosfsClient_new_def)
qed

section \<open>The way to the leader\<close>

text \<open>What becomes of the client when a node answers with the leader it knows.\<close>

definition redirected :: "('db, 'nfs) RaftNode \<Rightarrow> 'fs VosfsClient \<Rightarrow> 'fs VosfsClient outcome" where
  "redirected n c = (case rn_leader_id n of
     None \<Rightarrow> Crashed | Some i \<Rightarrow> Done (emit (AppendLog msg_redirect) (c\<lparr>vc_leader_id := i\<rparr>)))"

lemma redirect_leader_text: "redirect (leader_text n) c = redirected n c"
  by (simp add: redirect_def redirected_def leader_text_def stoull_to_string stoull_Nil split: option.splits)

text \<open>
  C27. The answer of a node that does not lead moves the client to the leader that the node knows,
  for each of the five requests, and the node is unchanged. A node that knows no leader answers
  with an empty text, and \<open>std::stoull\<close> throws in the client's handler.
\<close>

theorem redirect_follows_leader:
  assumes "rn_role n \<noteq> kLeader" and "vertify_token (env_jwt E) (ldq_token ld)" and "vertify_token (env_jwt E) (mdq_token md)"
    and "vertify_token (env_jwt E) (puq_token pu)" and "vertify_token (env_jwt E) (ufq_token uf)" and "vertify_token (env_jwt E) (pdq_token pd)"
  shows "handle_list_dir_response CE (RpcStatus True m) (handle_list_dir_request E ld n) c = redirected n c \<and>
    (\<exists>r. handle_make_dir_request E now h md n = (n, Some r) \<and> handle_make_dir_response (RpcStatus True m) r c = redirected n c) \<and>
    (\<exists>r. handle_prepare_upload_file_request E pu n = Done (n, r) \<and>
       handle_prepare_upload_file_response (RpcStatus True m) r c = redirected n c) \<and>
    (\<exists>r. handle_upload_file_request E h uf n = (n, Some r) \<and> handle_upload_file_response (RpcStatus True m) r c = redirected n c) \<and>
    handle_prepare_download_file_response (RpcStatus True m) (handle_prepare_download_file_request E pd n) c = redirected n c"
  using assms
  by (simp add: handle_list_dir_request_def handle_make_dir_request_def handle_prepare_upload_file_request_def
      handle_upload_file_request_def handle_prepare_download_file_request_def Let_def
      handle_list_dir_response_def handle_make_dir_response_def handle_prepare_upload_file_response_def
      handle_upload_file_response_def handle_prepare_download_file_response_def Status_is_not_leader_def msg_defs
      make_list_dir_response_def make_make_dir_response_def make_prepare_upload_file_response_def
      make_upload_file_response_def make_prepare_download_file_response_def redirect_leader_text)

theorem redirect_follows_leader_witness:
  "handle_list_dir_response ex_client_env (RpcStatus True []) (handle_list_dir_request ex_env ListDirRequest_default
      ((ex_follower [])\<lparr>rn_leader_id := Some 3\<rparr>)) (ex_client Map.empty) =
    Done (emit (AppendLog msg_redirect) ((ex_client Map.empty)\<lparr>vc_leader_id := 3\<rparr>)) \<and>
   handle_list_dir_response ex_client_env (RpcStatus True []) (handle_list_dir_request ex_env ListDirRequest_default
      ((ex_follower [])\<lparr>rn_leader_id := None\<rparr>)) (ex_client Map.empty) = Crashed"
proof -
  have "handle_list_dir_response ex_client_env (RpcStatus True []) (handle_list_dir_request ex_env ListDirRequest_default
      ((ex_follower [])\<lparr>rn_leader_id := x\<rparr>)) (ex_client Map.empty) =
    redirected ((ex_follower [])\<lparr>rn_leader_id := x\<rparr>) (ex_client Map.empty)" for x
    by (rule redirect_follows_leader [where md = MakeDirRequest_default and pu = PrepareUploadFileRequest_default
        and uf = UploadFileRequest_default and pd = PrepareDownloadFileRequest_default, THEN conjunct1])
      (simp_all add: ex_follower_def ex_node_def RaftNode_init_def default_defs)
  then show ?thesis by (simp add: redirected_def)
qed

section \<open>The session of a user\<close>








end
