(* ===== verification/Client_Main.thy ===== *)
theory Client_Main
  imports Client_State
begin

text \<open>
  The part of \<open>src/ui/main.cpp\<close> that is not Qt: the configuration of the client is written to
  \<open>config.json\<close> in the working directory, unless the file is there, and the client is created
  from it. Connecting it to the user interface and its thread is left out.
\<close>

definition main_config :: UiConfig where
  "main_config =
     ui_add_data_node 3 ''127.0.0.1'' 7072 (ui_add_data_node 2 ''127.0.0.1'' 7071 (ui_add_data_node 1 ''127.0.0.1'' 7070
     (ui_add_raft_node 2 ''127.0.0.1'' 8081 (ui_add_raft_node 1 ''127.0.0.1'' 8080
     (ui_set_auth_port 9000 (ui_set_auth_host ''127.0.0.1'' ui_options))))))"

definition ui_main :: "('fs, 'j, 'tok) client_env \<Rightarrow> 'fs \<Rightarrow> 'fs VosfsClient Result outcome" where
  "ui_main E fs =
     co_await (UiConfig_to_json (ce_texts E) (ce_json E) ''config.json'' main_config fs)
       (VosfsClient_create E ''config.json'')"

lemma main_config_nodes:
  "map fst (uc_raft_nodes main_config) = [1, 2]" "map fst (uc_data_nodes main_config) = [1, 2, 3]"
  "ui_clients (uc_raft_nodes main_config) = [(1, ''127.0.0.1'', 8080), (2, ''127.0.0.1'', 8081)]"
  "ui_clients (uc_data_nodes main_config) = [(1, ''127.0.0.1'', 7070), (2, ''127.0.0.1'', 7071), (3, ''127.0.0.1'', 7072)]"
  by code_simp+

lemma main_config_wf: "ui_nodes_wf (uc_raft_nodes main_config)" "ui_nodes_wf (uc_data_nodes main_config)"
  by code_simp+

text \<open>
  The first start, with no \<open>config.json\<close> and a directory that can be written to, gives a client
  that knows the auth node, the two raft nodes and the three data nodes of the program and
  addresses one of the raft nodes as the leader. Once the file is there, the nodes are those of
  the file, whatever the program has built in.
\<close>

theorem first_start:
  assumes "json_spec (ce_json E)" and "text_spec (ce_texts E)" and "\<And>s. fst (tf_write (ce_texts E) fs ''config.json'' s)"
    and "UiConfig_to_json (ce_texts E) (ce_json E) ''config.json'' main_config fs = Done fs'" and "\<not> tf_exists (ce_texts E) fs ''config.json''"
  shows "\<exists>c. ui_main E fs = Done (Inr c) \<and> vc_auth_client c = (''127.0.0.1'', 9000) \<and> vc_disk c = fs' \<and>
    um_find (vc_raft_clients c) (vc_leader_id c) = Some (''127.0.0.1'', 8080) \<and>
    set (um_keys (vc_raft_clients c)) = {1, 2} \<and> set (um_keys (vc_data_clients c)) = {1, 2, 3}"
proof -
  have "uc_auth_host main_config = ''127.0.0.1''" "uc_auth_port main_config = 9000" by code_simp+
  moreover note UiConfig_file_roundtrip [OF assms(1-3) main_config_wf assms(5,4)]
  ultimately show ?thesis
    using assms(4) by (simp add: ui_main_def VosfsClient_create_def main_config_nodes VosfsClient_new_def um_find_def um_keys_def)
qed

theorem later_start:
  assumes "tf_exists (ce_texts E) fs ''config.json''"
  shows "ui_main E fs = VosfsClient_create E ''config.json'' fs"
  using assms by (simp add: ui_main_def UiConfig_to_json_def)

end
