(* ===== verification/Resources.thy ===== *)
theory Resources
  imports Unordered_Map "HOL-Library.Multiset"
begin

text \<open>
  Objects that own handles of a library (pointers that are to be freed exactly once), with the
  move constructor, the move assignment and the destructor that the C++ code writes by hand. A
  program is a sequence of events on its variables; the store has the object of each variable and
  the handles the library has handed out and not yet freed. Freeing a handle that is not live is
  undefined behaviour (\<open>Crashed\<close>).
\<close>

type_synonym handle = nat

definition free_handle :: "handle \<Rightarrow> handle list \<Rightarrow> handle list outcome" where
  "free_handle p live = (if p \<in> set live then Done (remove1 p live) else Crashed)"

text \<open>A pointer that is freed unless it is null.\<close>

definition free_pointer :: "handle option \<Rightarrow> handle list \<Rightarrow> handle list outcome" where
  "free_pointer p live = (case p of None \<Rightarrow> Done live | Some h \<Rightarrow> free_handle h live)"

datatype 'a own_event =
    OwnCreate nat 'a
  | OwnMoveConstruct nat nat
  | OwnMoveAssign nat nat
  | OwnDestroy nat

type_synonym 'o own_state = "(nat, 'o) umap \<times> handle list"

text \<open>
  What C++ requires of the variables: a constructor makes a new variable from an existing one, the
  others need their variables to exist. An assignment may name the same variable twice.
\<close>

fun own_ok :: "'a own_event \<Rightarrow> 'o own_state \<Rightarrow> bool" where
  "own_ok (OwnCreate v a) s \<longleftrightarrow> \<not> um_contains (fst s) v"
| "own_ok (OwnMoveConstruct v w) s \<longleftrightarrow> \<not> um_contains (fst s) v \<and> um_contains (fst s) w"
| "own_ok (OwnMoveAssign v w) s \<longleftrightarrow> um_contains (fst s) v \<and> um_contains (fst s) w"
| "own_ok (OwnDestroy v) s \<longleftrightarrow> um_contains (fst s) v"

text \<open>
  \<open>make\<close> is the factory function, \<open>destroy\<close> the destructor, \<open>move\<close> the move constructor with what
  it leaves of its argument, \<open>assign\<close> the move assignment between two different objects, with what
  it leaves of the second. Assigning an object to itself is the early return of \<open>assign\<close>.
\<close>

fun own_step ::
    "('a \<Rightarrow> handle list \<Rightarrow> 'o option \<times> handle list) \<Rightarrow> ('o \<Rightarrow> handle list \<Rightarrow> handle list outcome) \<Rightarrow>
     ('o \<Rightarrow> 'o \<times> 'o) \<Rightarrow> ('o \<Rightarrow> 'o \<Rightarrow> handle list \<Rightarrow> ('o \<times> 'o \<times> handle list) outcome) \<Rightarrow>
     'a own_event \<Rightarrow> 'o own_state \<Rightarrow> 'o own_state outcome" where
  "own_step make destroy move assign (OwnCreate v a) (vars, live) =
     (if own_ok (OwnCreate v a) (vars, live)
      then (case make a live of
          (Some ob, live') \<Rightarrow> Done (um_assign v ob vars, live')
        | (None, live') \<Rightarrow> Done (vars, live'))
      else Crashed)"
| "own_step make destroy move assign (OwnMoveConstruct v w) (vars, live) =
     (if \<not> um_contains vars v
      then co_await (from_option (um_find vars w)) (\<lambda>other.
        case move other of (this, other') \<Rightarrow> Done (um_assign v this (um_assign w other' vars), live))
      else Crashed)"
| "own_step make destroy move assign (OwnMoveAssign v w) (vars, live) =
     co_await (from_option (um_find vars v)) (\<lambda>this.
     co_await (from_option (um_find vars w)) (\<lambda>other.
       if v = w then Done (vars, live)
       else co_await (assign this other live) (\<lambda>(this', other', live').
         Done (um_assign v this' (um_assign w other' vars), live'))))"
| "own_step make destroy move assign (OwnDestroy v) (vars, live) =
     co_await (from_option (um_find vars v)) (\<lambda>this.
     co_await (destroy this live) (\<lambda>live'. Done (um_erase v vars, live')))"

text \<open>The handles that the variables hold.\<close>

definition owned :: "('o \<Rightarrow> handle list) \<Rightarrow> (nat, 'o) umap \<Rightarrow> handle multiset" where
  "owned handles vars = (\<Sum>ob \<in># mset (um_values vars). mset (handles ob))"

lemma owned_empty [simp]: "owned handles [] = {#}"
  by (simp add: owned_def um_values_def)

lemma owned_Cons [simp]: "owned handles ((v, ob) # vars) = mset (handles ob) + owned handles vars"
  by (simp add: owned_def um_values_def)

lemma um_erase_absent: "um_find vars v = None \<Longrightarrow> um_erase v vars = vars"
  by (induction vars) (auto simp: um_find_def um_erase_def AList.delete_eq split: if_splits)

lemma owned_erase:
  assumes "um_wf vars" and "um_find vars v = Some ob"
  shows "owned handles vars = mset (handles ob) + owned handles (um_erase v vars)"
  using assms
proof (induction vars)
  case (Cons x vars)
  obtain w ob' where x: "x = (w, ob')" by (cases x)
  show ?case
  proof (cases "v = w")
    case True
    then have "um_find vars v = None" using Cons.prems(1) x by (auto simp: um_wf_def um_find_def map_of_eq_None_iff)
    with True Cons.prems(2) x show ?thesis
      by (simp add: um_find_def um_erase_def AList.delete_eq um_erase_absent [unfolded um_erase_def AList.delete_eq um_find_def])
  qed (use Cons x in \<open>simp add: um_wf_def um_find_def um_erase_def\<close>)
qed (simp add: um_find_def)

lemma owned_assign:
  assumes "um_wf vars"
  shows "owned handles (um_assign v ob vars) = mset (handles ob) + owned handles (um_erase v vars)"
  using assms
proof (induction vars)
  case (Cons x vars)
  obtain w ob' where x: "x = (w, ob')" by (cases x)
  show ?case
  proof (cases "v = w")
    case True
    then have "um_find vars v = None" using Cons.prems x by (auto simp: um_wf_def um_find_def map_of_eq_None_iff)
    with True x show ?thesis
      by (simp add: um_assign_def um_erase_def AList.delete_eq um_erase_absent [unfolded um_erase_def AList.delete_eq])
  qed (use Cons x in \<open>simp add: um_wf_def um_assign_def um_erase_def\<close>)
qed (simp add: um_assign_def um_erase_def)

lemma owned_assign_new:
  "um_wf vars \<Longrightarrow> \<not> um_contains vars v \<Longrightarrow> owned handles (um_assign v ob vars) = mset (handles ob) + owned handles vars"
  by (simp add: owned_assign um_contains_def um_erase_absent)

lemma owned_replace:
  assumes "um_wf vars" and "um_find vars v = Some ob"
  shows "owned handles (um_assign v ob' vars) + mset (handles ob) = owned handles vars + mset (handles ob')"
  using owned_erase [OF assms, of handles] by (simp add: owned_assign [OF assms(1)])

lemma free_pointer_frees:
  assumes "mset (case p of None \<Rightarrow> [] | Some h \<Rightarrow> [h]) \<subseteq># mset live"
  obtains live' where "free_pointer p live = Done live'" and "mset live = mset live' + mset (case p of None \<Rightarrow> [] | Some h \<Rightarrow> [h])"
  using assms that by (auto simp: free_pointer_def free_handle_def split: option.splits)

section \<open>The interface of an owner\<close>

text \<open>
  What such a class promises: the factory may leave a handle behind only when it is not \<open>tight\<close>,
  the destructor frees what the object holds, a move takes the handles over and leaves none.
\<close>

locale resource_owner =
  fixes handles :: "'o \<Rightarrow> handle list"
    and make :: "'a \<Rightarrow> handle list \<Rightarrow> 'o option \<times> handle list"
    and destroy :: "'o \<Rightarrow> handle list \<Rightarrow> handle list outcome"
    and move :: "'o \<Rightarrow> 'o \<times> 'o"
    and assign :: "'o \<Rightarrow> 'o \<Rightarrow> handle list \<Rightarrow> ('o \<times> 'o \<times> handle list) outcome"
    and lawful :: bool
    and tight :: bool
  assumes make_distinct: "lawful \<Longrightarrow> distinct live \<Longrightarrow> distinct (snd (make a live))"
    and make_grows: "lawful \<Longrightarrow> mset live + mset (case fst (make a live) of None \<Rightarrow> [] | Some ob \<Rightarrow> handles ob) \<subseteq># mset (snd (make a live))"
    and make_tight: "lawful \<Longrightarrow> tight \<Longrightarrow>
      mset (snd (make a live)) = mset live + mset (case fst (make a live) of None \<Rightarrow> [] | Some ob \<Rightarrow> handles ob)"
    and destroy_frees: "mset (handles ob) \<subseteq># mset live \<Longrightarrow>
      \<exists>live'. destroy ob live = Done live' \<and> mset live = mset live' + mset (handles ob)"
    and move_takes: "move ob = (this, other) \<Longrightarrow> handles this = handles ob \<and> handles other = []"
    and assign_takes: "mset (handles ob) \<subseteq># mset live \<Longrightarrow>
      \<exists>this other live'. assign ob ob' live = Done (this, other, live') \<and> handles this = handles ob' \<and> handles other = [] \<and>
        mset live = mset live' + mset (handles ob)"
begin

text \<open>Every handle held is live, and held once; in a tight program every live handle is held.\<close>

definition balanced :: "'o own_state \<Rightarrow> bool" where
  "balanced s \<longleftrightarrow> um_wf (fst s) \<and> distinct (snd s) \<and> owned handles (fst s) \<subseteq># mset (snd s) \<and>
     (tight \<longrightarrow> owned handles (fst s) = mset (snd s))"

lemma owned_held:
  assumes "balanced (vars, live)" and "um_find vars v = Some ob"
  shows "mset (handles ob) \<subseteq># mset live"
proof -
  have "mset (handles ob) \<subseteq># owned handles vars" using owned_erase [OF _ assms(2)] assms(1) by (simp add: balanced_def)
  also have "\<dots> \<subseteq># mset live" using assms(1) by (simp add: balanced_def)
  finally show ?thesis .
qed

lemma distinct_less: "distinct live \<Longrightarrow> mset live = mset live' + M \<Longrightarrow> distinct live'"
  by (metis distinct_append ex_mset mset_append mset_eq_imp_distinct_iff)

lemma release_balanced:
  assumes "balanced (vars, live)" and "um_wf vars'" and "mset live = mset live' + M" and "owned handles vars' + M = owned handles vars"
  shows "balanced (vars', live')"
proof -
  have "owned handles vars' + M \<subseteq># mset live' + M" using assms by (simp add: balanced_def)
  moreover have "owned handles vars' = mset live'" if tight
  proof -
    have "tight \<longrightarrow> owned handles vars = mset live" using assms(1) by (simp add: balanced_def)
    then have "owned handles vars' + M = mset live' + M" using assms(3,4) that by simp
    then show ?thesis by simp
  qed
  ultimately show ?thesis using assms(1,2) distinct_less [OF _ assms(3)] by (simp add: balanced_def)
qed

lemma create_balanced:
  assumes "balanced (vars, live)" and "lawful" and "own_step make destroy move assign (OwnCreate v a) (vars, live) = Done s"
  shows "balanced s"
proof -
  obtain r live' where m: "make a live = (r, live')" by (cases "make a live")
  have d: "distinct live'" using make_distinct [OF assms(2), of live a] assms(1) m by (simp add: balanced_def)
  have g: "mset live + mset (case r of None \<Rightarrow> [] | Some ob \<Rightarrow> handles ob) \<subseteq># mset live'" using make_grows [OF assms(2), of live a] m by simp
  have t: "tight \<Longrightarrow> mset live' = mset live + mset (case r of None \<Rightarrow> [] | Some ob \<Rightarrow> handles ob)"
    using make_tight [OF assms(2), of a live] m by simp
  have b: "um_wf vars" "owned handles vars \<subseteq># mset live" using assms(1) by (simp_all add: balanced_def)
  have "owned handles vars + mset (case r of None \<Rightarrow> [] | Some ob \<Rightarrow> handles ob) \<subseteq># mset live'"
    using subset_mset.add_right_mono [OF b(2)] g by (rule subset_mset.trans)
  moreover have "owned handles (fst s) = owned handles vars + mset (case r of None \<Rightarrow> [] | Some ob \<Rightarrow> handles ob)" "snd s = live'" "um_wf (fst s)"
    using assms(3) m b(1) by (auto simp: owned_assign_new split: option.splits if_splits)
  ultimately show ?thesis using d t assms(1) by (auto simp: balanced_def)
qed

lemma own_progress:
  assumes "balanced s" and "own_ok e s"
  shows "\<exists>s'. own_step make destroy move assign e s = Done s'"
proof -
  obtain vars live where s: "s = (vars, live)" by (cases s)
  note held = owned_held [OF assms(1) [unfolded s]]
  show ?thesis
  proof (cases e)
    case (OwnMoveAssign v w)
    with assms(2) s obtain a b where ab: "um_find vars v = Some a" "um_find vars w = Some b" by (auto simp: um_contains_def)
    obtain this other live' where "assign a b live = Done (this, other, live')" using assign_takes [OF held [OF ab(1)]] by blast
    with OwnMoveAssign s ab show ?thesis by auto
  next
    case (OwnDestroy v)
    with assms(2) s obtain a where a: "um_find vars v = Some a" by (auto simp: um_contains_def)
    with destroy_frees [OF held [OF a]] OwnDestroy s show ?thesis by auto
  qed (use assms(2) s in \<open>auto simp: um_contains_def split: prod.splits option.splits\<close>)
qed

lemma own_step_balanced:
  assumes "balanced s" and "lawful" and "own_step make destroy move assign e s = Done s'"
  shows "balanced s'"
proof -
  obtain vars live where s: "s = (vars, live)" by (cases s)
  note held = owned_held [OF assms(1) [unfolded s]]
  have wf: "um_wf vars" and d: "distinct live" and sub: "owned handles vars \<subseteq># mset live"
    and tight: "tight \<longrightarrow> owned handles vars = mset live" using assms(1) s by (simp_all add: balanced_def)
  show ?thesis
  proof (cases e)
    case (OwnCreate v a)
    then show ?thesis using create_balanced [OF assms(1) [unfolded s] assms(2)] assms(3) s by simp
  next
    case (OwnMoveConstruct v w)
    with assms(3) s obtain b x y where b: "um_find vars w = Some b" and m: "move b = (x, y)" and v: "\<not> um_contains vars v"
      and s': "s' = (um_assign v x (um_assign w y vars), live)"
      by (cases "um_find vars w") (auto split: if_splits prod.splits)
    have "w \<noteq> v" using b v by (auto simp: um_contains_def)
    then have "owned handles (fst s') = owned handles vars"
      using owned_replace [OF wf b, of handles y] move_takes [OF m] owned_assign_new [of "um_assign w y vars" v handles x] wf v s'
      by (simp add: um_contains_def add.commute)
    with s' wf d sub tight show ?thesis by (simp add: balanced_def)
  next
    case (OwnMoveAssign v w)
    with assms(3) s obtain a b where ab: "um_find vars v = Some a" "um_find vars w = Some b"
      by (auto simp: co_await_Done_iff from_option_Done_iff)
    show ?thesis
    proof (cases "v = w")
      case True
      with OwnMoveAssign assms(1,3) s ab show ?thesis by simp
    next
      case False
      obtain x y live' where x: "assign a b live = Done (x, y, live')" "handles x = handles b" "handles y = []"
        "mset live = mset live' + mset (handles a)" using assign_takes [OF held [OF ab(1)]] by blast
      have s': "s' = (um_assign v x (um_assign w y vars), live')" using OwnMoveAssign assms(3) s ab x False by simp
      have "owned handles (fst s') + mset (handles a) = owned handles vars"
        using owned_replace [OF wf ab(2), of handles y] owned_replace [of "um_assign w y vars" v a handles x] wf ab(1) False x(2,3) s'
        by (simp add: add.commute)
      with release_balanced [OF assms(1) [unfolded s] _ x(4), of "fst s'"] s' wf show ?thesis by simp
    qed
  next
    case (OwnDestroy v)
    with assms(3) s obtain a where a: "um_find vars v = Some a" by (auto simp: co_await_Done_iff from_option_Done_iff)
    obtain live' where x: "destroy a live = Done live'" "mset live = mset live' + mset (handles a)" using destroy_frees [OF held [OF a]] by blast
    then have s': "s' = (um_erase v vars, live')" using OwnDestroy assms(3) s a by simp
    have "owned handles (fst s') + mset (handles a) = owned handles vars" using owned_erase [OF wf a] s' by simp
    with release_balanced [OF assms(1) [unfolded s] _ x(2), of "fst s'"] s' wf show ?thesis by simp
  qed
qed

lemma reachable_balanced:
  assumes "reachable (own_step make destroy move assign) (\<lambda>_. lawful) ([], []) s"
  shows "balanced s"
  using assms
proof (induction rule: reachable.induct)
  case start
  then show ?case by (simp add: balanced_def um_wf_def)
next
  case (step s e s')
  then show ?case by (blast intro: own_step_balanced)
qed

end

end
