(* ===== verification/Engine_Handles.thy ===== *)
theory Engine_Handles
  imports Resources Common
begin

text \<open>
  The other half of \<open>class RocksDBEngine\<close> (\<open>include/vosfs/common/util/rocksdb_engine.hpp\<close>): opening
  a database, and the hand-written destructor, move constructor and move assignment of its two
  pointers. RocksDB is the parameter \<open>rocksdb_lib\<close>; a call that makes an object is given the
  handles that are live, and \<open>rocksdb_lib_spec\<close> says that the new object is not one of them.
\<close>

record rocksdb_lib =
  lib_create_directories :: "string \<Rightarrow> bool"
  lib_open :: "handle list \<Rightarrow> string \<Rightarrow> handle option"
  lib_checkpoint :: "handle list \<Rightarrow> handle \<Rightarrow> handle option"
  lib_write_checkpoint :: "handle \<Rightarrow> string \<Rightarrow> bool"

definition rocksdb_lib_spec :: "rocksdb_lib \<Rightarrow> bool" where
  "rocksdb_lib_spec L \<longleftrightarrow>
     (\<forall>live path h. lib_open L live path = Some h \<longrightarrow> h \<notin> set live) \<and>
     (\<forall>live db h. lib_checkpoint L live db = Some h \<longrightarrow> h \<notin> set live)"

record ('w, 'r) RocksDBEngine =
  en_db :: "handle option"
  en_checkpoint :: "handle option"
  en_write_options :: 'w
  en_read_options :: 'r

definition engine_create ::
    "rocksdb_lib \<Rightarrow> 'w \<Rightarrow> 'r \<Rightarrow> string \<Rightarrow> handle list \<Rightarrow> ('w, 'r) RocksDBEngine Result \<times> handle list" where
  "engine_create L write_options read_options db_path live =
     (if \<not> lib_create_directories L db_path then (Inl (make_error kDatabaseConnectionFailed), live)
      else
        (case lib_open L live db_path of
           None \<Rightarrow> (Inl (make_error kDatabaseConnectionFailed), live)
         | Some db \<Rightarrow>
             (let live = db # live in
              case lib_checkpoint L live db of
                None \<Rightarrow> (Inl (make_error kDatabaseConnectionFailed), live)
              | Some checkpoint \<Rightarrow>
                  (Inr \<lparr>en_db = Some db, en_checkpoint = Some checkpoint, en_write_options = write_options,
                     en_read_options = read_options\<rparr>, checkpoint # live))))"

definition engine_destroy :: "('w, 'r) RocksDBEngine \<Rightarrow> handle list \<Rightarrow> handle list outcome" where
  "engine_destroy this live = co_await (free_pointer (en_db this) live) (free_pointer (en_checkpoint this))"

definition engine_move :: "('w, 'r) RocksDBEngine \<Rightarrow> ('w, 'r) RocksDBEngine \<times> ('w, 'r) RocksDBEngine" where
  "engine_move other =
     (\<lparr>en_db = en_db other, en_checkpoint = en_checkpoint other, en_write_options = en_write_options other,
        en_read_options = en_read_options other\<rparr>,
      other\<lparr>en_db := None, en_checkpoint := None\<rparr>)"

text \<open>The assignment behind the test for the object itself: free, take over, clear the other.\<close>

definition engine_move_assign ::
    "('w, 'r) RocksDBEngine \<Rightarrow> ('w, 'r) RocksDBEngine \<Rightarrow> handle list
     \<Rightarrow> (('w, 'r) RocksDBEngine \<times> ('w, 'r) RocksDBEngine \<times> handle list) outcome" where
  "engine_move_assign this other live =
     co_await (free_pointer (en_db this) live) (\<lambda>live.
     co_await (free_pointer (en_checkpoint this) live) (\<lambda>live.
       Done (this\<lparr>en_db := en_db other, en_checkpoint := en_checkpoint other, en_write_options := en_write_options other,
               en_read_options := en_read_options other\<rparr>,
             other\<lparr>en_db := None, en_checkpoint := None\<rparr>, live)))"

definition set_write_options :: "'w \<Rightarrow> ('w, 'r) RocksDBEngine \<Rightarrow> ('w, 'r) RocksDBEngine" where
  "set_write_options write_options this = this\<lparr>en_write_options := write_options\<rparr>"

definition set_read_options :: "'r \<Rightarrow> ('w, 'r) RocksDBEngine \<Rightarrow> ('w, 'r) RocksDBEngine" where
  "set_read_options read_options this = this\<lparr>en_read_options := read_options\<rparr>"

text \<open>On an engine that was moved from, the call goes through a null pointer.\<close>

definition create_checkpoint :: "rocksdb_lib \<Rightarrow> string \<Rightarrow> ('w, 'r) RocksDBEngine \<Rightarrow> bool outcome" where
  "create_checkpoint L snap_path this =
     co_await (from_option (en_checkpoint this)) (\<lambda>checkpoint. Done (lib_write_checkpoint L checkpoint snap_path))"

section \<open>Ownership\<close>

definition engine_handles :: "('w, 'r) RocksDBEngine \<Rightarrow> handle list" where
  "engine_handles e = (case en_db e of None \<Rightarrow> [] | Some h \<Rightarrow> [h]) @ (case en_checkpoint e of None \<Rightarrow> [] | Some h \<Rightarrow> [h])"

definition engine_make ::
    "rocksdb_lib \<Rightarrow> 'w \<times> 'r \<times> string \<Rightarrow> handle list \<Rightarrow> ('w, 'r) RocksDBEngine option \<times> handle list" where
  "engine_make L a live =
     (case a of (write_options, read_options, db_path) \<Rightarrow>
        case engine_create L write_options read_options db_path live of (r, live') \<Rightarrow> (case r of Inl e \<Rightarrow> None | Inr e \<Rightarrow> Some e, live'))"

definition checkpoints_made :: "rocksdb_lib \<Rightarrow> bool" where
  "checkpoints_made L \<longleftrightarrow> (\<forall>live db. lib_checkpoint L live db \<noteq> None)"

definition engine_step ::
    "rocksdb_lib \<Rightarrow> ('w \<times> 'r \<times> string) own_event \<Rightarrow> ('w, 'r) RocksDBEngine own_state \<Rightarrow> ('w, 'r) RocksDBEngine own_state outcome" where
  "engine_step L = own_step (engine_make L) engine_destroy engine_move engine_move_assign"

lemma free_pointers:
  assumes "mset (engine_handles e) \<subseteq># mset live"
  obtains live1 live2 where "free_pointer (en_db e) live = Done live1" and "free_pointer (en_checkpoint e) live1 = Done live2"
    and "mset live = mset live2 + mset (engine_handles e)"
proof -
  let ?D = "mset (case en_db e of None \<Rightarrow> [] | Some h \<Rightarrow> [h])" and ?C = "mset (case en_checkpoint e of None \<Rightarrow> [] | Some h \<Rightarrow> [h])"
  have h: "mset (engine_handles e) = ?D + ?C" by (simp add: engine_handles_def)
  have "?D \<subseteq># mset live" using assms by (simp add: h subset_mset.add_increasing2 mset_subset_eq_add_left [THEN subset_mset.trans])
  then obtain live1 where 1: "free_pointer (en_db e) live = Done live1" "mset live = mset live1 + ?D" by (rule free_pointer_frees)
  have "?C \<subseteq># mset live1" using assms 1(2) by (simp add: h add.commute)
  then obtain live2 where 2: "free_pointer (en_checkpoint e) live1 = Done live2" "mset live1 = mset live2 + ?C" by (rule free_pointer_frees)
  have "mset live = mset live2 + mset (engine_handles e)" by (simp add: 1(2) 2(2) h ac_simps)
  with 1(1) 2(1) show thesis by (rule that)
qed

interpretation engine: resource_owner engine_handles "engine_make L" engine_destroy engine_move engine_move_assign
    "rocksdb_lib_spec L" "checkpoints_made L" for L
proof
  fix live :: "handle list" and a :: "'a \<times> 'b \<times> string"
  assume L: "rocksdb_lib_spec L"
  show "distinct (snd (engine_make L a live))" if "distinct live"
    using that L by (force simp: engine_make_def engine_create_def rocksdb_lib_spec_def Let_def split: prod.splits option.splits)
  show "mset live + mset (case fst (engine_make L a live) of None \<Rightarrow> [] | Some ob \<Rightarrow> engine_handles ob) \<subseteq># mset (snd (engine_make L a live))"
    by (auto simp: engine_make_def engine_create_def engine_handles_def Let_def split: prod.splits option.splits)
  show "mset (snd (engine_make L a live)) = mset live + mset (case fst (engine_make L a live) of None \<Rightarrow> [] | Some ob \<Rightarrow> engine_handles ob)"
    if made: "checkpoints_made L"
  proof -
    obtain w r path where a: "a = (w, r, path)" by (cases a)
    show ?thesis
    proof (cases "lib_open L live path")
      case (Some db)
      obtain cp where "lib_checkpoint L (db # live) db = Some cp" using made by (auto simp: checkpoints_made_def)
      with Some show ?thesis by (simp add: a engine_make_def engine_create_def engine_handles_def Let_def)
    qed (simp add: a engine_make_def engine_create_def)
  qed
next
  fix e e' :: "('a, 'b) RocksDBEngine" and live :: "handle list"
  assume "mset (engine_handles e) \<subseteq># mset live"
  then obtain live1 live2 where l: "free_pointer (en_db e) live = Done live1" "free_pointer (en_checkpoint e) live1 = Done live2"
    "mset live = mset live2 + mset (engine_handles e)" by (rule free_pointers)
  then show "\<exists>live'. engine_destroy e live = Done live' \<and> mset live = mset live' + mset (engine_handles e)"
    by (simp add: engine_destroy_def)
  from l show "\<exists>this other live'. engine_move_assign e e' live = Done (this, other, live') \<and> engine_handles this = engine_handles e' \<and>
      engine_handles other = [] \<and> mset live = mset live' + mset (engine_handles e)"
    by (simp add: engine_move_assign_def engine_handles_def)
next
  fix e this other :: "('a, 'b) RocksDBEngine"
  assume "engine_move e = (this, other)"
  then show "engine_handles this = engine_handles e \<and> engine_handles other = []"
    by (auto simp: engine_move_def engine_handles_def)
qed

lemma engine_reachable_balanced:
  assumes "rocksdb_lib_spec L" and "reachable (engine_step L) (\<lambda>_. True) ([], []) s"
  shows "engine.balanced L s"
proof -
  have "reachable (engine_step L) (\<lambda>_. rocksdb_lib_spec L) ([], []) s" using assms(1) by (simp add: assms(2))
  then show ?thesis by (rule engine.reachable_balanced [folded engine_step_def])
qed

text \<open>
  C39. However a program creates, moves, assigns and destroys engines, also an engine to itself,
  no pointer is freed twice: every well-formed operation ends, the pointers the engines hold are
  live and held by one engine each, and none is lost, so that none is left when all engines are
  destroyed, as long as RocksDB makes every checkpoint object it is asked for.
\<close>

theorem handles_freed_once:
  assumes "rocksdb_lib_spec L" and "reachable (engine_step L) (\<lambda>_. True) ([], []) s" and "own_ok e s"
  shows "(\<exists>s'. engine_step L e s = Done s') \<and> distinct (snd s) \<and> owned engine_handles (fst s) \<subseteq># mset (snd s) \<and>
    (checkpoints_made L \<longrightarrow> owned engine_handles (fst s) = mset (snd s))"
proof -
  note b = engine_reachable_balanced [OF assms(1,2)]
  from engine.own_progress [OF b assms(3)] b show ?thesis by (simp add: engine_step_def engine.balanced_def)
qed

definition ex_lib :: rocksdb_lib where
  "ex_lib = \<lparr>lib_create_directories = (\<lambda>_. True), lib_open = (\<lambda>live _. Some (Suc (sum_list live))),
     lib_checkpoint = (\<lambda>live _. Some (Suc (sum_list live))), lib_write_checkpoint = (\<lambda>_ _. True)\<rparr>"

lemma ex_lib_spec: "rocksdb_lib_spec ex_lib"
proof -
  have "Suc (sum_list live) \<notin> set live" for live :: "nat list"
    using member_le_sum_list [of "Suc (sum_list live)" live] by auto
  then show ?thesis by (simp add: rocksdb_lib_spec_def ex_lib_def)
qed

text \<open>How the engine reaches the node: made, moved into the persister, moved again, the leftovers destroyed.\<close>

definition ex_engine_moves :: "(unit \<times> unit \<times> string) own_event list" where
  "ex_engine_moves = [OwnCreate 0 ((), (), ''db''), OwnMoveConstruct 1 0, OwnDestroy 0, OwnCreate 0 ((), (), ''db''), OwnMoveAssign 1 0]"

theorem handles_freed_once_witness:
  "\<exists>s s'. run (engine_step ex_lib) ex_engine_moves ([], []) = Done s \<and> engine_step ex_lib (OwnDestroy 0) s = Done s' \<and>
     owned engine_handles (fst s) = mset (snd s)"
proof -
  let ?s = "([(1, \<lparr>en_db = Some 4, en_checkpoint = Some 8, en_write_options = (), en_read_options = ()\<rparr>),
     (0, \<lparr>en_db = None, en_checkpoint = None, en_write_options = (), en_read_options = ()\<rparr>)], [8, 4]) :: (unit, unit) RocksDBEngine own_state"
  have r: "run (engine_step ex_lib) ex_engine_moves ([], []) = Done ?s" by code_simp
  have ok: "own_ok (OwnDestroy 0 :: (unit \<times> unit \<times> string) own_event) ?s" by (simp add: um_contains_def um_find_def)
  have "checkpoints_made ex_lib" by (simp add: checkpoints_made_def ex_lib_def)
  with handles_freed_once [OF ex_lib_spec run_reachable [OF r] ok] r show ?thesis by blast
qed

text \<open>
  When the checkpoint object cannot be made, \<open>create\<close> fails and leaves the open database behind:
  no object owns its pointer.
\<close>

theorem engine_create_leaks:
  assumes "lib_create_directories L path" and "lib_open L live path = Some db" and "lib_checkpoint L (db # live) db = None"
  shows "engine_create L w r path live = (Inl (make_error kDatabaseConnectionFailed), db # live)"
  using assms by (simp add: engine_create_def)

end
