(* ===== verification/Redis_Client.thy ===== *)
theory Redis_Client
  imports Resources Common Std_Text
begin

text \<open>
  \<open>class RedisClient\<close> (\<open>include/vosfs/common/util/redis_client.hpp\<close>): a connection with four
  commands. The library \<open>hiredis\<close> and the server are the parameter \<open>redis_lib\<close>: \<open>rd_connect\<close> gives
  no context, or one and whether its error flag is set; \<open>rd_command\<close> sends the arguments of a
  command to a server. The code passes \<open>data()\<close> of its arguments as C strings, which end at
  the first zero byte (\<open>c_str\<close>); the arguments are views of whole, terminated strings.
\<close>

datatype redis_reply =
    ReplyString string | ReplyArray | ReplyInteger int | ReplyNil | ReplyStatus string | ReplyError string

record 'srv redis_lib =
  rd_connect :: "handle list \<Rightarrow> string \<Rightarrow> int \<Rightarrow> (handle \<times> bool) option"
  rd_command :: "'srv \<Rightarrow> string list \<Rightarrow> redis_reply option \<times> 'srv"

definition c_str :: "string \<Rightarrow> string" where
  "c_str s = takeWhile (\<lambda>c. c \<noteq> CHR 0x00) s"

record RedisClient =
  rc_context :: "handle option"

section \<open>Connection\<close>

definition redis_create :: "'srv redis_lib \<Rightarrow> string \<Rightarrow> int \<Rightarrow> handle list \<Rightarrow> RedisClient Result outcome \<times> handle list" where
  "redis_create R ip port live =
     (case rd_connect R live (c_str ip) port of
        None \<Rightarrow> (Done (Inl (make_error kDatabaseConnectionFailed)), live)
      | Some (context, err) \<Rightarrow>
          (let live = context # live in
           if err
           then (case free_handle context live of
               Done live' \<Rightarrow> (Done (Inl (make_error kDatabaseConnectionFailed)), live')
             | _ \<Rightarrow> (Crashed, live))
           else (Done (Inr \<lparr>rc_context = Some context\<rparr>), live)))"

definition redis_destroy :: "RedisClient \<Rightarrow> handle list \<Rightarrow> handle list outcome" where
  "redis_destroy this live = free_pointer (rc_context this) live"

definition redis_move :: "RedisClient \<Rightarrow> RedisClient \<times> RedisClient" where
  "redis_move other = (\<lparr>rc_context = rc_context other\<rparr>, other\<lparr>rc_context := None\<rparr>)"

definition redis_move_assign :: "RedisClient \<Rightarrow> RedisClient \<Rightarrow> handle list \<Rightarrow> (RedisClient \<times> RedisClient \<times> handle list) outcome" where
  "redis_move_assign this other live =
     co_await (free_pointer (rc_context this) live)
       (\<lambda>live. Done (this\<lparr>rc_context := rc_context other\<rparr>, other\<lparr>rc_context := None\<rparr>, live))"

section \<open>Commands\<close>

definition redis_get :: "'srv redis_lib \<Rightarrow> string \<Rightarrow> 'srv \<Rightarrow> string Result \<times> 'srv" where
  "redis_get R key srv =
     (case rd_command R srv [''GET'', c_str key] of (reply, srv') \<Rightarrow>
        (case reply of
           None \<Rightarrow> (Inl (make_error kDatabaseQueryFailed), srv')
         | Some ReplyNil \<Rightarrow> (Inl (make_error kDatabaseQueryFailed), srv')
         | Some (ReplyString str) \<Rightarrow> (Inr str, srv')
         | Some _ \<Rightarrow> (Inl (make_error kDatabaseQueryFailed), srv')))"

text \<open>The test of the reply to \<open>SET\<close>.\<close>

definition set_reply :: "redis_reply option \<Rightarrow> unit Result" where
  "set_reply reply =
     (case reply of
        None \<Rightarrow> Inl (make_error kDatabaseInsertFailed)
      | Some (ReplyStatus str) \<Rightarrow> if c_str str = ''OK'' then Inr () else Inl (make_error kDatabaseInsertFailed)
      | Some _ \<Rightarrow> Inl (make_error kDatabaseInsertFailed))"

definition redis_set :: "'srv redis_lib \<Rightarrow> string \<Rightarrow> string \<Rightarrow> 'srv \<Rightarrow> unit Result \<times> 'srv" where
  "redis_set R key value srv =
     (case rd_command R srv [''SET'', c_str key, c_str value] of (reply, srv') \<Rightarrow> (set_reply reply, srv'))"

definition redis_set_timeout :: "'srv redis_lib \<Rightarrow> string \<Rightarrow> string \<Rightarrow> int \<Rightarrow> 'srv \<Rightarrow> unit Result \<times> 'srv" where
  "redis_set_timeout R key value timeout srv =
     (case rd_command R srv [''SET'', c_str key, c_str value, ''EX'', int_to_string timeout] of (reply, srv') \<Rightarrow>
        (set_reply reply, srv'))"

definition redis_del :: "'srv redis_lib \<Rightarrow> string \<Rightarrow> 'srv \<Rightarrow> unit Result \<times> 'srv" where
  "redis_del R key srv =
     (case rd_command R srv [''DEL'', c_str key] of (reply, srv') \<Rightarrow>
        (case reply of
           None \<Rightarrow> (Inl (make_error kDatabaseDeleteFailed), srv')
         | Some (ReplyInteger n) \<Rightarrow> (if n > 0 then Inr () else Inl (make_error kDatabaseDeleteFailed), srv')
         | Some _ \<Rightarrow> (Inl (make_error kDatabaseDeleteFailed), srv')))"

definition redis_exists :: "'srv redis_lib \<Rightarrow> string \<Rightarrow> 'srv \<Rightarrow> bool Result \<times> 'srv" where
  "redis_exists R key srv =
     (case rd_command R srv [''EXISTS'', c_str key] of (reply, srv') \<Rightarrow>
        (case reply of
           None \<Rightarrow> (Inl (make_error kDatabaseQueryFailed), srv')
         | Some (ReplyInteger n) \<Rightarrow> (Inr (n = 1), srv')
         | Some _ \<Rightarrow> (Inl (make_error kDatabaseQueryFailed), srv')))"

section \<open>Ownership of the context\<close>

definition redis_lib_spec :: "'srv redis_lib \<Rightarrow> bool" where
  "redis_lib_spec R \<longleftrightarrow> (\<forall>live ip port h err. rd_connect R live ip port = Some (h, err) \<longrightarrow> h \<notin> set live)"

definition redis_handles :: "RedisClient \<Rightarrow> handle list" where
  "redis_handles c = (case rc_context c of None \<Rightarrow> [] | Some h \<Rightarrow> [h])"

definition redis_make :: "'srv redis_lib \<Rightarrow> string \<times> int \<Rightarrow> handle list \<Rightarrow> RedisClient option \<times> handle list" where
  "redis_make R a live =
     (case a of (ip, port) \<Rightarrow>
        case redis_create R ip port live of (r, live') \<Rightarrow> (case r of Done (Inr c) \<Rightarrow> Some c | _ \<Rightarrow> None, live'))"

definition redis_step :: "'srv redis_lib \<Rightarrow> (string \<times> int) own_event \<Rightarrow> RedisClient own_state \<Rightarrow> RedisClient own_state outcome" where
  "redis_step R = own_step (redis_make R) redis_destroy redis_move redis_move_assign"

lemma redis_create_returns: "fst (redis_create R ip port live) \<noteq> Crashed"
  by (simp add: redis_create_def free_handle_def Let_def split: option.splits)

interpretation redis: resource_owner redis_handles "redis_make R" redis_destroy redis_move redis_move_assign "redis_lib_spec R" True for R
proof
  fix live :: "handle list" and a
  assume R: "redis_lib_spec R"
  note defs = redis_make_def redis_create_def redis_handles_def free_handle_def Let_def
  show "distinct (snd (redis_make R a live))" if "distinct live"
    using that R by (force simp: defs redis_lib_spec_def split: prod.splits option.splits)
  show "mset live + mset (case fst (redis_make R a live) of None \<Rightarrow> [] | Some ob \<Rightarrow> redis_handles ob) \<subseteq># mset (snd (redis_make R a live))"
    by (auto simp: defs split: prod.splits option.splits)
  show "mset (snd (redis_make R a live)) = mset live + mset (case fst (redis_make R a live) of None \<Rightarrow> [] | Some ob \<Rightarrow> redis_handles ob)"
    by (auto simp: defs split: prod.splits option.splits)
next
  fix c c' :: RedisClient and live :: "handle list"
  assume "mset (redis_handles c) \<subseteq># mset live"
  then obtain live' where f: "free_pointer (rc_context c) live = Done live'" "mset live = mset live' + mset (redis_handles c)"
    unfolding redis_handles_def by (rule free_pointer_frees)
  then show "\<exists>live'. redis_destroy c live = Done live' \<and> mset live = mset live' + mset (redis_handles c)"
    by (simp add: redis_destroy_def)
  from f show "\<exists>this other live'. redis_move_assign c c' live = Done (this, other, live') \<and> redis_handles this = redis_handles c' \<and>
      redis_handles other = [] \<and> mset live = mset live' + mset (redis_handles c)"
    by (auto simp: redis_move_assign_def redis_handles_def)
qed (auto simp: redis_move_def redis_handles_def)

text \<open>A context is freed exactly once, whatever is done with the clients, and none is lost.\<close>

theorem contexts_freed_once:
  assumes "redis_lib_spec R" and "reachable (redis_step R) (\<lambda>_. True) ([], []) s" and "own_ok e s"
  shows "(\<exists>s'. redis_step R e s = Done s') \<and> distinct (snd s) \<and> owned redis_handles (fst s) = mset (snd s)"
proof -
  have "reachable (redis_step R) (\<lambda>_. redis_lib_spec R) ([], []) s" using assms(1) by (simp add: assms(2))
  then have b: "redis.balanced s" by (rule redis.reachable_balanced [folded redis_step_def])
  from redis.own_progress [OF b assms(3)] b show ?thesis by (simp add: redis_step_def redis.balanced_def)
qed

section \<open>The store behind the commands\<close>

text \<open>
  The documented answers of a server that is up, over the strings it stores: \<open>SET\<close> stores,
  \<open>GET\<close> answers with the value or nil, \<open>DEL\<close> and \<open>EXISTS\<close> with the number of keys.
\<close>

definition redis_spec :: "'srv redis_lib \<Rightarrow> ('srv \<Rightarrow> string \<rightharpoonup> string) \<Rightarrow> bool" where
  "redis_spec R view \<longleftrightarrow>
     (\<forall>srv k. fst (rd_command R srv [''GET'', k]) = Some (case view srv k of None \<Rightarrow> ReplyNil | Some v \<Rightarrow> ReplyString v) \<and>
        view (snd (rd_command R srv [''GET'', k])) = view srv) \<and>
     (\<forall>srv k v. fst (rd_command R srv [''SET'', k, v]) = Some (ReplyStatus ''OK'') \<and>
        view (snd (rd_command R srv [''SET'', k, v])) = (view srv)(k \<mapsto> v)) \<and>
     (\<forall>srv k. fst (rd_command R srv [''DEL'', k]) = Some (ReplyInteger (if view srv k = None then 0 else 1)) \<and>
        view (snd (rd_command R srv [''DEL'', k])) = (view srv)(k := None)) \<and>
     (\<forall>srv k. fst (rd_command R srv [''EXISTS'', k]) = Some (ReplyInteger (if view srv k = None then 0 else 1)) \<and>
        view (snd (rd_command R srv [''EXISTS'', k])) = view srv)"

lemma c_str_id: "CHR 0x00 \<notin> set s \<Longrightarrow> c_str s = s"
  unfolding c_str_def by (rule takeWhile_eq_all_conv [THEN iffD2]) auto

text \<open>The four commands act on the key and the value up to the first zero byte.\<close>

lemma redis_get_spec:
  assumes "redis_spec R view"
  shows "\<exists>srv'. redis_get R key srv =
    (case view srv (c_str key) of None \<Rightarrow> Inl (make_error kDatabaseQueryFailed) | Some v \<Rightarrow> Inr v, srv') \<and> view srv' = view srv"
proof -
  obtain srv' where "rd_command R srv [''GET'', c_str key] =
      (Some (case view srv (c_str key) of None \<Rightarrow> ReplyNil | Some v \<Rightarrow> ReplyString v), srv')" and "view srv' = view srv"
    using assms unfolding redis_spec_def by (metis prod.collapse)
  then show ?thesis by (cases "view srv (c_str key)") (simp_all add: redis_get_def)
qed

lemma redis_set_spec:
  assumes "redis_spec R view"
  shows "\<exists>srv'. redis_set R key value srv = (Inr (), srv') \<and> view srv' = (view srv)(c_str key \<mapsto> c_str value)"
proof -
  obtain srv' where "rd_command R srv [''SET'', c_str key, c_str value] = (Some (ReplyStatus ''OK''), srv')"
    and "view srv' = (view srv)(c_str key \<mapsto> c_str value)"
    using assms unfolding redis_spec_def by (metis prod.collapse)
  then show ?thesis by (simp add: redis_set_def set_reply_def c_str_def)
qed

lemma redis_del_spec:
  assumes "redis_spec R view"
  shows "\<exists>srv'. redis_del R key srv =
    (if view srv (c_str key) = None then Inl (make_error kDatabaseDeleteFailed) else Inr (), srv') \<and> view srv' = (view srv)(c_str key := None)"
proof -
  obtain srv' where "rd_command R srv [''DEL'', c_str key] = (Some (ReplyInteger (if view srv (c_str key) = None then 0 else 1)), srv')"
    and "view srv' = (view srv)(c_str key := None)"
    using assms unfolding redis_spec_def by (metis prod.collapse)
  then show ?thesis by (simp add: redis_del_def)
qed

lemma redis_exists_spec:
  assumes "redis_spec R view"
  shows "\<exists>srv'. redis_exists R key srv = (Inr (view srv (c_str key) \<noteq> None), srv') \<and> view srv' = view srv"
proof -
  obtain srv' where "rd_command R srv [''EXISTS'', c_str key] = (Some (ReplyInteger (if view srv (c_str key) = None then 0 else 1)), srv')"
    and "view srv' = view srv"
    using assms unfolding redis_spec_def by (metis prod.collapse)
  then show ?thesis by (simp add: redis_exists_def)
qed

text \<open>
  A value without zero bytes that was set is what \<open>get\<close> returns; after \<open>del\<close> it is not found
  and a second \<open>del\<close> fails.
\<close>

theorem redis_set_get_del:
  assumes "redis_spec R view" and "CHR 0x00 \<notin> set value" and "redis_set R key value srv = (r, srv1)"
    and "redis_del R key srv1 = (r', srv2)"
  shows "fst (redis_get R key srv1) = Inr value \<and> fst (redis_exists R key srv1) = Inr True \<and> r' = Inr () \<and>
    fst (redis_get R key srv2) = Inl (make_error kDatabaseQueryFailed) \<and> fst (redis_exists R key srv2) = Inr False \<and>
    fst (redis_del R key srv2) = Inl (make_error kDatabaseDeleteFailed)"
proof -
  have v1: "view srv1 = (view srv)(c_str key \<mapsto> value)"
    using redis_set_spec [OF assms(1), of key "value" srv] assms(2,3) by (simp add: c_str_id)
  have d: "r' = Inr ()" and v2: "view srv2 = (view srv)(c_str key := None)"
    using redis_del_spec [OF assms(1), of key srv1] v1 assms(4) by (auto split: if_splits)
  show ?thesis
    using redis_get_spec [OF assms(1), of key srv1] redis_exists_spec [OF assms(1), of key srv1] redis_get_spec [OF assms(1), of key srv2]
      redis_exists_spec [OF assms(1), of key srv2] redis_del_spec [OF assms(1), of key srv2] v1 v2 d by auto
qed

end
