(* ===== verification/Raft_Election.thy ===== *)
theory Raft_Election
  imports Raft_Cluster
begin

text \<open>
  What each handler does to the term, vote, role and count of votes of its node, and which of the
  messages of an election it sends: the cases over which the invariant of elections is proved.
\<close>

section \<open>What the handlers do to the election\<close>

text \<open>Handlers that take no part in an election step down to a newer term or leave all of it alone.\<close>

definition calm :: "('db, 'fs) RaftNode \<Rightarrow> ('db, 'fs) RaftNode \<Rightarrow> bool" where
  "calm n n' \<longleftrightarrow> rn_transport n' = rn_transport n \<and>
     (current_term n < current_term n' \<and> rn_role n' = kFollower \<or>
      rn_hard_state n' = rn_hard_state n \<and> rn_role n' = rn_role n \<and> rn_votes n' = rn_votes n)"

lemma calm_refl: "calm n n"
  by (simp add: calm_def)

lemma calm_trans: "calm n n' \<Longrightarrow> calm n' n'' \<Longrightarrow> calm n n''"
  by (auto simp: calm_def)

definition ballot :: "('db, 'fs) RaftNode \<Rightarrow> Transport \<times> HardState \<times> Role \<times> u64" where
  "ballot n = (rn_transport n, rn_hard_state n, rn_role n, rn_votes n)"

lemma calm_ballot: "ballot n' = ballot n \<Longrightarrow> calm n n'"
  by (simp add: ballot_def calm_def)

lemma persist_ballot: "persist_hard_state E n = Done n' \<Longrightarrow> ballot n' = ballot n"
  by (erule persist_hard_state_cases) (simp add: ballot_def)

lemma calm_increase_term:
  assumes "increase_term_to E now t n = Done n'" and "current_term n < t"
  shows "calm n n'"
  using persist_ballot [OF assms(1) [unfolded increase_term_to_def]] assms(2) by (simp add: ballot_def calm_def)

lemma increase_term_effect:
  assumes "increase_term_to E now t n = Done n'"
  shows "rn_transport n' = rn_transport n" "current_term n' = t" "voted_for n' = None" "rn_role n' = kFollower"
  using persist_ballot [OF assms [unfolded increase_term_to_def]] by (simp_all add: ballot_def)

lemma apply_loop_ballot: "apply_loop E now c n = Done (n', rs) \<Longrightarrow> ballot n' = ballot n"
proof (induction E now c n arbitrary: n' rs rule: apply_loop.induct)
  case (1 E now c n)
  show ?case
  proof (cases "rn_last_applied n < c")
    case False
    with "1.prems" show ?thesis by (simp add: apply_loop.simps)
  next
    case True
    with "1.prems" obtain n1 rs1 rs2 where one: "apply_one E now n = Done (n1, rs1)"
      and rest: "apply_loop E now c n1 = Done (n', rs2)"
      by (subst (asm) apply_loop.simps) (auto split: outcome.splits)
    from one have "ballot n1 = ballot n" by (cases rule: apply_one_cases) (simp add: ballot_def)
    with "1.IH" [OF True one refl rest] show ?thesis by simp
  qed
qed

lemma apply_entry_ballot: "apply_entry E now n = Done (n', rs) \<Longrightarrow> ballot n' = ballot n"
  unfolding apply_entry_def by (rule apply_loop_ballot)

lemma store_entries_ballot: "store_entries E es n = Done n' \<Longrightarrow> ballot n' = ballot n"
  by (auto simp: store_entries_def co_await_Done_iff ballot_def split: if_splits)

lemma calm_rise:
  assumes "(if t > current_term n then increase_term_to E now t n else Done n) = Done n1"
  shows "calm n n1"
  using assms by (auto simp: calm_refl calm_increase_term split: if_splits)

lemma calm_append_request:
  assumes "handle_append_entries_request E now q n = Done (n', r, rs)"
  shows "calm n n'"
proof (cases "aeq_term q < current_term n")
  case True
  with assms show ?thesis by (simp add: handle_append_entries_request_def Let_def calm_refl)
next
  case False
  define m where "m n1 = n1\<lparr>rn_leader_id := Some (aeq_leader_id q), rn_last_reset_time := now\<rparr>" for n1 :: "('a, 'b) RaftNode"
  from False assms obtain n1 where i: "(if aeq_term q > current_term n then increase_term_to E now (aeq_term q) n else Done n) = Done n1"
    and n': "n' = m n1 \<or> (\<exists>n3. store_entries E (aeq_entries q) (m n1) = Done n3 \<and>
       (n' = n3 \<or> (\<exists>c rs. apply_entry E now (n3\<lparr>rn_commit_index := c\<rparr>) = Done (n', rs))))"
    by (auto simp: handle_append_entries_request_def Let_def co_await_Done_iff m_def split: if_splits)
  have "ballot (m n1) = ballot n1" by (simp add: ballot_def m_def)
  moreover have "ballot (n3\<lparr>rn_commit_index := c\<rparr>) = ballot n3" for c and n3 :: "('a, 'b) RaftNode" by (simp add: ballot_def)
  ultimately have "ballot n' = ballot n1" using n' by (auto dest!: store_entries_ballot apply_entry_ballot)
  then show ?thesis using calm_rise [OF i] by (blast intro: calm_trans calm_ballot)
qed

lemma calm_append_response:
  assumes "handle_append_entries_response E now r n = Done (n', rs)"
  shows "calm n n'"
proof -
  define m where "m = n\<lparr>rn_match_index := um_assign (aer_id r) (aer_last_log_index r) (rn_match_index n),
    rn_next_index := um_assign (aer_id r) (aer_last_log_index r + 1) (rn_next_index n)\<rparr>"
  have m: "ballot m = ballot n" "ballot (m\<lparr>rn_commit_index := c\<rparr>) = ballot n" for c by (simp_all add: ballot_def m_def)
  from assms have "ballot n' = ballot n \<or> current_term n < aer_term r \<and> increase_term_to E now (aer_term r) n = Done n' \<or>
      n' = m \<or> (\<exists>c. apply_entry E now (m\<lparr>rn_commit_index := c\<rparr>) = Done (n', rs))"
    by (auto simp: handle_append_entries_response_def Let_def co_await_Done_iff m_def ballot_def
        split: if_splits option.splits)
  then show ?thesis using m by (auto intro: calm_ballot calm_increase_term dest!: apply_entry_ballot)
qed

lemma send_snapshot_ballot: "send_snapshot E m n = Done (n', out) \<Longrightarrow> ballot n' = ballot n"
  by (auto simp: send_snapshot_eq co_await_Done_iff ballot_def split: if_splits)

lemma calm_install_request:
  assumes "handle_install_snapshot_request E now q n = Done (n', r)"
  shows "calm n n'"
proof (cases "isq_term q < current_term n")
  case True
  with assms show ?thesis by (simp add: handle_install_snapshot_request_def Let_def calm_refl)
next
  case False
  with assms obtain n1 where i: "(if isq_term q > current_term n then increase_term_to E now (isq_term q) n else Done n) = Done n1"
    and n': "ballot n' = ballot n1"
    by (auto simp: handle_install_snapshot_request_def Let_def co_await_Done_iff ballot_def split: if_splits option.splits)
  show ?thesis by (rule calm_trans [OF calm_rise [OF i] calm_ballot [OF n']])
qed

lemma calm_install_response:
  assumes "handle_install_snapshot_response E now r n = Done (n', out)"
  shows "calm n n'"
  using assms
  by (auto simp: handle_install_snapshot_response_def Let_def co_await_Done_iff calm_increase_term
      intro: calm_ballot dest!: send_snapshot_ballot split: if_splits)

lemma heartbeat_members_ballot: "heartbeat_members E ps s = Done s' \<Longrightarrow> ballot (fst s') = ballot (fst s)"
proof (induction ps arbitrary: s)
  case (Cons p ps)
  have "heartbeat_member E p (n, out) = Done (n', out') \<Longrightarrow> ballot n' = ballot n" for n out n' out'
    by (auto simp: heartbeat_member_def Let_def co_await_Done_iff dest: send_snapshot_ballot split: prod.splits if_splits)
  with Cons show ?case by (cases s) (auto simp: co_await_Done_iff)
qed simp

lemma calm_heartbeat:
  assumes "heartbeat_loop_body E n = Done (n', out)"
  shows "calm n n'"
proof (rule calm_ballot)
  show "ballot n' = ballot n"
    using assms heartbeat_members_ballot [of E "rn_next_index n" "(n, \<lparr>ms_append = [], ms_install = []\<rparr>)"]
    by (fastforce simp: heartbeat_loop_body_def co_await_Done_iff split: if_splits)
qed

lemma client_ballot:
  "ballot (fst (handle_make_dir_request E now h q n)) = ballot n"
  "ballot (fst (handle_upload_file_request E h u n)) = ballot n"
  by (simp_all add: handle_make_dir_request_def handle_upload_file_request_def submit_def ballot_def Let_def)

lemma prepare_upload_ballot:
  "handle_prepare_upload_file_request E q n = Done (n', r) \<Longrightarrow> ballot n' = ballot n"
  by (auto simp: handle_prepare_upload_file_request_def co_await_Done_iff ballot_def split: if_splits)

text \<open>Messages that belong to an election.\<close>

fun vote_message :: "message \<Rightarrow> bool" where
  "vote_message (VoteRequest i q) \<longleftrightarrow> True"
| "vote_message (VoteResponse i r) \<longleftrightarrow> True"
| "vote_message _ \<longleftrightarrow> False"

fun vote_event :: "event \<Rightarrow> bool" where
  "vote_event (EvElection now timeout) \<longleftrightarrow> True"
| "vote_event (EvVoteRequest now q) \<longleftrightarrow> True"
| "vote_event (EvVoteResponse now r) \<longleftrightarrow> True"
| "vote_event _ \<longleftrightarrow> False"

lemmas calm_handlers = calm_append_request calm_append_response calm_install_request calm_install_response calm_heartbeat

lemma emit_calm:
  assumes "emit_step E ev n = Done (n', ms, rs)" and "\<not> vote_event ev"
  shows "calm n n' \<and> (\<forall>m \<in> set ms. \<not> vote_message m)"
proof (cases ev)
  case (EvElectionEnd now)
  with assms show ?thesis by (auto intro: calm_ballot simp: ballot_def election_loop_end_def)
next
  case EvShutdown
  with assms show ?thesis by (auto intro: calm_ballot simp: ballot_def shutdown_def)
next
  case (EvMakeDir now h q)
  with assms client_ballot(1) [of E now h q n] show ?thesis by (auto intro: calm_ballot split: prod.splits)
next
  case (EvUpload h q)
  with assms client_ballot(2) [of E h q n] show ?thesis by (auto intro: calm_ballot split: prod.splits)
next
  case (EvPrepareUpload q)
  with assms show ?thesis by (auto intro: calm_ballot dest: prepare_upload_ballot simp: co_await_Done_iff)
qed (use assms in \<open>auto simp: co_await_Done_iff dest: calm_handlers\<close>)

text \<open>A candidacy: a new term with the member's own vote, and a request to every other member.\<close>

lemma become_leader_effect:
  assumes "become_leader E n = Done n'"
  shows "rn_transport n' = rn_transport n" "current_term n' = current_term n" "rn_role n' = kLeader"
  using assms by (auto simp: become_leader_def co_await_Done_iff reset_peers_def Let_def ballot_def dest!: persist_ballot)

lemma election_effect:
  assumes "election_loop_body E now timeout n = Done (n', q)"
  obtains "n' = n" "q = None"
  | q' where "q = Some q'" "rvq_term q' = current_term n + 1" "rvq_candidate_id q' = member_id (rn_transport n)"
    "rn_transport n' = rn_transport n" "current_term n' = current_term n + 1"
    "rn_role n' = kCandidate \<and> rn_votes n' = 1 \<and> voted_for n' = Some (member_id (rn_transport n)) \<or>
     rn_role n' = kLeader \<and> 1 > cluster_size (rn_transport n) div 2"
proof (cases "now - rn_last_reset_time n < timeout \<or> rn_role n = kLeader")
  case True
  with assms that(1) show thesis by (auto simp: election_loop_body_def Let_def)
next
  case False
  define m where "m = n\<lparr>rn_votes := 0, rn_hard_state := (rn_hard_state n)\<lparr>hs_current_term := current_term n + 1,
    hs_voted_for := Some (member_id (rn_transport n))\<rparr>, rn_role := kCandidate\<rparr>"
  from False assms obtain n2 where p: "persist_hard_state E m = Done n2"
    and l: "(if rn_votes n2 + 1 > cluster_size (rn_transport n2) div 2 \<and> rn_role n2 = kCandidate
             then become_leader E (n2\<lparr>rn_votes := rn_votes n2 + 1\<rparr>) else Done (n2\<lparr>rn_votes := rn_votes n2 + 1\<rparr>)) = Done n'"
    and q: "q = Some (make_request_vote_request (current_term n + 1) (member_id (rn_transport n)) (last_log_index (rn_logs n2)) (last_log_term (rn_logs n2)))"
    by (auto simp: election_loop_body_def Let_def co_await_Done_iff m_def)
  from persist_ballot [OF p] have b: "rn_transport n2 = rn_transport n" "current_term n2 = current_term n + 1" "rn_votes n2 = 0"
    "rn_role n2 = kCandidate" "voted_for n2 = Some (member_id (rn_transport n))" by (simp_all add: ballot_def m_def)
  show thesis
  proof (cases "1 > cluster_size (rn_transport n) div 2")
    case True
    with l b have "become_leader E (n2\<lparr>rn_votes := rn_votes n2 + 1\<rparr>) = Done n'" by simp
    from become_leader_effect [OF this] b True show thesis
      by (intro that(2) [OF q]) (simp_all add: make_request_vote_request_def)
  next
    case False
    with l b show thesis by (intro that(2) [OF q]) (auto simp: make_request_vote_request_def)
  qed
qed

text \<open>A vote: granted in the candidate's term, and only if the member had no other vote in it.\<close>

lemma vote_request_effect:
  assumes "handle_request_vote_request E now q n = Done (n', r)"
  obtains (refused) "\<not> rvr_vote_granted r" "calm n n'"
  | (granted) "rvr_vote_granted r" "rvr_term r = rvq_term q" "rvr_id r = member_id (rn_transport n)"
    "rn_transport n' = rn_transport n" "current_term n' = rvq_term q" "voted_for n' = Some (rvq_candidate_id q)"
    "current_term n < rvq_term q \<and> rn_role n' = kFollower \<or>
     current_term n = rvq_term q \<and> (voted_for n = None \<or> voted_for n = Some (rvq_candidate_id q)) \<and>
       rn_role n' = rn_role n \<and> rn_votes n' = rn_votes n"
proof (cases "rvq_term q < current_term n")
  case True
  with assms refused show thesis by (auto simp: handle_request_vote_request_def Let_def make_request_vote_response_def calm_refl)
next
  case False
  define v where "v n1 = n1\<lparr>rn_hard_state := (rn_hard_state n1)\<lparr>hs_voted_for := Some (rvq_candidate_id q)\<rparr>, rn_last_reset_time := now\<rparr>"
    for n1 :: "('a, 'b) RaftNode"
  define B where "B n1 \<longleftrightarrow> (voted_for n1 = None \<or> voted_for n1 = Some (rvq_candidate_id q)) \<and>
      (rvq_last_log_index q > last_log_index (rn_logs n1) \<or>
       rvq_last_log_index q = last_log_index (rn_logs n1) \<and> rvq_last_log_term q = last_log_term (rn_logs n1))"
    for n1 :: "('a, 'b) RaftNode"
  from False assms obtain n1 where i: "(if rvq_term q > current_term n then increase_term_to E now (rvq_term q) n else Done n) = Done n1"
    and r: "r = make_request_vote_response (member_id (rn_transport n)) (if rvq_term q > current_term n then rvq_term q else current_term n) (B n1)"
    and n': "n' = (if B n1 then v n1 else n1)"
    unfolding handle_request_vote_request_def Let_def co_await_Done_iff by (auto simp: v_def B_def co_await_Done_iff)
  show thesis
  proof (cases "B n1")
    case False
    with r n' calm_rise [OF i] show thesis by (intro refused) (simp_all add: make_request_vote_response_def)
  next
    case b: True
    with r \<open>\<not> rvq_term q < current_term n\<close> have r': "rvr_vote_granted r" "rvr_term r = rvq_term q" "rvr_id r = member_id (rn_transport n)"
      by (auto simp: make_request_vote_response_def)
    from b n' have vn: "n' = v n1" "voted_for n1 = None \<or> voted_for n1 = Some (rvq_candidate_id q)" by (auto simp: B_def)
    show thesis
    proof (cases "rvq_term q > current_term n")
      case True
      with i have "increase_term_to E now (rvq_term q) n = Done n1" by simp
      from increase_term_effect [OF this] vn True show thesis by (intro granted [OF r']) (simp_all add: v_def)
    next
      case False
      with i \<open>\<not> rvq_term q < current_term n\<close> have "n1 = n" "current_term n = rvq_term q" by auto
      with vn show thesis by (intro granted [OF r']) (simp_all add: v_def)
    qed
  qed
qed

text \<open>The answer to a candidate: counted in its own term, until the votes are a majority.\<close>

lemma vote_response_effect:
  assumes "handle_request_vote_response E now r n = Done n'"
  obtains (calm) "calm n n'"
  | (counted) "rvr_vote_granted r" "rvr_term r = current_term n" "rn_transport n' = rn_transport n"
    "rn_hard_state n' = rn_hard_state n" "rn_role n' = rn_role n" "rn_votes n' = rn_votes n + 1"
  | (elected) "rvr_vote_granted r" "rvr_term r = current_term n" "rn_transport n' = rn_transport n"
    "current_term n' = current_term n" "rn_role n = kCandidate" "rn_role n' = kLeader"
    "rn_votes n + 1 > cluster_size (rn_transport n) div 2"
proof (cases "rvr_term r = current_term n \<and> rn_role n \<noteq> kLeader \<and> rvr_vote_granted r")
  case False
  with assms have "n' = n \<or> current_term n < rvr_term r \<and> increase_term_to E now (rvr_term r) n = Done n'"
    by (auto simp: handle_request_vote_response_def Let_def split: if_splits)
  then show thesis using calm by (auto intro: calm_refl calm_increase_term)
next
  case True
  show thesis
  proof (cases "rn_votes n + 1 > cluster_size (rn_transport n) div 2 \<and> rn_role n = kCandidate")
    case lead: True
    with assms True have "become_leader E (n\<lparr>rn_votes := rn_votes n + 1\<rparr>) = Done n'"
      by (simp add: handle_request_vote_response_def Let_def)
    from become_leader_effect [OF this] lead True show thesis by (intro elected) simp_all
  next
    case lead: False
    with assms True have "n' = n\<lparr>rn_votes := rn_votes n + 1\<rparr>" by (auto simp: handle_request_vote_response_def Let_def split: if_splits)
    with True show thesis by (intro counted) simp_all
  qed
qed

end
