(* ===== verification/Election_Safety.thy ===== *)
theory Election_Safety
  imports Raft_Election "HOL-Library.Multiset"
begin

text \<open>
  The invariant of elections over the steps of a cluster. It counts, for every pair of members and
  every term, the requests for a vote and the votes that were sent and that are still on their
  way; a candidate's counter is at most one more than the votes delivered to it.
\<close>

fun asks :: "u64 \<Rightarrow> u64 \<Rightarrow> u64 \<Rightarrow> message \<Rightarrow> bool" where
  "asks j i t (VoteRequest j' q) \<longleftrightarrow> j' = j \<and> rvq_candidate_id q = i \<and> rvq_term q = t"
| "asks j i t _ \<longleftrightarrow> False"

fun votes_for :: "u64 \<Rightarrow> u64 \<Rightarrow> u64 \<Rightarrow> message \<Rightarrow> bool" where
  "votes_for j i t (VoteResponse i' r) \<longleftrightarrow> i' = i \<and> rvr_id r = j \<and> rvr_term r = t \<and> rvr_vote_granted r"
| "votes_for j i t _ \<longleftrightarrow> False"

fun vote_in :: "u64 \<Rightarrow> u64 \<Rightarrow> message \<Rightarrow> bool" where
  "vote_in i t (VoteResponse i' r) \<longleftrightarrow> i' = i \<and> rvr_term r = t \<and> rvr_vote_granted r"
| "vote_in i t _ \<longleftrightarrow> False"

definition count_msgs :: "(message \<Rightarrow> bool) \<Rightarrow> message list \<Rightarrow> nat" where
  "count_msgs P ms = length (filter P ms)"

definition voted :: "('db, 'fs) cluster \<Rightarrow> u64 \<Rightarrow> u64 \<Rightarrow> u64 \<Rightarrow> bool" where
  "voted c j t i \<longleftrightarrow> (\<exists>m \<in> set (cl_sent c). votes_for j i t m)"

definition voters :: "('db, 'fs) cluster \<Rightarrow> u64 \<Rightarrow> u64 \<Rightarrow> u64 set" where
  "voters c i t = insert i {j. voted c j t i}"

lemma count_msgs_simps [simp]:
  "count_msgs P [] = 0" "count_msgs P (m # ms) = (if P m then 1 else 0) + count_msgs P ms"
  "count_msgs P (ms @ ms') = count_msgs P ms + count_msgs P ms'"
  by (simp_all add: count_msgs_def)

lemma count_msgs_none: "\<forall>m \<in> set ms. \<not> P m \<Longrightarrow> count_msgs P ms = 0"
  by (simp add: count_msgs_def filter_empty_conv)

lemma count_msgs_pos: "m \<in> set ms \<Longrightarrow> P m \<Longrightarrow> 1 \<le> count_msgs P ms"
  by (induction ms) auto

lemma count_msgs_ex: "1 \<le> count_msgs P ms \<Longrightarrow> \<exists>m \<in> set ms. P m"
  using count_msgs_none [of ms P] by auto

lemma count_msgs_mset: "count_msgs P ms = size (filter_mset P (mset ms))"
  by (induction ms) simp_all

lemma count_msgs_mono: "mset ms \<subseteq># mset ms' \<Longrightarrow> count_msgs P ms \<le> count_msgs P ms'"
  unfolding count_msgs_mset by (intro size_mset_mono multiset_filter_mono)

text \<open>Votes counted once per voter are at most as many as voters.\<close>

lemma tally_voters:
  assumes "\<forall>j. count_msgs (votes_for j i t) ms \<le> 1"
  shows "count_msgs (vote_in i t) ms \<le> card {j. \<exists>m \<in> set ms. votes_for j i t m}"
  using assms
proof (induction ms)
  case (Cons m ms)
  let ?V = "\<lambda>ms. {j. \<exists>m \<in> set ms. votes_for j i t m}"
  have "finite {j. votes_for j i t m'}" for m' by (cases m') simp_all
  moreover have "?V ms' = (\<Union>m' \<in> set ms'. {j. votes_for j i t m'})" for ms' by auto
  ultimately have fin: "finite (?V ms')" for ms' by simp
  have "\<forall>j. count_msgs (votes_for j i t) ms \<le> 1" using Cons.prems by (metis add_leD2 count_msgs_simps(2))
  then have IH: "count_msgs (vote_in i t) ms \<le> card (?V ms)" by (rule Cons.IH)
  show ?case
  proof (cases "vote_in i t m")
    case False
    moreover from False have "\<not> votes_for j i t m" for j by (cases m) auto
    ultimately show ?thesis using IH by simp
  next
    case True
    then obtain j where j: "votes_for j i t m" by (cases m) auto
    with Cons.prems have "count_msgs (votes_for j i t) ms = 0" by (metis add_le_same_cancel1 count_msgs_simps(2) le_zero_eq)
    then have "j \<notin> ?V ms" using count_msgs_pos [of _ ms "votes_for j i t"] by fastforce
    moreover have "insert j (?V ms) \<subseteq> ?V (m # ms)" using j by auto
    ultimately have "Suc (card (?V ms)) \<le> card (?V (m # ms))"
      using card_mono [OF fin [of "m # ms"], of "insert j (?V ms)"] fin [of ms] by simp
    with True IH show ?thesis by simp
  qed
qed simp

section \<open>The invariant\<close>

definition member_ok :: "u64 set \<Rightarrow> u64 \<Rightarrow> Transport \<Rightarrow> bool" where
  "member_ok M i T \<longleftrightarrow> member_id T = i \<and> set (broadcast_targets T) = M - {i} \<and> distinct (broadcast_targets T) \<and>
     cluster_size T = of_nat (card M)"

definition inv_setup :: "('db, 'fs) cluster \<Rightarrow> bool" where
  "inv_setup c \<longleftrightarrow> card (set (cl_members c)) < 2 ^ 64 \<and>
     (\<forall>i \<in> set (cl_members c). member_ok (set (cl_members c)) i (rn_transport (cl_node c i)))"

text \<open>Requests come from members that have reached their term.\<close>

definition inv_mail :: "('db, 'fs) cluster \<Rightarrow> bool" where
  "inv_mail c \<longleftrightarrow> mset (cl_net c) \<subseteq># mset (cl_sent c) \<and>
     (\<forall>j q. VoteRequest j q \<in> set (cl_sent c) \<longrightarrow> rvq_candidate_id q \<in> set (cl_members c) \<and> j \<in> set (cl_members c) \<and>
        j \<noteq> rvq_candidate_id q \<and> rvq_term q \<le> current_term (cl_node c (rvq_candidate_id q)))"

text \<open>One request, and one vote for it.\<close>

definition inv_once :: "('db, 'fs) cluster \<Rightarrow> bool" where
  "inv_once c \<longleftrightarrow> (\<forall>j i t. count_msgs (votes_for j i t) (cl_sent c) + count_msgs (asks j i t) (cl_net c) \<le>
       count_msgs (asks j i t) (cl_sent c) \<and> count_msgs (asks j i t) (cl_sent c) \<le> 1)"

definition inv_votes :: "('db, 'fs) cluster \<Rightarrow> bool" where
  "inv_votes c \<longleftrightarrow> (\<forall>i \<in> set (cl_members c). rn_role (cl_node c i) = kCandidate \<longrightarrow>
     voted_for (cl_node c i) = Some i \<and> (\<forall>k. \<not> voted c i (current_term (cl_node c i)) k) \<and>
     unat (rn_votes (cl_node c i)) + count_msgs (vote_in i (current_term (cl_node c i))) (cl_net c) \<le>
       1 + count_msgs (vote_in i (current_term (cl_node c i))) (cl_sent c))"

text \<open>A vote binds the voter until it leads.\<close>

definition inv_record :: "('db, 'fs) cluster \<Rightarrow> bool" where
  "inv_record c \<longleftrightarrow> (\<forall>j \<in> set (cl_members c). \<forall>t i. voted c j t i \<longrightarrow> t \<le> current_term (cl_node c j) \<and>
     (t = current_term (cl_node c j) \<longrightarrow> voted_for (cl_node c j) = Some i \<or> rn_role (cl_node c j) = kLeader))"

definition inv_leaders :: "('db, 'fs) cluster \<Rightarrow> bool" where
  "inv_leaders c \<longleftrightarrow>
     (\<forall>i \<in> set (cl_members c). rn_role (cl_node c i) = kLeader \<longrightarrow> (i, current_term (cl_node c i)) \<in> set (cl_leaders c)) \<and>
     (\<forall>i t. (i, t) \<in> set (cl_leaders c) \<longrightarrow> i \<in> set (cl_members c) \<and> t \<le> current_term (cl_node c i) \<and>
        (t = current_term (cl_node c i) \<longrightarrow> rn_role (cl_node c i) = kLeader) \<and>
        card (set (cl_members c)) < 2 * card (voters c i t))"

text \<open>Two votes in a term, or a vote of a member that leads, are votes of a leader.\<close>

definition inv_double :: "('db, 'fs) cluster \<Rightarrow> bool" where
  "inv_double c \<longleftrightarrow>
     (\<forall>j t i i'. voted c j t i \<and> voted c j t i' \<and> i \<noteq> i' \<longrightarrow> (j, t) \<in> set (cl_leader_votes c)) \<and>
     (\<forall>j t i. (j, t) \<in> set (cl_leaders c) \<and> voted c j t i \<longrightarrow> (j, t) \<in> set (cl_leader_votes c))"

definition election_inv :: "('db, 'fs) cluster \<Rightarrow> bool" where
  "election_inv c \<longleftrightarrow> inv_setup c \<and> inv_mail c \<and> inv_once c \<and> inv_votes c \<and> inv_record c \<and> inv_leaders c \<and> inv_double c"

lemmas inv_defs = inv_setup_def inv_mail_def inv_once_def inv_votes_def inv_record_def inv_leaders_def inv_double_def

lemma mailD:
  assumes "inv_mail c" and "VoteRequest j q \<in> set (cl_sent c)"
  shows "rvq_candidate_id q \<in> set (cl_members c)" "j \<in> set (cl_members c)" "j \<noteq> rvq_candidate_id q"
    "rvq_term q \<le> current_term (cl_node c (rvq_candidate_id q))"
  using assms unfolding inv_mail_def by blast+

lemma voted_members:
  assumes "inv_mail c" and "inv_once c" and "voted c j t i"
  shows "j \<in> set (cl_members c)" and "i \<in> set (cl_members c)" and "j \<noteq> i"
proof -
  from assms(3) obtain m where "m \<in> set (cl_sent c)" "votes_for j i t m" by (auto simp: voted_def)
  then have "1 \<le> count_msgs (votes_for j i t) (cl_sent c)" by (rule count_msgs_pos)
  with assms(2) have "1 \<le> count_msgs (asks j i t) (cl_sent c)" unfolding inv_once_def by (meson add_leD1 le_trans)
  then obtain m where m: "m \<in> set (cl_sent c)" "asks j i t m" using count_msgs_ex by blast
  from m(2) obtain q where "m = VoteRequest j q" "rvq_candidate_id q = i" by (cases m) auto
  with assms(1) m(1) show "j \<in> set (cl_members c)" "i \<in> set (cl_members c)" "j \<noteq> i" by (auto simp: inv_mail_def)
qed

lemma finite_voters: "inv_mail c \<Longrightarrow> inv_once c \<Longrightarrow> finite (voters c i t)"
  using voted_members(1) by (auto simp: voters_def intro: rev_finite_subset [of "set (cl_members c)"])

section \<open>Steps outside elections\<close>

definition after :: "u64 \<Rightarrow> ('db, 'fs) emitted \<Rightarrow> message list \<Rightarrow> ('db, 'fs) cluster \<Rightarrow> ('db, 'fs) cluster" where
  "after i s net c = cluster_update i s (c\<lparr>cl_net := net\<rparr>)"

lemma after_simps [simp]:
  "cl_members (after i (n', ms, rs) net c) = cl_members c" "cl_node (after i (n', ms, rs) net c) = (cl_node c)(i := n')"
  "cl_net (after i (n', ms, rs) net c) = net @ ms" "cl_sent (after i (n', ms, rs) net c) = cl_sent c @ ms"
  "set (cl_leaders (after i (n', ms, rs) net c)) = set (cl_leaders c) \<union> (if rn_role n' = kLeader then {(i, current_term n')} else {})"
  "set (cl_leader_votes (after i (n', ms, rs) net c)) = set (cl_leader_votes c) \<union>
     (if rn_role n' = kLeader \<and> list_ex grants ms then {(i, current_term n')} else {})"
  by (auto simp: after_def cluster_update_def)

lemma after_voted: "voted (after i (n', ms, rs) net c) j t k \<longleftrightarrow> voted c j t k \<or> (\<exists>m \<in> set ms. votes_for j k t m)"
  by (auto simp: voted_def)

lemma mail_after:
  assumes "inv_mail c" and "mset net \<subseteq># mset (cl_sent c)" and "current_term (cl_node c i) \<le> current_term n'"
    and "\<And>j q. VoteRequest j q \<in> set ms \<Longrightarrow> rvq_candidate_id q = i \<and> i \<in> set (cl_members c) \<and> j \<in> set (cl_members c) - {i} \<and>
      rvq_term q \<le> current_term n'"
  shows "inv_mail (after i (n', ms, rs) net c)"
  unfolding inv_mail_def
proof (rule conjI, goal_cases)
  case 1
  show ?case using assms(2) by simp
next
  case 2
  have "rvq_candidate_id q \<in> set (cl_members c) \<and> j \<in> set (cl_members c) \<and> j \<noteq> rvq_candidate_id q \<and>
      rvq_term q \<le> current_term (((cl_node c)(i := n')) (rvq_candidate_id q))"
    if "VoteRequest j q \<in> set (cl_sent c) \<union> set ms" for j q
  proof (cases "VoteRequest j q \<in> set ms")
    case True
    from assms(4) [OF this] show ?thesis by auto
  next
    case False
    with that mailD [OF assms(1), of j q] assms(3) show ?thesis by (auto intro: order_trans)
  qed
  then show ?case by simp
qed

lemma leadersD:
  assumes "inv_leaders c" and "(i, t) \<in> set (cl_leaders c)"
  shows "i \<in> set (cl_members c)" "t \<le> current_term (cl_node c i)"
    "t = current_term (cl_node c i) \<Longrightarrow> rn_role (cl_node c i) = kLeader" "card (set (cl_members c)) < 2 * card (voters c i t)"
  using assms unfolding inv_leaders_def by blast+

lemma leaders_after:
  assumes "inv_leaders c" and i: "i \<in> set (cl_members c)" and le: "current_term (cl_node c i) \<le> current_term n'"
    and new: "rn_role n' = kLeader \<Longrightarrow> (i, current_term n') \<in> set (cl_leaders c) \<or> card (set (cl_members c)) < 2 * card (voters c i (current_term n'))"
    and stay: "(i, current_term n') \<in> set (cl_leaders c) \<Longrightarrow> rn_role n' = kLeader"
    and more: "\<And>x t. card (voters c x t) \<le> card (voters (after i (n', ms, rs) net c) x t)"
  shows "inv_leaders (after i (n', ms, rs) net c)"
  unfolding inv_leaders_def
proof (intro conjI ballI allI impI, goal_cases)
  case (1 k)
  with assms(1) show ?case by (cases "k = i") (simp_all add: inv_leaders_def)
next
  case (2 k t)
  with leadersD(1) [OF assms(1)] i show ?case by (auto split: if_splits)
next
  case (3 k t)
  with leadersD(2) [OF assms(1), of k t] le show ?case by (auto split: if_splits)
next
  case (4 k t)
  with leadersD(3) [OF assms(1), of k t] stay show ?case by (auto split: if_splits)
next
  case (5 k t)
  then have "card (set (cl_members c)) < 2 * card (voters c k t)" using leadersD(4) [OF assms(1)] new by (auto split: if_splits)
  with more [of k t] show ?case by simp
qed

lemma doubleD:
  assumes "inv_double c"
  shows "voted c j t i \<Longrightarrow> voted c j t i' \<Longrightarrow> i \<noteq> i' \<Longrightarrow> (j, t) \<in> set (cl_leader_votes c)"
    and "(j, t) \<in> set (cl_leaders c) \<Longrightarrow> voted c j t i \<Longrightarrow> (j, t) \<in> set (cl_leader_votes c)"
  using assms unfolding inv_double_def by blast+

lemma leader_votes_grow: "set (cl_leader_votes c) \<subseteq> set (cl_leader_votes (after i (n', ms, rs) net c))"
  by simp

text \<open>Messages that neither ask for a vote nor grant one.\<close>

fun quiet :: "message \<Rightarrow> bool" where
  "quiet (VoteRequest j q) \<longleftrightarrow> False"
| "quiet (VoteResponse i r) \<longleftrightarrow> \<not> rvr_vote_granted r"
| "quiet _ \<longleftrightarrow> True"

lemma quiet_none:
  assumes "quiet m"
  shows "\<not> asks j i t m" "\<not> votes_for j i t m" "\<not> vote_in i t m" "\<not> grants m" "m \<noteq> VoteRequest j q"
  using assms by (cases m; simp)+

lemma quiet_counts:
  assumes "\<forall>m \<in> set ms. quiet m"
  shows "count_msgs (asks j i t) ms = 0" "count_msgs (votes_for j i t) ms = 0" "count_msgs (vote_in i t) ms = 0"
    "\<not> list_ex grants ms" "VoteRequest j q \<notin> set ms"
  using assms quiet_none by (auto intro!: count_msgs_none simp: list_ex_iff)

lemma quiet_voted:
  assumes "\<forall>m \<in> set ms. quiet m"
  shows "voted (after i (n', ms, rs) net c) = voted c" "voters (after i (n', ms, rs) net c) = voters c"
  using assms quiet_none(2) by (auto simp: after_voted voters_def fun_eq_iff)

text \<open>The node steps down, or keeps term, vote and role; its counter may rise by the votes that are gone from the net.\<close>

definition steady :: "('db, 'fs) RaftNode \<Rightarrow> ('db, 'fs) RaftNode \<Rightarrow> bool" where
  "steady n n' \<longleftrightarrow> rn_transport n' = rn_transport n \<and>
     (current_term n < current_term n' \<and> rn_role n' = kFollower \<or> rn_hard_state n' = rn_hard_state n \<and> rn_role n' = rn_role n)"

lemma steady_term: "steady n n' \<Longrightarrow> current_term n \<le> current_term n'"
  by (auto simp: steady_def)

lemma steady_same: "steady n n' \<Longrightarrow> current_term n' \<le> current_term n \<or> rn_role n' \<noteq> kFollower \<Longrightarrow>
    rn_hard_state n' = rn_hard_state n \<and> rn_role n' = rn_role n"
  by (auto simp: steady_def)

lemma quiet_step:
  assumes inv: "election_inv c" and i: "i \<in> set (cl_members c)" and calm: "steady (cl_node c i) n'"
    and quiet: "\<forall>m \<in> set ms. quiet m" and net: "mset net \<subseteq># mset (cl_net c)"
    and votes: "rn_role n' = kCandidate \<Longrightarrow> unat (rn_votes n') + count_msgs (vote_in i (current_term n')) net \<le>
      unat (rn_votes (cl_node c i)) + count_msgs (vote_in i (current_term n')) (cl_net c)"
  shows "election_inv (after i (n', ms, rs) net c)"
proof -
  let ?c = "after i (n', ms, rs) net c" and ?n = "cl_node c i"
  from inv have I: "inv_setup c" "inv_mail c" "inv_once c" "inv_votes c" "inv_record c" "inv_leaders c" "inv_double c"
    by (simp_all add: election_inv_def)
  note q = quiet_counts [OF quiet] quiet_voted [OF quiet]
  have cnt: "count_msgs P net \<le> count_msgs P (cl_net c)" for P by (rule count_msgs_mono [OF net])
  have lead: "rn_role n' = kLeader \<Longrightarrow> (i, current_term n') \<in> set (cl_leaders c)"
    using steady_same [OF calm] I(6) i by (simp add: inv_leaders_def)
  then have leaders: "set (cl_leaders ?c) = set (cl_leaders c)" by auto
  have "mset net \<subseteq># mset (cl_sent c)" using net I(2) by (auto simp: inv_mail_def intro: subset_mset.trans)
  then have "inv_mail ?c" by (rule mail_after [OF I(2) _ steady_term [OF calm]]) (simp add: q(5))
  moreover have "inv_setup ?c" using I(1) calm i by (auto simp: inv_setup_def steady_def)
  moreover have "inv_once ?c" using I(3) cnt unfolding inv_once_def
    by (simp add: q) (meson add_left_mono le_trans)
  moreover have "inv_votes ?c"
    unfolding inv_votes_def
  proof (intro ballI impI)
    fix k assume k: "k \<in> set (cl_members ?c)" "rn_role (cl_node ?c k) = kCandidate"
    then have same: "rn_role (cl_node c k) = kCandidate" "rn_hard_state (cl_node ?c k) = rn_hard_state (cl_node c k)"
      using steady_same [OF calm] by (auto split: if_splits)
    have "unat (rn_votes (cl_node ?c k)) + count_msgs (vote_in k (current_term (cl_node c k))) net \<le>
        unat (rn_votes (cl_node c k)) + count_msgs (vote_in k (current_term (cl_node c k))) (cl_net c)"
      using votes k(2) same(2) cnt [of "vote_in k (current_term (cl_node c k))"] by (cases "k = i") auto
    moreover have "voted_for (cl_node c k) = Some k" "\<forall>j. \<not> voted c k (current_term (cl_node c k)) j"
      "unat (rn_votes (cl_node c k)) + count_msgs (vote_in k (current_term (cl_node c k))) (cl_net c) \<le>
         1 + count_msgs (vote_in k (current_term (cl_node c k))) (cl_sent c)"
      using I(4) k(1) same(1) by (auto simp: inv_votes_def)
    ultimately show "voted_for (cl_node ?c k) = Some k \<and> (\<forall>j. \<not> voted ?c k (current_term (cl_node ?c k)) j) \<and>
        unat (rn_votes (cl_node ?c k)) + count_msgs (vote_in k (current_term (cl_node ?c k))) (cl_net ?c) \<le>
          1 + count_msgs (vote_in k (current_term (cl_node ?c k))) (cl_sent ?c)"
      unfolding same(2) by (simp add: q)
  qed
  moreover have "inv_record ?c"
    using I(5) steady_same [OF calm] steady_term [OF calm] unfolding inv_record_def q by (fastforce intro: order_trans)
  moreover have "inv_leaders ?c"
    using steady_same [OF calm] leadersD(2,3) [OF I(6), of i "current_term n'"] lead
    by (intro leaders_after [OF I(6) i steady_term [OF calm]]) (auto simp: q)
  moreover have "inv_double ?c" using I(7) leaders unfolding inv_double_def q by auto
  ultimately show ?thesis by (simp add: election_inv_def)
qed

section \<open>A candidacy\<close>

lemma count_requests:
  assumes "distinct js"
  shows "count_msgs (asks j i t) (map (\<lambda>k. VoteRequest k q) js) = (if j \<in> set js \<and> rvq_candidate_id q = i \<and> rvq_term q = t then 1 else 0)"
  using assms by (induction js) auto

lemma no_request_yet:
  assumes "inv_mail c" and "current_term (cl_node c i) < t"
  shows "count_msgs (asks j i t) (cl_sent c) = 0"
proof (rule count_msgs_none, rule ballI, rule notI)
  fix m assume m: "m \<in> set (cl_sent c)" and a: "asks j i t m"
  from a obtain q where "m = VoteRequest j q" "rvq_candidate_id q = i" "rvq_term q = t" by (cases m) auto
  with m assms show False unfolding inv_mail_def by (metis leD)
qed

lemma majority_word:
  assumes "of_nat k div 2 < (w :: u64)" and "k < 2 ^ 64"
  shows "k < 2 * unat w"
proof -
  have "k div 2 < unat w" using assms by (simp add: word_less_nat_alt unat_div unat_of_nat_small)
  then show ?thesis by simp
qed

lemma alone_majority:
  assumes "inv_setup c" and "inv_mail c" and "inv_once c" and "i \<in> set (cl_members c)"
    and "1 > cluster_size (rn_transport (cl_node c i)) div 2"
  shows "card (set (cl_members c)) < 2 * card (voters c i t)"
proof -
  have "card (set (cl_members c)) < 2 * unat (1 :: u64)"
    using assms(1,4,5) by (intro majority_word) (auto simp: inv_setup_def member_ok_def)
  moreover have "0 < card (voters c i t)" using finite_voters [OF assms(2,3)] by (auto simp: card_gt_0_iff voters_def)
  ultimately show ?thesis by simp
qed

lemma campaign_step:
  assumes inv: "election_inv c" and i: "i \<in> set (cl_members c)" and guard: "current_term (cl_node c i) \<noteq> - 1"
    and q: "rvq_term q = current_term (cl_node c i) + 1" "rvq_candidate_id q = i"
    and n': "rn_transport n' = rn_transport (cl_node c i)" "current_term n' = current_term (cl_node c i) + 1"
      "rn_role n' = kCandidate \<and> rn_votes n' = 1 \<and> voted_for n' = Some i \<or>
       rn_role n' = kLeader \<and> 1 > cluster_size (rn_transport (cl_node c i)) div 2"
    and ms: "ms = map (\<lambda>j. VoteRequest j q) (broadcast_targets (rn_transport n'))"
  shows "election_inv (after i (n', ms, rs) (cl_net c) c)"
proof -
  let ?c = "after i (n', ms, rs) (cl_net c) c" and ?n = "cl_node c i" and ?t = "current_term (cl_node c i) + 1"
  from inv have I: "inv_setup c" "inv_mail c" "inv_once c" "inv_votes c" "inv_record c" "inv_leaders c" "inv_double c"
    by (simp_all add: election_inv_def)
  have lt: "current_term ?n < ?t" by (rule term_rise [OF guard])
  have ok: "member_ok (set (cl_members c)) i (rn_transport ?n)" using I(1) i by (simp add: inv_setup_def)
  have none: "\<not> votes_for j k t m" "\<not> vote_in k t m" "\<not> grants m" if "m \<in> set ms" for j k t m using that ms by auto
  have v: "voted ?c = voted c" "voters ?c = voters c" using none(1) by (auto simp: after_voted voters_def fun_eq_iff)
  have cnt: "count_msgs (votes_for j k t) ms = 0" "count_msgs (vote_in k t) ms = 0" for j k t using none by (auto intro: count_msgs_none)
  have g: "\<not> list_ex grants ms" using none(3) by (auto simp: list_ex_iff)
  have req: "count_msgs (asks j k t) ms = (if j \<in> set (cl_members c) - {i} \<and> k = i \<and> t = ?t then 1 else 0)" for j k t
    using ok unfolding ms n'(1) by (auto simp: count_requests member_ok_def q)
  have "inv_setup ?c" using I(1) n'(1) by (simp add: inv_setup_def)
  moreover have "inv_mail ?c"
  proof -
    have "VoteRequest j q' \<in> set ms \<Longrightarrow> q' = q \<and> j \<in> set (cl_members c) - {i}" for j q'
      using ok unfolding ms n'(1) by (auto simp: member_ok_def)
    moreover have "mset (cl_net c) \<subseteq># mset (cl_sent c)" using I(2) by (simp add: inv_mail_def)
    ultimately show ?thesis using i q n'(2) lt by (intro mail_after [OF I(2)]) auto
  qed
  moreover have "inv_once ?c"
    unfolding inv_once_def
  proof (intro allI)
    fix j k t
    have o: "count_msgs (votes_for j k t) (cl_sent c) + count_msgs (asks j k t) (cl_net c) \<le> count_msgs (asks j k t) (cl_sent c)"
      "count_msgs (asks j k t) (cl_sent c) \<le> 1" using I(3) by (simp_all add: inv_once_def)
    show "count_msgs (votes_for j k t) (cl_sent ?c) + count_msgs (asks j k t) (cl_net ?c) \<le> count_msgs (asks j k t) (cl_sent ?c) \<and>
        count_msgs (asks j k t) (cl_sent ?c) \<le> 1"
      using o no_request_yet [OF I(2) lt, of j] by (auto simp: cnt req)
  qed
  moreover have fresh: "\<not> voted c i ?t k" for k using I(5) i lt by (force simp: inv_record_def)
  have "inv_votes ?c"
    unfolding inv_votes_def
  proof (intro ballI impI)
    fix k assume k: "k \<in> set (cl_members ?c)" "rn_role (cl_node ?c k) = kCandidate"
    have "count_msgs P (cl_net c) \<le> count_msgs P (cl_sent c)" for P using I(2) by (intro count_msgs_mono) (simp add: inv_mail_def)
    then show "voted_for (cl_node ?c k) = Some k \<and> (\<forall>j. \<not> voted ?c k (current_term (cl_node ?c k)) j) \<and>
        unat (rn_votes (cl_node ?c k)) + count_msgs (vote_in k (current_term (cl_node ?c k))) (cl_net ?c) \<le>
          1 + count_msgs (vote_in k (current_term (cl_node ?c k))) (cl_sent ?c)"
      using I(4) k n' fresh unfolding inv_votes_def by (cases "k = i") (auto simp: v cnt)
  qed
  moreover have "inv_record ?c"
    using I(5) lt n'(2) unfolding inv_record_def v by (fastforce dest: order.strict_trans1)
  moreover have "inv_leaders ?c"
  proof -
    have "card (set (cl_members c)) < 2 * card (voters c i ?t)" if "rn_role n' = kLeader"
      using alone_majority [OF I(1-3) i] n'(3) that by simp
    moreover have "(i, ?t) \<notin> set (cl_leaders c)" using leadersD(2) [OF I(6), of i ?t] lt by (meson leD)
    ultimately show ?thesis using lt n'(2) by (intro leaders_after [OF I(6) i]) (auto simp: v)
  qed
  moreover have "inv_double ?c" using I(7) fresh n'(2) unfolding inv_double_def v by (simp add: g) blast
  ultimately show ?thesis by (simp add: election_inv_def)
qed

section \<open>A vote\<close>

definition casts :: "('db, 'fs) RaftNode \<Rightarrow> RequestVoteRequest \<Rightarrow> ('db, 'fs) RaftNode \<Rightarrow> bool" where
  "casts n q n' \<longleftrightarrow> rn_transport n' = rn_transport n \<and> current_term n' = rvq_term q \<and> voted_for n' = Some (rvq_candidate_id q) \<and>
     (current_term n < rvq_term q \<and> rn_role n' = kFollower \<or>
      current_term n = rvq_term q \<and> (voted_for n = None \<or> voted_for n = Some (rvq_candidate_id q)) \<and>
        rn_role n' = rn_role n \<and> rn_votes n' = rn_votes n)"

lemma casts_term: "casts n q n' \<Longrightarrow> current_term n \<le> current_term n'"
  by (auto simp: casts_def)

lemma casts_same:
  assumes "casts n q n'" and "rn_role n' \<noteq> kFollower \<or> rvq_term q \<le> current_term n"
  shows "rn_role n = rn_role n'" "current_term n = rvq_term q" "voted_for n = None \<or> voted_for n = Some (rvq_candidate_id q)"
  using assms by (auto simp: casts_def)

abbreviation granted :: "u64 \<Rightarrow> RequestVoteRequest \<Rightarrow> RequestVoteResponse \<Rightarrow> ('db, 'fs) RaftNode \<Rightarrow> resumed \<Rightarrow> message list \<Rightarrow>
    ('db, 'fs) cluster \<Rightarrow> ('db, 'fs) cluster" where
  "granted i q r n' rs net c \<equiv> after i (n', [VoteResponse (rvq_candidate_id q) r], rs) net c"

lemma granted_voted:
  assumes "rvr_vote_granted r" "rvr_term r = rvq_term q" "rvr_id r = i"
  shows "voted (granted i q r n' rs net c) j t x \<longleftrightarrow> voted c j t x \<or> j = i \<and> t = rvq_term q \<and> x = rvq_candidate_id q"
  using assms by (auto simp: after_voted)

text \<open>The votes that the member granted before in this term.\<close>

lemma earlier_vote:
  assumes "inv_record c" and "i \<in> set (cl_members c)" and "casts (cl_node c i) q n'" and "voted c i (rvq_term q) x"
  shows "current_term (cl_node c i) = rvq_term q" "voted_for (cl_node c i) = Some x \<or> rn_role (cl_node c i) = kLeader"
proof -
  let ?n = "cl_node c i"
  have "rvq_term q \<le> current_term ?n" "rvq_term q = current_term ?n \<longrightarrow> voted_for ?n = Some x \<or> rn_role ?n = kLeader"
    using assms(1,2,4) by (auto simp: inv_record_def)
  with assms(3) show "current_term ?n = rvq_term q" "voted_for ?n = Some x \<or> rn_role ?n = kLeader" by (auto simp: casts_def)
qed

lemma grant_votes:
  assumes "inv_votes c" and i: "i \<in> set (cl_members c)" and net: "cl_net c = xs @ VoteRequest i q # ys" and "i \<noteq> rvq_candidate_id q"
    and r: "rvr_vote_granted r" "rvr_term r = rvq_term q" "rvr_id r = i" and cast: "casts (cl_node c i) q n'"
  shows "inv_votes (granted i q r n' rs (xs @ ys) c)" (is "inv_votes ?c")
  unfolding inv_votes_def
proof (intro ballI impI)
  fix x assume x: "x \<in> set (cl_members ?c)" "rn_role (cl_node ?c x) = kCandidate"
  have "x \<noteq> i"
  proof
    assume "x = i"
    with x have "rn_role n' = kCandidate" by simp
    with casts_same [OF cast] have "rn_role (cl_node c i) = kCandidate" "voted_for (cl_node c i) \<noteq> Some i" using assms(4) by auto
    with assms(1) i show False by (auto simp: inv_votes_def)
  qed
  then have "rn_role (cl_node c x) = kCandidate" "cl_node ?c x = cl_node c x" using x(2) by simp_all
  with assms(1) x(1) \<open>x \<noteq> i\<close> r show "voted_for (cl_node ?c x) = Some x \<and> (\<forall>j. \<not> voted ?c x (current_term (cl_node ?c x)) j) \<and>
      unat (rn_votes (cl_node ?c x)) + count_msgs (vote_in x (current_term (cl_node ?c x))) (cl_net ?c) \<le>
        1 + count_msgs (vote_in x (current_term (cl_node ?c x))) (cl_sent ?c)"
    by (auto simp: inv_votes_def granted_voted [OF r] net)
qed

lemma grant_record:
  assumes rec: "inv_record c" and i: "i \<in> set (cl_members c)" and r: "rvr_vote_granted r" "rvr_term r = rvq_term q" "rvr_id r = i"
    and cast: "casts (cl_node c i) q n'"
  shows "inv_record (granted i q r n' rs net c)" (is "inv_record ?c")
  unfolding inv_record_def
proof (intro ballI allI impI)
  fix j t x assume j: "j \<in> set (cl_members ?c)" and "voted ?c j t x"
  then consider "voted c j t x" "j \<noteq> i" | "voted c j t x" "j = i" | "j = i" "t = rvq_term q" "x = rvq_candidate_id q"
    by (auto simp: granted_voted [OF r])
  then show "t \<le> current_term (cl_node ?c j) \<and>
      (t = current_term (cl_node ?c j) \<longrightarrow> voted_for (cl_node ?c j) = Some x \<or> rn_role (cl_node ?c j) = kLeader)"
  proof cases
    case 1
    with rec j show ?thesis by (simp add: inv_record_def)
  next
    case 2
    then have "t \<le> current_term (cl_node c i)" using rec i by (auto simp: inv_record_def)
    moreover have "voted_for n' = Some x \<or> rn_role n' = kLeader" if "t = rvq_term q"
      using earlier_vote [OF rec i cast, of x] casts_same [OF cast] cast 2 that by (auto simp: casts_def)
    ultimately show ?thesis using 2 casts_term [OF cast] cast by (auto simp: casts_def)
  next
    case 3
    with cast show ?thesis by (simp add: casts_def)
  qed
qed

lemma casts_leader:
  assumes "inv_leaders c" and "i \<in> set (cl_members c)" and "casts (cl_node c i) q n'"
  shows "rn_role n' = kLeader \<longleftrightarrow> (i, rvq_term q) \<in> set (cl_leaders c)"
proof
  assume "rn_role n' = kLeader"
  with casts_same [OF assms(3)] assms(1,2) show "(i, rvq_term q) \<in> set (cl_leaders c)" by (auto simp: inv_leaders_def)
next
  assume "(i, rvq_term q) \<in> set (cl_leaders c)"
  from leadersD(2,3) [OF assms(1) this] casts_same [OF assms(3)] show "rn_role n' = kLeader" by auto
qed

lemma grant_double:
  assumes rec: "inv_record c" and lead: "inv_leaders c" and dbl: "inv_double c" and i: "i \<in> set (cl_members c)"
    and r: "rvr_vote_granted r" "rvr_term r = rvq_term q" "rvr_id r = i" and cast: "casts (cl_node c i) q n'"
  shows "inv_double (granted i q r n' rs net c)" (is "inv_double ?c")
proof -
  have t: "current_term n' = rvq_term q" using cast by (simp add: casts_def)
  have leaders: "set (cl_leaders ?c) = set (cl_leaders c)" using casts_leader [OF lead i cast] t by auto
  have new: "(i, rvq_term q) \<in> set (cl_leader_votes ?c)" if "rn_role n' = kLeader" using that r t by simp
  have twice: "(i, rvq_term q) \<in> set (cl_leader_votes ?c)" if "voted c i (rvq_term q) x" "x \<noteq> rvq_candidate_id q" for x
    using earlier_vote [OF rec i cast that(1)] casts_same [OF cast] that(2) by (intro new) auto
  have led: "(i, rvq_term q) \<in> set (cl_leader_votes ?c)" if "(i, rvq_term q) \<in> set (cl_leaders c)"
    using casts_leader [OF lead i cast] that by (intro new) simp
  note old = doubleD [OF dbl, THEN subsetD [OF leader_votes_grow]]
  show ?thesis unfolding inv_double_def leaders granted_voted [OF r] using old twice led by blast
qed

lemma grant_step:
  assumes inv: "election_inv c" and i: "i \<in> set (cl_members c)" and net: "cl_net c = xs @ VoteRequest i q # ys"
    and r: "rvr_vote_granted r" "rvr_term r = rvq_term q" "rvr_id r = i" and cast: "casts (cl_node c i) q n'"
  shows "election_inv (granted i q r n' rs (xs @ ys) c)" (is "election_inv ?c")
proof -
  from inv have I: "inv_setup c" "inv_mail c" "inv_once c" "inv_votes c" "inv_record c" "inv_leaders c" "inv_double c"
    by (simp_all add: election_inv_def)
  have "VoteRequest i q \<in># mset (cl_sent c)" using I(2) net by (auto simp: inv_mail_def dest: mset_subset_eqD)
  then have "VoteRequest i q \<in> set (cl_sent c)" by simp
  note other = mailD(3) [OF I(2) this]
  have "mset (xs @ ys) \<subseteq># mset (cl_sent c)" using I(2) net by (auto simp: inv_mail_def dest: mset_subset_eq_insertD)
  then have mail: "inv_mail ?c" by (rule mail_after [OF I(2) _ casts_term [OF cast]]) simp
  have once: "inv_once ?c"
    unfolding inv_once_def
  proof (intro allI)
    fix j x t
    have o: "count_msgs (votes_for j x t) (cl_sent c) + count_msgs (asks j x t) (cl_net c) \<le> count_msgs (asks j x t) (cl_sent c)"
      "count_msgs (asks j x t) (cl_sent c) \<le> 1" using I(3) by (simp_all add: inv_once_def)
    show "count_msgs (votes_for j x t) (cl_sent ?c) + count_msgs (asks j x t) (cl_net ?c) \<le> count_msgs (asks j x t) (cl_sent ?c) \<and>
        count_msgs (asks j x t) (cl_sent ?c) \<le> 1"
      using o r by (auto simp: net)
  qed
  have "voters c x t \<subseteq> voters ?c x t" for x t by (auto simp: voters_def granted_voted [OF r])
  then have "card (voters c x t) \<le> card (voters ?c x t)" for x t by (intro card_mono finite_voters mail once)
  then have "inv_leaders ?c" using casts_leader [OF I(6) i cast] cast
    by (intro leaders_after [OF I(6) i casts_term [OF cast]]) (auto simp: casts_def)
  moreover have "inv_setup ?c" using I(1) cast by (simp add: inv_setup_def casts_def)
  ultimately show ?thesis
    using mail once grant_votes [OF I(4) i net other r cast] grant_record [OF I(5) i r cast] grant_double [OF I(5-7) i r cast]
    by (simp add: election_inv_def)
qed

section \<open>The answer to a candidate\<close>

lemma unat_succ_le: "unat (w + 1) \<le> unat w + 1" for w :: u64
  by (cases "w = - 1") (simp_all add: unat_succ)

lemma elected_step:
  assumes inv: "election_inv c" and i: "i \<in> set (cl_members c)" and net: "cl_net c = xs @ VoteResponse i r # ys"
    and r: "rvr_vote_granted r" "rvr_term r = current_term (cl_node c i)"
    and n': "rn_transport n' = rn_transport (cl_node c i)" "current_term n' = current_term (cl_node c i)"
      "rn_role (cl_node c i) = kCandidate" "rn_role n' = kLeader"
      "rn_votes (cl_node c i) + 1 > cluster_size (rn_transport (cl_node c i)) div 2"
  shows "election_inv (after i (n', [], rs) (xs @ ys) c)"
proof -
  let ?c = "after i (n', [], rs) (xs @ ys) c" and ?n = "cl_node c i" and ?t = "current_term (cl_node c i)"
  let ?M = "set (cl_members c)"
  from inv have I: "inv_setup c" "inv_mail c" "inv_once c" "inv_votes c" "inv_record c" "inv_leaders c" "inv_double c"
    by (simp_all add: election_inv_def)
  have v: "voted ?c = voted c" "voters ?c = voters c" by (auto simp: after_voted voters_def fun_eq_iff)
  have cand: "\<not> voted c i ?t k" "unat (rn_votes ?n) + count_msgs (vote_in i ?t) (cl_net c) \<le> 1 + count_msgs (vote_in i ?t) (cl_sent c)" for k
    using I(4) i n'(3) by (auto simp: inv_votes_def)
  have "mset (xs @ ys) \<subseteq># mset (cl_net c)" by (simp add: net)
  note cnt = count_msgs_mono [OF this]
  have "mset (xs @ ys) \<subseteq># mset (cl_sent c)" using I(2) net by (auto simp: inv_mail_def dest: mset_subset_eq_insertD)
  then have "inv_mail ?c" by (rule mail_after [OF I(2)]) (simp_all add: n'(2))
  moreover have "inv_setup ?c" using I(1) n'(1) by (simp add: inv_setup_def)
  moreover have "inv_once ?c" using I(3) cnt unfolding inv_once_def by simp (meson add_left_mono le_trans)
  moreover have "inv_votes ?c"
    unfolding inv_votes_def
  proof (intro ballI impI)
    fix k assume k: "k \<in> set (cl_members ?c)" "rn_role (cl_node ?c k) = kCandidate"
    with n'(4) have "k \<noteq> i" by auto
    with I(4) k cnt [of "vote_in k (current_term (cl_node c k))"]
    show "voted_for (cl_node ?c k) = Some k \<and> (\<forall>j. \<not> voted ?c k (current_term (cl_node ?c k)) j) \<and>
        unat (rn_votes (cl_node ?c k)) + count_msgs (vote_in k (current_term (cl_node ?c k))) (cl_net ?c) \<le>
          1 + count_msgs (vote_in k (current_term (cl_node ?c k))) (cl_sent ?c)"
      by (auto simp: inv_votes_def v)
  qed
  moreover have "inv_record ?c" using I(5) n'(2,4) unfolding inv_record_def v by auto
  moreover have "inv_leaders ?c"
  proof -
    have "count_msgs (vote_in i ?t) (cl_sent c) \<le> card {j. voted c j ?t i}"
      using tally_voters [of i ?t "cl_sent c"] I(3) unfolding inv_once_def voted_def by (meson add_leD1 le_trans)
    moreover have "card (voters c i ?t) = Suc (card {j. voted c j ?t i})"
    proof -
      have "i \<notin> {j. voted c j ?t i}" using voted_members(3) [OF I(2,3)] by blast
      with finite_voters [OF I(2,3), of i ?t] show ?thesis by (simp add: voters_def)
    qed
    moreover have "1 \<le> count_msgs (vote_in i ?t) (cl_net c)" using r by (simp add: net)
    ultimately have "unat (rn_votes ?n + 1) \<le> card (voters c i ?t)" using cand(2) unat_succ_le [of "rn_votes ?n"] by simp
    moreover have "card ?M < 2 * unat (rn_votes ?n + 1)"
      using n'(5) I(1) i by (intro majority_word) (auto simp: inv_setup_def member_ok_def)
    ultimately show ?thesis using n' by (intro leaders_after [OF I(6) i]) (auto simp: v)
  qed
  moreover have "inv_double ?c"
    using doubleD [OF I(7)] cand(1) n'(2) unfolding inv_double_def v by auto
  ultimately show ?thesis by (simp add: election_inv_def)
qed

lemma counted_step:
  assumes inv: "election_inv c" and i: "i \<in> set (cl_members c)" and net: "cl_net c = xs @ VoteResponse i r # ys"
    and r: "rvr_vote_granted r" "rvr_term r = current_term (cl_node c i)"
    and n': "rn_transport n' = rn_transport (cl_node c i)" "rn_hard_state n' = rn_hard_state (cl_node c i)"
      "rn_role n' = rn_role (cl_node c i)" "rn_votes n' = rn_votes (cl_node c i) + 1"
  shows "election_inv (after i (n', [], rs) (xs @ ys) c)"
proof (rule quiet_step [OF inv i])
  show "steady (cl_node c i) n'" using n' by (simp add: steady_def)
  show "unat (rn_votes n') + count_msgs (vote_in i (current_term n')) (xs @ ys) \<le>
      unat (rn_votes (cl_node c i)) + count_msgs (vote_in i (current_term n')) (cl_net c)"
    using unat_succ_le [of "rn_votes (cl_node c i)"] r by (simp add: net n')
qed (simp_all add: net)

section \<open>Every step keeps the invariant\<close>

lemma calm_step:
  assumes "election_inv c" and "i \<in> set (cl_members c)" and "calm (cl_node c i) n'"
    and "\<forall>m \<in> set ms. quiet m" and net: "mset net \<subseteq># mset (cl_net c)"
  shows "election_inv (after i (n', ms, rs) net c)"
proof (rule quiet_step [OF assms(1,2) _ assms(4,5)])
  show "steady (cl_node c i) n'" using assms(3) by (auto simp: calm_def steady_def)
  show "unat (rn_votes n') + count_msgs (vote_in i (current_term n')) net \<le>
      unat (rn_votes (cl_node c i)) + count_msgs (vote_in i (current_term n')) (cl_net c)" if "rn_role n' = kCandidate"
    using assms(3) that count_msgs_mono [OF net] by (auto simp: calm_def)
qed

lemma calm_emit_step:
  assumes "election_inv c" and "i \<in> set (cl_members c)" and "mset net \<subseteq># mset (cl_net c)"
    and "emit_step E ev (cl_node c i) = Done (n', ms, rs)" and "\<not> vote_event ev"
  shows "election_inv (after i (n', ms, rs) net c)"
proof (rule calm_step [OF assms(1,2) _ _ assms(3)])
  note e = emit_calm [OF assms(4,5)]
  then show "calm (cl_node c i) n'" by simp
  have "\<not> vote_message m \<Longrightarrow> quiet m" for m by (cases m) simp_all
  with e show "\<forall>m \<in> set ms. quiet m" by blast
qed

lemma setup_id: "election_inv c \<Longrightarrow> i \<in> set (cl_members c) \<Longrightarrow> member_id (rn_transport (cl_node c i)) = i"
  by (simp add: election_inv_def inv_setup_def member_ok_def)

lemma own_step:
  assumes inv: "election_inv c" and i: "i \<in> set (cl_members c)" and guard: "current_term (cl_node c i) \<noteq> - 1"
    and step: "emit_step E ev (cl_node c i) = Done (n', ms, rs)" and own: "own_event ev"
  shows "election_inv (after i (n', ms, rs) (cl_net c) c)"
proof (cases "vote_event ev")
  case False
  with assms show ?thesis by (intro calm_emit_step) simp_all
next
  case True
  with own obtain now timeout where ev: "ev = EvElection now timeout" by (cases ev) auto
  with step obtain q where e: "election_loop_body E now timeout (cl_node c i) = Done (n', q)"
    and ms: "ms = (case q of None \<Rightarrow> [] | Some q' \<Rightarrow> map (\<lambda>j. VoteRequest j q') (broadcast_targets (rn_transport n')))"
    by (auto simp: co_await_Done_iff)
  from e show ?thesis
  proof (cases rule: election_effect)
    case 1
    with ms inv i show ?thesis by (intro calm_step) (simp_all add: calm_refl)
  next
    case (2 q')
    with ms setup_id [OF inv i] show ?thesis by (intro campaign_step [OF inv i guard, of q']) auto
  qed
qed

lemma delivery_step:
  assumes inv: "election_inv c" and i: "addressee m \<in> set (cl_members c)" and net: "cl_net c = xs @ m # ys"
    and step: "emit_step E (event_of now m) (cl_node c (addressee m)) = Done (n', ms, rs)"
  shows "election_inv (after (addressee m) (n', ms, rs) (xs @ ys) c)"
proof (cases "vote_event (event_of now m)")
  case False
  have "mset (xs @ ys) \<subseteq># mset (cl_net c)" by (simp add: net)
  from calm_emit_step [OF inv i this step False] show ?thesis .
next
  case True
  then consider (request) i' q where "m = VoteRequest i' q" | (response) i' r where "m = VoteResponse i' r" by (cases m) auto
  then show ?thesis
  proof cases
    case request
    with step obtain r where e: "handle_request_vote_request E now q (cl_node c i') = Done (n', r)"
      and ms: "ms = [VoteResponse (rvq_candidate_id q) r]" by (auto simp: co_await_Done_iff)
    from request i have i': "i' \<in> set (cl_members c)" by simp
    from e show ?thesis
    proof (cases rule: vote_request_effect)
      case refused
      with request ms inv i' show ?thesis by (auto intro!: calm_step simp: net)
    next
      case granted
      then have "casts (cl_node c i') q n'" unfolding casts_def by blast
      from grant_step [OF inv i' _ granted(1,2) _ this] granted(3) request ms net setup_id [OF inv i'] show ?thesis by simp
    qed
  next
    case response
    with step have e: "handle_request_vote_response E now r (cl_node c i') = Done n'" and ms: "ms = []"
      by (auto simp: co_await_Done_iff)
    from response i have i': "i' \<in> set (cl_members c)" by simp
    from response net have net': "cl_net c = xs @ VoteResponse i' r # ys" by simp
    from e show ?thesis
    proof (cases rule: vote_response_effect)
      case calm
      with response ms inv i' show ?thesis by (auto intro!: calm_step simp: net)
    next
      case counted
      from counted_step [OF inv i' net' this] response ms show ?thesis by simp
    next
      case elected
      from elected_step [OF inv i' net' this] response ms show ?thesis by simp
    qed
  qed
qed

text \<open>The term of a member has not reached the last value of its type, after which it would wrap around.\<close>

definition terms_guard :: "('db, 'fs) cluster \<Rightarrow> bool" where
  "terms_guard c \<longleftrightarrow> (\<forall>i \<in> set (cl_members c). current_term (cl_node c i) \<noteq> - 1)"

lemma cluster_step_inv:
  assumes inv: "election_inv c" and guard: "terms_guard c" and step: "cluster_step E a c = Done c'"
  shows "election_inv c'"
proof (cases a)
  case (Act i ev)
  show ?thesis
  proof (cases "i \<in> set (cl_members c) \<and> own_event ev")
    case True
    with Act step obtain n' ms rs where "emit_step E ev (cl_node c i) = Done (n', ms, rs)" "c' = after i (n', ms, rs) (cl_net c) c"
      by (auto simp: co_await_Done_iff after_def)
    with own_step [OF inv, of i E ev n' ms rs] True guard show ?thesis by (simp add: terms_guard_def)
  next
    case False
    with Act step inv show ?thesis by auto
  qed
next
  case (Deliver k now)
  let ?m = "cl_net c ! k"
  show ?thesis
  proof (cases "k < length (cl_net c) \<and> addressee ?m \<in> set (cl_members c)")
    case True
    with Deliver step obtain n' ms rs where "emit_step E (event_of now ?m) (cl_node c (addressee ?m)) = Done (n', ms, rs)"
      "c' = after (addressee ?m) (n', ms, rs) (take k (cl_net c) @ drop (Suc k) (cl_net c)) c"
      by (auto simp: co_await_Done_iff after_def Let_def)
    with delivery_step [OF inv, of ?m "take k (cl_net c)" "drop (Suc k) (cl_net c)" E now n' ms rs] True
      id_take_nth_drop [of k "cl_net c"] show ?thesis by simp
  next
    case False
    with Deliver step inv show ?thesis by auto
  qed
qed

interpretation elections: transition_system "cluster_step E" terms_guard election_inv "\<lambda>_ _. True"
  for E :: "('db, 'fs, 'tok) env"
  by unfold_locales (auto intro: cluster_step_inv)

section \<open>Election safety\<close>

text \<open>The members of a cluster, each set up from a configuration that names all of them, and none a candidate yet.\<close>

definition configured :: "u64 list \<Rightarrow> (u64 \<Rightarrow> Config) \<Rightarrow> (u64 \<Rightarrow> ('db, 'fs) RaftNode) \<Rightarrow> bool" where
  "configured members config nodes \<longleftrightarrow> card (set members) < 2 ^ 64 \<and>
     (\<forall>i \<in> set members. config_wf (config i) \<and> fst ` set (cfg_raft_nodes (config i)) = set members \<and> cfg_member_id (config i) = i \<and>
        rn_transport (nodes i) = Transport_create (config i) \<and> rn_role (nodes i) = kFollower)"

lemma config_member:
  assumes "config_wf config" and "fst ` set (cfg_raft_nodes config) = M" and "cfg_member_id config = i"
  shows "member_ok M i (Transport_create config)"
proof -
  let ?T = "Transport_create config" and ?ns = "cfg_raft_nodes config"
  have keys: "map pe_id (um_values (tr_peers ?T)) = map fst ?ns"
    using assms(1) by (auto simp: transport_peers um_values_def config_wf_def make_peer_def)
  have "distinct (map fst ?ns)" using assms(1) by (simp add: config_wf_def um_wf_def)
  moreover from this have "card M = length ?ns" using assms(2) by (metis distinct_card length_map list.set_map)
  moreover have "tr_member_id ?T = i" using assms(3) by (simp add: Transport_create_def)
  ultimately show ?thesis using keys assms
    by (auto simp: member_ok_def member_id_def broadcast_targets_def cluster_size_def transport_peers)
qed

lemma configured_inv: "configured members config nodes \<Longrightarrow> election_inv (new_cluster members nodes)"
  using config_member
  by (auto simp: configured_def election_inv_def inv_defs new_cluster_def voted_def)

lemma voters_members:
  assumes "inv_mail c" and "inv_once c" and "i \<in> set (cl_members c)"
  shows "voters c i t \<subseteq> set (cl_members c)"
  using assms voted_members(1) by (auto simp: voters_def)

lemma majorities_meet:
  assumes "finite M" and "A \<subseteq> M" and "B \<subseteq> M" and "card M < 2 * card A" and "card M < 2 * card B"
  shows "\<exists>x. x \<in> A \<and> x \<in> B"
proof (rule ccontr)
  assume "\<not> ?thesis"
  then have "A \<inter> B = {}" by blast
  moreover have "finite A" "finite B" using assms finite_subset by blast+
  ultimately have "card (A \<union> B) = card A + card B" by (rule card_Un_disjoint [rotated 2])
  moreover have "card (A \<union> B) \<le> card M" using assms by (intro card_mono) auto
  ultimately show False using assms(4,5) by linarith
qed

lemma one_leader:
  assumes inv: "election_inv c" and leaders: "(i, t) \<in> set (cl_leaders c)" "(j, t) \<in> set (cl_leaders c)"
    and none: "\<forall>k. (k, t) \<notin> set (cl_leader_votes c)"
  shows "i = j"
proof (rule ccontr)
  assume ne: "i \<noteq> j"
  from inv have I: "inv_mail c" "inv_once c" "inv_leaders c" "inv_double c" by (simp_all add: election_inv_def)
  note L = leadersD [OF I(3) leaders(1)] leadersD [OF I(3) leaders(2)]
  obtain k where "k \<in> voters c i t" "k \<in> voters c j t"
    using majorities_meet [OF _ voters_members [OF I(1,2) L(1)] voters_members [OF I(1,2) L(5)] L(4) L(8)] by auto
  then consider "voted c k t i" "voted c k t j" | "voted c i t j" | "voted c j t i" using ne by (auto simp: voters_def)
  then show False using doubleD [OF I(4)] leaders none ne by cases blast+
qed

text \<open>
  C9. Election safety, as far as the code has it. From any members set up from
  configurations that name all of them, over every order, delay and loss of messages, two members
  that have led in the same term are the same member, unless some member granted a vote in that
  term while it was leading in it (a new leader clears its own vote). No term reaches the last
  value of its type on the way.
\<close>

theorem election_safety:
  assumes "configured members config nodes" and "reachable (cluster_step E) terms_guard (new_cluster members nodes) c"
    and "(i, t) \<in> set (cl_leaders c)" and "(j, t) \<in> set (cl_leaders c)" and "\<forall>k. (k, t) \<notin> set (cl_leader_votes c)"
  shows "i = j"
  by (rule one_leader [OF elections.reachable_inv [OF assms(2) configured_inv [OF assms(1)]] assms(3-5)])

text \<open>Member 1 asks for the vote of member 3, which grants it; then member 2 asks for votes in the same term.\<close>

definition ex_election :: "action list" where
  "ex_election = [Act 1 (EvElection 1000 150), Deliver 1 1000, Deliver 1 1000, Act 2 (EvElection 1000 150)]"

fun run_within :: "('e \<Rightarrow> 's \<Rightarrow> 's outcome) \<Rightarrow> ('s \<Rightarrow> bool) \<Rightarrow> 'e list \<Rightarrow> 's \<Rightarrow> 's option" where
  "run_within step guard [] s = Some s"
| "run_within step guard (e # es) s =
     (if guard s then (case step e s of Done s' \<Rightarrow> run_within step guard es s' | _ \<Rightarrow> None) else None)"

lemma run_within_reachable:
  "reachable step guard s0 s \<Longrightarrow> run_within step guard es s = Some s' \<Longrightarrow> reachable step guard s0 s'"
  by (induction es arbitrary: s) (auto split: if_splits outcome.splits intro: reachable.step)

lemma ex_election_run:
  "case run_within (cluster_step ex_env) terms_guard ex_election ex_cluster of
     Some c \<Rightarrow> cl_leaders c = [(1, 1)] \<and> cl_leader_votes c = [] \<and> rn_role (cl_node c 2) = kCandidate \<and> current_term (cl_node c 2) = 1
   | None \<Rightarrow> False"
  by code_simp

lemma ex_configured: "configured [1, 2, 3] ex_config ex_node"
  by (auto simp: configured_def ex_node_def RaftNode_init_def ex_config_wf ex_config_members)

theorem election_safety_witness:
  "\<exists>c. reachable (cluster_step ex_env) terms_guard ex_cluster c \<and> (1, 1) \<in> set (cl_leaders c) \<and>
     rn_role (cl_node c 2) = kCandidate \<and> current_term (cl_node c 2) = 1 \<and> (\<forall>j. (j, 1) \<in> set (cl_leaders c) \<longrightarrow> 1 = j)"
proof (cases "run_within (cluster_step ex_env) terms_guard ex_election ex_cluster")
  case (Some c)
  with ex_election_run have c: "cl_leaders c = [(1, 1)]" "cl_leader_votes c = []" "rn_role (cl_node c 2) = kCandidate"
    "current_term (cl_node c 2) = 1" by (simp_all only: option.case)
  have r: "reachable (cluster_step ex_env) terms_guard ex_cluster c" by (rule run_within_reachable [OF reachable.start Some])
  from election_safety [OF ex_configured r [unfolded ex_cluster_def], of 1 1] c
  have "\<forall>j. (j, 1) \<in> set (cl_leaders c) \<longrightarrow> 1 = j" by simp
  with r c show ?thesis by (intro exI [of _ c]) simp
qed (use ex_election_run in \<open>simp only: option.case\<close>)

end
