(* ===== verification/Rpc_Routes.thy ===== *)
theory Rpc_Routes
  imports Client_State Raft_Cluster
begin

text \<open>
  The calls between the programs: the requests a member sends to its peers
  (\<open>include/vosfs/raft/peer.hpp\<close>, \<open>src/raft/transport.cpp\<close>), those of the client
  (\<open>src/ui/client.cpp\<close>), and the methods under which each server registers its handlers
  (\<open>wait\<close> in \<open>src/raft/node.cpp\<close>, \<open>src/auth/node.cpp\<close> and \<open>src/storage/node.cpp\<close>). The RPC library is
  outside: a call is the address of the client that makes it, the names of service and method and
  the message, and a server hands a call to the handler registered under both names, whose message
  types are the template arguments of the registration.
\<close>

section \<open>Calls\<close>

datatype request =
    ReqRequestVote RequestVoteRequest
  | ReqAppendEntries AppendEntriesRequest
  | ReqInstallSnapshot InstallSnapshotRequest
  | ReqListDir ListDirRequest
  | ReqMakeDir MakeDirRequest
  | ReqPrepareUploadFile PrepareUploadFileRequest
  | ReqUploadFile UploadFileRequest
  | ReqPrepareDownloadFile PrepareDownloadFileRequest
  | ReqUploadBlock UploadBlockRequest
  | ReqDownloadBlock DownloadBlockRequest
  | ReqRegisterUser RegisterUserRequest
  | ReqDeleteUser DeleteUserRequest
  | ReqLoginUserByName LoginUserByNameRequest

record wire_call =
  wc_service :: string
  wc_method :: string
  wc_request :: request

record peer_call =
  pc_host :: string
  pc_port :: u16
  pc_call :: wire_call

definition wire :: "string \<Rightarrow> string \<Rightarrow> request \<Rightarrow> wire_call" where
  "wire service mname request = \<lparr>wc_service = service, wc_method = mname, wc_request = request\<rparr>"

definition peer_call_method :: "Peer \<Rightarrow> string \<Rightarrow> string \<Rightarrow> request \<Rightarrow> peer_call" where
  "peer_call_method p service mname request =
     \<lparr>pc_host = pe_host p, pc_port = pe_port p, pc_call = wire service mname request\<rparr>"

section \<open>The calls of a member\<close>

definition send_request_vote_request :: "RequestVoteRequest \<Rightarrow> Peer \<Rightarrow> peer_call" where
  "send_request_vote_request request p = peer_call_method p ''raft'' ''requestvote'' (ReqRequestVote request)"

definition send_append_entries_request :: "AppendEntriesRequest \<Rightarrow> Peer \<Rightarrow> peer_call" where
  "send_append_entries_request request p = peer_call_method p ''raft'' ''appendentries'' (ReqAppendEntries request)"

definition send_install_snapshot_request :: "InstallSnapshotRequest \<Rightarrow> Peer \<Rightarrow> peer_call" where
  "send_install_snapshot_request request p = peer_call_method p ''raft'' ''installsnapshot'' (ReqInstallSnapshot request)"

text \<open>Peers are called one after the other, the member itself is passed over.\<close>

definition broadcast_request_vote_request :: "RequestVoteRequest \<Rightarrow> Transport \<Rightarrow> peer_call list" where
  "broadcast_request_vote_request request t =
     map (send_request_vote_request request) (filter (\<lambda>p. pe_id p \<noteq> tr_member_id t) (um_values (tr_peers t)))"

definition unicast_append_entries_request :: "u64 \<Rightarrow> AppendEntriesRequest \<Rightarrow> Transport \<Rightarrow> peer_call outcome" where
  "unicast_append_entries_request m request t =
     (case unicast_target t m of None \<Rightarrow> Crashed | Some p \<Rightarrow> Done (send_append_entries_request request p))"

definition unicast_install_snapshot_request :: "u64 \<Rightarrow> InstallSnapshotRequest \<Rightarrow> Transport \<Rightarrow> peer_call outcome" where
  "unicast_install_snapshot_request m request t =
     (case unicast_target t m of None \<Rightarrow> Crashed | Some p \<Rightarrow> Done (send_install_snapshot_request request p))"

text \<open>The clients that are shut down, by their address.\<close>

definition Peer_shutdown :: "Peer \<Rightarrow> string \<times> u16" where
  "Peer_shutdown p = (pe_host p, pe_port p)"

definition Transport_shutdown :: "Transport \<Rightarrow> (string \<times> u16) list" where
  "Transport_shutdown t = map Peer_shutdown (um_values (tr_peers t))"

section \<open>The calls of the client\<close>

datatype server = AuthServer | RaftServer u64 | DataServer u64

fun client_call :: "rpc \<Rightarrow> server \<times> wire_call" where
  "client_call (CallRegister q) = (AuthServer, wire ''user'' ''register'' (ReqRegisterUser q))"
| "client_call (CallDelete q) = (AuthServer, wire ''user'' ''delete'' (ReqDeleteUser q))"
| "client_call (CallLogin q) = (AuthServer, wire ''user'' ''loginbyname'' (ReqLoginUserByName q))"
| "client_call (CallListDir i q) = (RaftServer i, wire ''fs'' ''ls'' (ReqListDir q))"
| "client_call (CallMakeDir i q) = (RaftServer i, wire ''fs'' ''mkdir'' (ReqMakeDir q))"
| "client_call (CallPrepareUploadFile i q) = (RaftServer i, wire ''fs'' ''prepareuploadfile'' (ReqPrepareUploadFile q))"
| "client_call (CallUploadBlock i q) = (DataServer i, wire ''fs'' ''uploadblock'' (ReqUploadBlock q))"
| "client_call (CallUploadFile i q) = (RaftServer i, wire ''fs'' ''uploadfile'' (ReqUploadFile q))"
| "client_call (CallPrepareDownloadFile i q) = (RaftServer i, wire ''fs'' ''preparedownloadfile'' (ReqPrepareDownloadFile q))"
| "client_call (CallDownloadBlock i q) = (DataServer i, wire ''fs'' ''downloadblock'' (ReqDownloadBlock q))"

section \<open>The methods of the servers\<close>

text \<open>A handler, by the types of its request and response.\<close>

datatype handler =
    OnRequestVote | OnAppendEntries | OnInstallSnapshot
  | OnListDir | OnMakeDir | OnPrepareUploadFile | OnUploadFile | OnPrepareDownloadFile
  | OnUploadBlock | OnDownloadBlock
  | OnRegisterUser | OnDeleteUser | OnLoginUserByName

fun typed_for :: "request \<Rightarrow> handler" where
  "typed_for (ReqRequestVote q) = OnRequestVote"
| "typed_for (ReqAppendEntries q) = OnAppendEntries"
| "typed_for (ReqInstallSnapshot q) = OnInstallSnapshot"
| "typed_for (ReqListDir q) = OnListDir"
| "typed_for (ReqMakeDir q) = OnMakeDir"
| "typed_for (ReqPrepareUploadFile q) = OnPrepareUploadFile"
| "typed_for (ReqUploadFile q) = OnUploadFile"
| "typed_for (ReqPrepareDownloadFile q) = OnPrepareDownloadFile"
| "typed_for (ReqUploadBlock q) = OnUploadBlock"
| "typed_for (ReqDownloadBlock q) = OnDownloadBlock"
| "typed_for (ReqRegisterUser q) = OnRegisterUser"
| "typed_for (ReqDeleteUser q) = OnDeleteUser"
| "typed_for (ReqLoginUserByName q) = OnLoginUserByName"

definition raft_methods :: "((string \<times> string) \<times> handler) list" where
  "raft_methods =
     [((''raft'', ''requestvote''), OnRequestVote),
      ((''raft'', ''appendentries''), OnAppendEntries),
      ((''raft'', ''installsnapshot''), OnInstallSnapshot),
      ((''fs'', ''ls''), OnListDir),
      ((''fs'', ''mkdir''), OnMakeDir),
      ((''fs'', ''prepareuploadfile''), OnPrepareUploadFile),
      ((''fs'', ''uploadfile''), OnUploadFile),
      ((''fs'', ''preparedownloadfile''), OnPrepareDownloadFile)]"

definition auth_methods :: "((string \<times> string) \<times> handler) list" where
  "auth_methods =
     [((''user'', ''register''), OnRegisterUser),
      ((''user'', ''delete''), OnDeleteUser),
      ((''user'', ''loginbyname''), OnLoginUserByName)]"

definition data_methods :: "((string \<times> string) \<times> handler) list" where
  "data_methods =
     [((''fs'', ''uploadblock''), OnUploadBlock),
      ((''fs'', ''downloadblock''), OnDownloadBlock)]"

fun methods_of :: "server \<Rightarrow> ((string \<times> string) \<times> handler) list" where
  "methods_of AuthServer = auth_methods"
| "methods_of (RaftServer i) = raft_methods"
| "methods_of (DataServer i) = data_methods"

text \<open>The handler that serves a call, if the names are registered and the message has its type.\<close>

definition dispatch :: "((string \<times> string) \<times> handler) list \<Rightarrow> wire_call \<Rightarrow> handler option" where
  "dispatch methods call =
     (case map_of methods (wc_service call, wc_method call) of
        None \<Rightarrow> None
      | Some h \<Rightarrow> if typed_for (wc_request call) = h then Some h else None)"

text \<open>
  The step of a member that a served request is, for the handlers that change its state; \<open>h\<close> is
  the coroutine that waits for the answer.
\<close>

fun started :: "u64 \<Rightarrow> nat \<Rightarrow> request \<Rightarrow> event option" where
  "started now h (ReqRequestVote q) = Some (EvVoteRequest now q)"
| "started now h (ReqAppendEntries q) = Some (EvAppendRequest now q)"
| "started now h (ReqInstallSnapshot q) = Some (EvInstallRequest now q)"
| "started now h (ReqMakeDir q) = Some (EvMakeDir now h q)"
| "started now h (ReqPrepareUploadFile q) = Some (EvPrepareUpload q)"
| "started now h (ReqUploadFile q) = Some (EvUpload h q)"
| "started now h _ = None"

definition raft_serve :: "u64 \<Rightarrow> nat \<Rightarrow> wire_call \<Rightarrow> event option" where
  "raft_serve now h call = Option.bind (dispatch raft_methods call) (\<lambda>_. started now h (wc_request call))"

section \<open>Properties\<close>

lemmas route_defs = dispatch_def wire_def raft_methods_def auth_methods_def data_methods_def

lemma sent_served:
  "raft_serve now h (pc_call (send_request_vote_request v p)) = Some (EvVoteRequest now v)"
  "raft_serve now h (pc_call (send_append_entries_request a p)) = Some (EvAppendRequest now a)"
  "raft_serve now h (pc_call (send_install_snapshot_request s p)) = Some (EvInstallRequest now s)"
  by (simp_all add: raft_serve_def send_request_vote_request_def send_append_entries_request_def
      send_install_snapshot_request_def peer_call_method_def route_defs)

text \<open>
  Every call of the client names a method that the server it goes to has
  registered for messages of that type, and no server registers two handlers under the same names.
\<close>

theorem client_calls_served:
  "dispatch (methods_of (fst (client_call k))) (snd (client_call k)) = Some (typed_for (wc_request (snd (client_call k)))) \<and>
   distinct (map fst (methods_of (fst (client_call k))))"
  by (cases k) (simp_all add: route_defs)

lemma transport_find:
  assumes "config_wf config"
  shows "unicast_target (Transport_create config) m = map_option make_peer (um_find (cfg_raft_nodes config) m)"
  unfolding unicast_target_def transport_peers [OF assms]
  by (induction "cfg_raft_nodes config") (simp_all add: um_find_def map_of_map)

text \<open>The call goes to the address of a configured node and starts the given step there.\<close>

definition reaches :: "u64 \<Rightarrow> nat \<Rightarrow> event \<Rightarrow> NodeInfo \<Rightarrow> peer_call \<Rightarrow> bool" where
  "reaches now h ev n c \<longleftrightarrow> pc_host c = ni_host n \<and> pc_port c = ni_port n \<and> raft_serve now h (pc_call c) = Some ev"

lemma sent_reaches:
  "reaches now h (EvVoteRequest now v) n (send_request_vote_request v (make_peer n))"
  "reaches now h (EvAppendRequest now a) n (send_append_entries_request a (make_peer n))"
  "reaches now h (EvInstallRequest now s) n (send_install_snapshot_request s (make_peer n))"
  unfolding reaches_def sent_served
  by (simp_all add: send_request_vote_request_def send_append_entries_request_def send_install_snapshot_request_def
      peer_call_method_def make_peer_def)

lemma broadcast_peers:
  assumes "config_wf config"
  shows "broadcast_request_vote_request v (Transport_create config) =
    map (\<lambda>(i, n). send_request_vote_request v (make_peer n)) (filter (\<lambda>(i, n). i \<noteq> cfg_member_id config) (cfg_raft_nodes config))"
proof -
  have ids: "ni_id n = i" if "(i, n) \<in> set (cfg_raft_nodes config)" for i n using assms that by (auto simp: config_wf_def)
  have self: "tr_member_id (Transport_create config) = cfg_member_id config" by (simp add: Transport_create_def)
  show ?thesis using ids unfolding broadcast_request_vote_request_def self transport_peers [OF assms]
    by (auto simp: um_values_def filter_map comp_def make_peer_def split_def intro!: arg_cong [of _ _ "map _"] filter_cong)
qed

text \<open>
  C36. A member set up from its configuration sends a request for votes once to
  the configured address of every other node and to none else, and an append or snapshot request to
  the configured address of the node it is meant for; there each starts the handler of its kind with
  the same message. A member that is not configured is a null pointer.
\<close>

theorem peer_calls_reach_member:
  assumes "config_wf config"
  shows "list_all2 (\<lambda>(i, n) c. reaches now h (EvVoteRequest now v) n c)
      (filter (\<lambda>(i, n). i \<noteq> cfg_member_id config) (cfg_raft_nodes config)) (broadcast_request_vote_request v (Transport_create config)) \<and>
    (case um_find (cfg_raft_nodes config) m of
       None \<Rightarrow> unicast_append_entries_request m a (Transport_create config) = Crashed \<and>
         unicast_install_snapshot_request m s (Transport_create config) = Crashed
     | Some n \<Rightarrow> \<exists>c d. unicast_append_entries_request m a (Transport_create config) = Done c \<and>
         unicast_install_snapshot_request m s (Transport_create config) = Done d \<and>
         reaches now h (EvAppendRequest now a) n c \<and> reaches now h (EvInstallRequest now s) n d)"
  using transport_find [OF assms, of m] sent_reaches(2,3)
  by (auto simp: broadcast_peers [OF assms] list_all2_conv_all_nth sent_reaches(1) split_beta
      unicast_append_entries_request_def unicast_install_snapshot_request_def split: option.splits)

theorem peer_calls_reach_member_witness:
  "um_find (cfg_raft_nodes (ex_config 1)) 2 = Some \<lparr>ni_id = 2, ni_name = ''b'', ni_host = ''h'', ni_port = 2\<rparr> \<and>
   (\<exists>c. unicast_append_entries_request 2 AppendEntriesRequest_default (Transport_create (ex_config 1)) = Done c \<and>
     pc_host c = ''h'' \<and> pc_port c = 2 \<and> raft_serve 5 0 (pc_call c) = Some (EvAppendRequest 5 AppendEntriesRequest_default))"
proof -
  have "um_find (cfg_raft_nodes (ex_config 1)) 2 = Some \<lparr>ni_id = 2, ni_name = ''b'', ni_host = ''h'', ni_port = 2\<rparr>" by code_simp
  with peer_calls_reach_member [OF ex_config_wf [of 1], of 5 0 _ 2 AppendEntriesRequest_default] show ?thesis
    by (auto simp: reaches_def)
qed

end
