(* ===== verification/Write_Round.thy ===== *)
theory Write_Round
  imports Raft_Service Raft_Cluster
begin

text \<open>
  A write through a whole cluster: the leader logs the request, one heartbeat takes the entry to the
  followers, their answers commit it, the client is answered, and the next heartbeat makes the
  followers apply it. \<open>settled\<close> is a cluster at rest; a write leads from one settled state to the next.
\<close>

lemma run_append: "run step (es @ es') s = co_await (run step es s) (run step es')"
  by (induction es arbitrary: s) (auto simp: co_await_def split: outcome.splits)

section \<open>The follower\<close>

text \<open>The transport of member \<open>j\<close> knows exactly the members \<open>M\<close>; the maps of a leader mention no others.\<close>

definition linked :: "u64 set \<Rightarrow> u64 \<Rightarrow> Transport \<Rightarrow> bool" where
  "linked M j T \<longleftrightarrow> member_id T = j \<and> um_wf (tr_peers T) \<and> set (um_keys (tr_peers T)) = M \<and> (\<forall>(k, p) \<in> set (tr_peers T). pe_id p = k)"

definition tracks :: "u64 set \<Rightarrow> ('db, 'fs) RaftNode \<Rightarrow> bool" where
  "tracks M n \<longleftrightarrow> um_wf (rn_next_index n) \<and> set (um_keys (rn_next_index n)) \<subseteq> M \<and> um_wf (rn_match_index n) \<and> set (um_keys (rn_match_index n)) \<subseteq> M"

definition free_behind :: "u64 \<Rightarrow> ('db, 'fs) RaftNode \<Rightarrow> bool" where
  "free_behind v n \<longleftrightarrow> (\<forall>k > v. \<not> um_contains (sm_pending (rn_state_machine n)) k)"

lemma linked_id: "linked M j T \<Longrightarrow> member_id T = j"
  by (simp add: linked_def)

lemma linked_unicast: "linked M i T \<Longrightarrow> j \<in> M \<Longrightarrow> unicast_target T j \<noteq> None"
  by (auto simp: linked_def unicast_target_def um_keys_def um_find_def map_of_eq_None_iff)

text \<open>A follower with log \<open>l\<close>, everything up to \<open>c\<close> committed and applied, and the name space \<open>rep\<close>.\<close>

definition holds :: "u64 set \<Rightarrow> u64 \<Rightarrow> RaftLog \<Rightarrow> u64 \<Rightarrow> StateMachine \<Rightarrow> u64 \<Rightarrow> ('db, 'fs) RaftNode \<Rightarrow> bool" where
  "holds M t l c rep j n \<longleftrightarrow> rn_role n = kFollower \<and> current_term n = t \<and> rn_logs n = l \<and> \<not> sp_locked (rn_snapshotter n) \<and>
     rn_commit_index n = c \<and> rn_last_applied n = c \<and> replica (rn_state_machine n) = rep \<and>
     linked M j (rn_transport n) \<and> tracks M n \<and> free_behind (last_log_index l) n"

lemma no_response_pending: "sm_pending (sm_apply_entry_no_response C now e sm) = sm_pending sm"
  by (auto simp: sm_apply_entry_no_response_def mkdir_def upload_file_def add_child_def Let_def split: option.splits EntryCommand.splits)

lemma apply_loop_follower:
  "apply_loop E now c n = Done (n', rs) \<Longrightarrow> rn_role n \<noteq> kLeader \<Longrightarrow> rs = [] \<and> sm_pending (rn_state_machine n') = sm_pending (rn_state_machine n)"
proof (induction E now c n arbitrary: n' rs rule: apply_loop.induct)
  case (1 E now c n)
  show ?case
  proof (cases "rn_last_applied n < c")
    case False
    with "1.prems" show ?thesis by (simp add: apply_loop.simps)
  next
    case True
    with "1.prems" obtain n1 rs1 rs2 where one: "apply_one E now n = Done (n1, rs1)"
      and rest: "apply_loop E now c n1 = Done (n', rs2)" and rs: "rs = rs1 @ rs2"
      by (subst (asm) apply_loop.simps) (auto split: outcome.splits)
    from one have "rn_role n1 = rn_role n \<and> rs1 = [] \<and> sm_pending (rn_state_machine n1) = sm_pending (rn_state_machine n)" using "1.prems"(2)
      by (cases rule: apply_one_cases) (simp add: applied_state_def no_response_pending)
    with "1.IH" [OF True one refl rest] "1.prems"(2) rs show ?thesis by simp
  qed
qed

text \<open>A follower of the same term takes a heartbeat: up to the storing of the entries nothing else changes.\<close>

lemma same_term_append:
  assumes "aeq_term q = current_term n" and "log_wf (rn_logs n)"
    and "get_term (rn_logs n) (aeq_prev_log_index q) = Some (aeq_prev_log_term q)"
  shows "handle_append_entries_request E now q n =
    co_await (store_entries E (aeq_entries q) (n\<lparr>rn_leader_id := Some (aeq_leader_id q), rn_last_reset_time := now\<rparr>)) (append_finish E now q)"
proof -
  define n2 where "n2 = n\<lparr>rn_leader_id := Some (aeq_leader_id q), rn_last_reset_time := now\<rparr>"
  have "prev_log_ok q (rn_logs n) = Done True"
    using rlog.term_at_iff [OF assms(2), of "aeq_prev_log_index q"] assms(3) by (simp add: prev_log_ok_def)
  with assms(1) show ?thesis unfolding n2_def [symmetric]
    by (cases "store_entries E (aeq_entries q) n2")
      (simp_all add: handle_append_entries_request_def append_finish_def Let_def n2_def store_entries_transport)
qed

lemma follower_round:
  fixes fo :: "('db, 'fs) RaftNode" and ld :: "('db1, 'fs1) RaftNode" and E :: "('db, 'fs, 'tok) env"
  assumes fo: "holds M t (log_prefix k l) c rep j fo" and l: "fresh_log l" "rn_logs ld = l" "current_term ld = t"
    and k: "k \<le> length (rl_entries l)" "length (rl_entries l) \<le> k + 64" "length (rl_entries l) < 2 ^ 64 - 1"
    and c: "c \<le> rn_commit_index ld" "rn_commit_index ld \<le> last_log_index l"
    and E: "writes_ok (env_db E)" "env_ok E view"
  obtains fo' where
    "handle_append_entries_request E now (heartbeat_request ld (of_nat k + 1)) fo =
       Done (fo', make_append_entries_response j t True (last_log_index l) None, [])"
    "holds M t l (rn_commit_index ld)
       (fold (sm_apply_entry_no_response (env_codec E) now)
          (take (unat (rn_commit_index ld) - unat c) (drop (unat c) (rl_entries l))) rep) j fo'"
proof -
  let ?q = "heartbeat_request ld (of_nat k + 1)" and ?c = "rn_commit_index ld"
  have wf: "log_wf (rn_logs ld)" and base: "rl_last_included_index (rn_logs ld) = 0" using l by (simp_all add: fresh_log_def)
  have wfl: "log_wf (rn_logs fo)" "log_wf l" "rl_last_included_index l = 0"
    using fo l log_prefix_wf [OF wf, of k] by (simp_all add: holds_def fresh_log_def)
  note q = heartbeat_prefix_request [OF wf _ base, of k, unfolded l(2,3), OF k(1,3)]
  have qc: "aeq_leader_commit ?q = ?c" by (simp add: heartbeat_request_def make_append_entries_request_def)
  define n2 where "n2 = fo\<lparr>rn_leader_id := Some (aeq_leader_id ?q), rn_last_reset_time := now\<rparr>"
  have "log_prefix (k + 64) l = l" using k(2) by (simp add: log_prefix_def)
  then obtain db where st: "store_entries E (aeq_entries ?q) n2 = Done (n2\<lparr>rn_persister := db, rn_logs := l\<rparr>)"
    using prefix_stored [OF wfl(2) k(1) _ wfl(3) E k(3), of n2] fo by (auto simp: q holds_def n2_def)
  define n3 where "n3 = n2\<lparr>rn_persister := db, rn_logs := l\<rparr>"
  have "get_term (rn_logs fo) (aeq_prev_log_index ?q) = Some (aeq_prev_log_term ?q)" "aeq_term ?q = current_term fo"
    using q fo by (simp_all add: holds_def)
  then have f: "handle_append_entries_request E now ?q fo = append_finish E now ?q n3"
    using same_term_append [OF _ wfl(1), of ?q E now] st by (simp add: n2_def n3_def)
  have "last_log_index (log_prefix k l) \<le> last_log_index l"
    using log_prefix_last [OF wfl(2) k(1)] last_log_index_wf [OF wfl(2)] k(1) wfl(3) by (simp add: word_le_nat_alt)
  then have n3: "holds M t l c rep j n3" using fo by (auto simp: holds_def n3_def n2_def tracks_def free_behind_def)
  have id: "member_id (rn_transport n3) = j" using n3 linked_id by (auto simp: holds_def)
  show thesis
  proof (cases "c < ?c")
    case False
    with c(1) have "?c = c" by simp
    with f n3 id q qc show thesis by (intro that [of n3]) (simp_all add: append_finish_def holds_def)
  next
    case True
    let ?n = "n3\<lparr>rn_commit_index := ?c\<rparr>"
    obtain n' rs where ok: "apply_loop E now ?c ?n = Done (n', rs)" "rn_last_applied n' = ?c" "\<not> sp_locked (rn_snapshotter n')" "rn_logs n' = l"
      "replica (rn_state_machine n') = fold (sm_apply_entry_no_response (env_codec E) now)
        (take (unat ?c - unat c) (drop (unat c) (rl_entries l))) rep"
      using apply_loop_ok [of ?n ?c E now] True c n3 l by (auto simp: holds_def)
    have "min (last_log_index l) ?c = ?c" using c(2) by simp
    with True f n3 q qc ok(1,4) apply_loop_core [OF ok(1)] id have "handle_append_entries_request E now ?q fo =
        Done (n', make_append_entries_response j t True (last_log_index l) None, rs)"
      by (simp add: append_finish_def apply_entry_def holds_def core_def)
    moreover have "rs = []" "sm_pending (rn_state_machine n') = sm_pending (rn_state_machine n3)"
      using apply_loop_follower [OF ok(1)] n3 by (simp_all add: holds_def)
    moreover have "core n' = core ?n" "rn_commit_index n' = ?c" using apply_loop_core [OF ok(1)] by simp_all
    ultimately show thesis using ok n3 by (intro that [of n']) (simp_all add: holds_def core_def tracks_def free_behind_def)
  qed
qed

section \<open>The leader\<close>

text \<open>The element that is committed when all members but one have acknowledged an index.\<close>

lemma sorted_below:
  assumes "sorted xs" and "k < length xs" and "xs ! k < (v :: 'a :: linorder)"
  shows "Suc k \<le> length (filter (\<lambda>x. x < v) xs)"
proof -
  have "xs ! i < v" if "i < Suc k" for i
    using sorted_nth_mono [OF assms(1), of i k] assms(2,3) that by simp
  then have "\<forall>x \<in> set (take (Suc k) xs). x < v" using assms(2) by (auto simp: in_set_conv_nth)
  then have "filter (\<lambda>x. x < v) (take (Suc k) xs) = take (Suc k) xs" by (simp add: filter_id_conv)
  then have "filter (\<lambda>x. x < v) xs = take (Suc k) xs @ filter (\<lambda>x. x < v) (drop (Suc k) xs)"
    by (metis append_take_drop_id filter_append)
  then show ?thesis using assms(2) by simp
qed

lemma one_value_below:
  assumes "distinct (map fst m)" and "\<forall>(j, x) \<in> set m. j \<noteq> i \<longrightarrow> v \<le> x"
  shows "length (filter (\<lambda>x. x < (v :: u64)) (map snd m)) \<le> 1"
  using assms
proof (induction m)
  case (Cons p m)
  show ?case
  proof (cases "snd p < v")
    case True
    with Cons.prems(2) have "fst p = i" by (cases p) (auto simp: not_le [symmetric])
    with Cons.prems have "\<forall>x \<in> set (map snd m). \<not> x < v" by force
    then have "filter (\<lambda>x. x < v) (map snd m) = []" by (simp only: filter_empty_conv)
    then show ?thesis by simp
  next
    case False
    with Cons show ?thesis by simp
  qed
qed simp

lemma commit_all_but_one:
  assumes "um_wf m" and "2 \<le> length m" and "\<forall>(j, x) \<in> set m. j \<noteq> i \<longrightarrow> v \<le> x"
  shows "v \<le> commit_candidate m"
proof (rule ccontr)
  let ?xs = "sort (um_values m)"
  assume "\<not> ?thesis"
  then have "?xs ! (length ?xs div 2) < v" by (simp add: commit_candidate_def Let_def)
  moreover have len: "length ?xs = length m" by (simp add: um_values_def)
  ultimately have "Suc (length m div 2) \<le> length (filter (\<lambda>x. x < v) ?xs)"
    using sorted_below [of ?xs "length m div 2" v] assms(2) by simp
  also have "\<dots> \<le> 1" unfolding filter_sort_length um_values_def
    using assms by (intro one_value_below) (simp_all add: um_wf_def)
  finally show False using assms(2) by simp
qed

definition leading :: "u64 \<Rightarrow> u64 set \<Rightarrow> u64 \<Rightarrow> RaftLog \<Rightarrow> u64 \<Rightarrow> ('db, 'fs) RaftNode \<Rightarrow> bool" where
  "leading i M t l c n \<longleftrightarrow> rn_role n = kLeader \<and> current_term n = t \<and> rn_logs n = l \<and> \<not> sp_locked (rn_snapshotter n) \<and>
     rn_commit_index n = c \<and> rn_last_applied n = c \<and> linked M i (rn_transport n) \<and>
     um_wf (rn_next_index n) \<and> set (um_keys (rn_next_index n)) = M \<and> um_wf (rn_match_index n) \<and> set (um_keys (rn_match_index n)) = M"

definition acked :: "u64 \<Rightarrow> u64 \<Rightarrow> ('db, 'fs) RaftNode \<Rightarrow> ('db, 'fs) RaftNode" where
  "acked j v n = n\<lparr>rn_match_index := um_assign j v (rn_match_index n), rn_next_index := um_assign j (v + 1) (rn_next_index n)\<rparr>"

lemma acked_leading: "leading i M t l c n \<Longrightarrow> j \<in> M \<Longrightarrow> leading i M t l c (acked j v n)"
  by (auto simp: leading_def acked_def um_keys_assign)

abbreviation yes :: "u64 \<Rightarrow> u64 \<Rightarrow> u64 \<Rightarrow> AppendEntriesResponse" where
  "yes j t v \<equiv> make_append_entries_response j t True v None"

lemma ack_handled:
  assumes "leading i M t l c n"
  shows "handle_append_entries_response E now (yes j t v) n =
    (let v' = commit_candidate (rn_match_index (acked j v n))
     in if v' > c then apply_entry E now ((acked j v n)\<lparr>rn_commit_index := v'\<rparr>) else Done (acked j v n, []))"
  using assms by (auto simp: handle_append_entries_response_def make_append_entries_response_def leading_def acked_def Let_def)

lemma ack_commits:
  fixes E :: "('db, 'fs, 'tok) env" and now
  assumes n: "leading i M t l c n" and l: "fresh_log l" and v: "last_log_index l = c + 1" "c \<noteq> - 1"
    and j: "j \<in> M" and m: "commit_candidate (rn_match_index (acked j (c + 1) n)) = c + 1"
  defines "a \<equiv> sm_apply_entry (env_codec E) now (last (rl_entries l)) (rn_state_machine n)"
  obtains n' where "handle_append_entries_response E now (yes j t (c + 1)) n = Done (n', snd a)" "leading i M t l (c + 1) n'"
    "rn_state_machine n' = fst a" "rn_match_index n' = rn_match_index (acked j (c + 1) n)" "rn_next_index n' = rn_next_index (acked j (c + 1) n)"
proof -
  let ?n = "(acked j (c + 1) n)\<lparr>rn_commit_index := c + 1\<rparr>"
  have lt: "c < c + 1" using v(2) by (simp add: less_succ_iff)
  then have h: "handle_append_entries_response E now (yes j t (c + 1)) n = apply_loop E now (c + 1) ?n"
    unfolding ack_handled [OF n] Let_def m by (simp add: apply_entry_def)
  have n1: "fresh_log (rn_logs ?n)" "\<not> sp_locked (rn_snapshotter ?n)" "rn_last_applied ?n < last_log_index (rn_logs ?n)"
    "rn_last_applied ?n = c" "rn_logs ?n = l" "rn_role ?n = kLeader" "rn_state_machine ?n = rn_state_machine n"
    using n l v lt by (simp_all add: leading_def acked_def)
  have "Suc (unat c) = length (rl_entries l)"
    using last_log_index_wf [of l] l v by (simp add: fresh_log_def unat_succ)
  then have e: "rl_entries l ! unat c = last (rl_entries l)" by (metis diff_Suc_1 last_conv_nth list.size(3) nat.distinct(1))
  have ap: "applied_state E now (rl_entries (rn_logs ?n) ! unat (rn_last_applied ?n)) ?n = a"
    using n1(4-7) by (simp add: applied_state_def e a_def)
  obtain n' where one: "apply_one E now ?n = Done (n', snd a)" "rn_last_applied n' = rn_last_applied ?n + 1" "rn_logs n' = rn_logs ?n"
    "\<not> sp_locked (rn_snapshotter n')" "rn_state_machine n' = fst a"
    by (rule apply_one_ok [OF n1(1-3), of E now, unfolded ap]) blast
  have loop: "apply_loop E now (c + 1) ?n = Done (n', snd a)"
    using lt one(1,2) n1(4) apply_loop_done [of "c + 1" n' E now] by (subst apply_loop.simps) simp
  from apply_loop_core [OF this] have "core n' = core ?n" "rn_commit_index n' = c + 1" by simp_all
  with loop h one acked_leading [OF n j, of "c + 1"] n1(4) show thesis
    by (intro that [of n']) (simp_all add: leading_def core_def acked_def)
qed

text \<open>
  The leader while it waits for the followers, and once it has committed the last entry. \<open>effect\<close> says
  what applying the last entry does: the answers, the name space, and no request pending behind it.
\<close>

definition effect :: "codec \<Rightarrow> RaftLog \<Rightarrow> StateMachine \<Rightarrow> StateMachine \<Rightarrow> resumed \<Rightarrow> bool" where
  "effect C l sm rep ans \<longleftrightarrow> (\<forall>now. case sm_apply_entry C now (last (rl_entries l)) sm of (sm', rs) \<Rightarrow>
     rs = ans \<and> replica sm' = rep \<and> (\<forall>k > last_log_index l. \<not> um_contains (sm_pending sm') k))"

definition waiting :: "u64 \<Rightarrow> u64 set \<Rightarrow> u64 \<Rightarrow> RaftLog \<Rightarrow> u64 \<Rightarrow> StateMachine \<Rightarrow> ('db, 'fs) RaftNode \<Rightarrow> bool" where
  "waiting i M t l c sm n \<longleftrightarrow> leading i M t l c n \<and> rn_state_machine n = sm \<and> commit_candidate (rn_match_index n) \<le> c"

definition answered :: "u64 \<Rightarrow> u64 set \<Rightarrow> u64 \<Rightarrow> RaftLog \<Rightarrow> StateMachine \<Rightarrow> ('db, 'fs) RaftNode \<Rightarrow> bool" where
  "answered i M t l rep n \<longleftrightarrow> leading i M t l (last_log_index l) n \<and> replica (rn_state_machine n) = rep \<and>
     free_behind (last_log_index l) n"

definition within :: "u64 \<Rightarrow> ('db, 'fs) RaftNode \<Rightarrow> bool" where
  "within c n \<longleftrightarrow> um_all (\<lambda>v. v \<le> c \<or> v = c + 1) (rn_match_index n)"

lemma within_acked: "within c n \<Longrightarrow> within c (acked j (c + 1) n)"
  by (simp add: within_def acked_def um_all_intros(3))

lemma within_candidate:
  assumes "within c n"
  shows "commit_candidate (rn_match_index (acked j (c + 1) n)) \<le> c \<or> commit_candidate (rn_match_index (acked j (c + 1) n)) = c + 1"
proof -
  have "rn_match_index (acked j (c + 1) n) \<noteq> []" using um_assign_nonempty by (simp add: acked_def)
  from um_all_values [OF within_acked [OF assms, of j, unfolded within_def] commit_candidate_member [OF this]] show ?thesis .
qed

lemma ack_stage:
  fixes E :: "('db, 'fs, 'tok) env" and n :: "('db, 'fs) RaftNode"
  assumes l: "fresh_log l" "last_log_index l = c + 1" "c \<noteq> - 1" and j: "j \<in> M" and w: "within c n"
    and st: "b \<and> waiting i M t l c sm n \<and> rs = [] \<or> answered i M t l rep n \<and> rs = ans"
    and eff: "b \<longrightarrow> effect (env_codec E) l sm rep ans"
  obtains n' rs' where "handle_append_entries_response E now (yes j t (c + 1)) n = Done (n', rs')"
    "rn_match_index n' = rn_match_index (acked j (c + 1) n)" "rn_next_index n' = rn_next_index (acked j (c + 1) n)"
    "b \<and> waiting i M t l c sm n' \<and> rs @ rs' = [] \<or> answered i M t l rep n' \<and> rs @ rs' = ans"
proof -
  have lt: "\<not> c + 1 < c" "c < c + 1" using l(3) by (simp_all add: less_succ_iff not_less less_imp_le)
  let ?v = "commit_candidate (rn_match_index (acked j (c + 1) n))"
  from st consider (quiet) "b" "waiting i M t l c sm n" "rs = []" "?v \<le> c" | (commits) "b" "waiting i M t l c sm n" "rs = []" "?v = c + 1"
    | (over) "answered i M t l rep n" "rs = ans" using within_candidate [OF w, of j] by auto
  then show thesis
  proof cases
    case quiet
    then have n: "leading i M t l c n" by (simp add: waiting_def)
    show thesis
    proof (rule that)
      show "handle_append_entries_response E now (yes j t (c + 1)) n = Done (acked j (c + 1) n, [])"
        unfolding ack_handled [OF n] Let_def using quiet(4) by (auto dest: leD)
    qed (use quiet acked_leading [OF n j] in \<open>simp_all add: waiting_def, simp add: acked_def\<close>)
  next
    case commits
    then have n: "leading i M t l c n" "rn_state_machine n = sm" by (simp_all add: waiting_def)
    obtain n' where n': "handle_append_entries_response E now (yes j t (c + 1)) n =
        Done (n', snd (sm_apply_entry (env_codec E) now (last (rl_entries l)) sm))" "leading i M t l (c + 1) n'"
      "rn_state_machine n' = fst (sm_apply_entry (env_codec E) now (last (rl_entries l)) sm)"
      "rn_match_index n' = rn_match_index (acked j (c + 1) n)" "rn_next_index n' = rn_next_index (acked j (c + 1) n)"
      using ack_commits [OF n(1) l j commits(4), of E now] n(2) by metis
    have "snd (sm_apply_entry (env_codec E) now (last (rl_entries l)) sm) = ans" "answered i M t l rep n'"
      using eff [rule_format, OF commits(1), unfolded effect_def, rule_format, of now] n'(2,3) l(2) by (simp_all add: answered_def free_behind_def split_beta)
    with n' commits(3) show thesis by (intro that [of n' ans]) simp_all
  next
    case over
    then have n: "leading i M t l (c + 1) n" by (simp add: answered_def l(2))
    have "?v \<le> c + 1" using within_candidate [OF w, of j] lt by auto
    then have "handle_append_entries_response E now (yes j t (c + 1)) n = Done (acked j (c + 1) n, [])"
      unfolding ack_handled [OF n] Let_def by (auto dest: leD)
    moreover have "answered i M t l rep (acked j (c + 1) n)"
      using over(1) acked_leading [OF n j] l(2) by (simp add: answered_def, simp add: acked_def free_behind_def)
    ultimately show thesis using over(2) by (intro that [of "acked j (c + 1) n" "[]"]) simp_all
  qed
qed

section \<open>Deliveries\<close>

lemma deliver_first:
  assumes "cl_net c = m # ms" and "addressee m \<in> set (cl_members c)"
    and "emit_step E (event_of now m) (cl_node c (addressee m)) = Done s"
  shows "cluster_step E (Deliver 0 now) c = Done (cluster_update (addressee m) s (c\<lparr>cl_net := ms\<rparr>))"
  using assms by simp

text \<open>Messages to different members, each answered by one message to member \<open>i\<close>.\<close>

lemma deliver_requests:
  fixes E :: "('db, 'fs, 'tok) env"
  assumes "cl_net c = map req js @ ms" and "distinct js" and "set js \<subseteq> set (cl_members c)"
    and "length ts = length js" and to: "\<And>j. addressee (req j) = j"
    and "\<And>j now. j \<in> set js \<Longrightarrow> \<exists>n'. emit_step E (event_of now (req j)) (cl_node c j) = Done (n', [resp j], []) \<and> P j n'"
  shows "\<exists>c'. run (cluster_step E) (map (Deliver 0) ts) c = Done c' \<and> cl_members c' = cl_members c \<and> cl_answers c' = cl_answers c \<and>
    cl_net c' = ms @ map resp js \<and> (\<forall>j \<in> set js. P j (cl_node c' j)) \<and> (\<forall>k. k \<notin> set js \<longrightarrow> cl_node c' k = cl_node c k)"
  using assms(1-4,6)
proof (induction js arbitrary: c ms ts)
  case (Cons j js)
  from Cons.prems(4) obtain now ts' where ts: "ts = now # ts'" "length ts' = length js" by (cases ts) auto
  from Cons.prems(5) [of j now] obtain n' where h: "emit_step E (event_of now (req j)) (cl_node c j) = Done (n', [resp j], [])"
    and P: "P j n'" by auto
  define c1 where "c1 = cluster_update j (n', [resp j], []) (c\<lparr>cl_net := map req js @ ms\<rparr>)"
  have step: "cluster_step E (Deliver 0 now) c = Done c1"
    using Cons.prems(1,3) h deliver_first [of c "req j" "map req js @ ms" E now] by (simp add: c1_def to)
  have c1: "cl_members c1 = cl_members c" "cl_answers c1 = cl_answers c" "cl_node c1 = (cl_node c)(j := n')"
    "cl_net c1 = map req js @ (ms @ [resp j])"
    by (simp_all add: c1_def cluster_update_def)
  have "\<exists>n'. emit_step E (event_of now (req k)) (cl_node c1 k) = Done (n', [resp k], []) \<and> P k n'" if "k \<in> set js" for k now
    using Cons.prems(2) Cons.prems(5) [of k now] that c1(3) by auto
  from Cons.IH [OF c1(4) _ _ ts(2) this] Cons.prems(2,3) c1(1) obtain c' where
    c': "run (cluster_step E) (map (Deliver 0) ts') c1 = Done c'" "cl_members c' = cl_members c" "cl_answers c' = cl_answers c"
    "cl_net c' = (ms @ [resp j]) @ map resp js"
    "\<forall>k \<in> set js. P k (cl_node c' k)" "\<forall>k. k \<notin> set js \<longrightarrow> cl_node c' k = cl_node c1 k"
    using c1(2) by auto
  with step ts P Cons.prems(2) c1(3) show ?case by (intro exI [of _ c']) simp
qed simp

lemma fold_assign_find: "um_find (fold (\<lambda>j. um_assign j v) js m) k = (if k \<in> set js then Some v else um_find m k)"
  by (induction js arbitrary: m) auto

lemma deliver_acks:
  fixes E :: "('db, 'fs, 'tok) env"
  assumes "cl_net c = map (\<lambda>j. AppendResponse i (yes j t (v + 1))) js" and "set js \<subseteq> M" and "i \<in> set (cl_members c)"
    and "length ts = length js" and l: "fresh_log l" "last_log_index l = v + 1" "v \<noteq> - 1" and "within v (cl_node c i)"
    and "b \<and> waiting i M t l v sm (cl_node c i) \<and> rs = [] \<or> answered i M t l rep (cl_node c i) \<and> rs = ans"
    and eff: "b \<longrightarrow> effect (env_codec E) l sm rep ans"
  shows "\<exists>c' rs'. run (cluster_step E) (map (Deliver 0) ts) c = Done c' \<and> cl_members c' = cl_members c \<and> cl_net c' = [] \<and>
    cl_answers c' = cl_answers c @ rs' \<and> (\<forall>k. k \<noteq> i \<longrightarrow> cl_node c' k = cl_node c k) \<and> within v (cl_node c' i) \<and>
    (b \<and> waiting i M t l v sm (cl_node c' i) \<and> rs @ rs' = [] \<or> answered i M t l rep (cl_node c' i) \<and> rs @ rs' = ans) \<and>
    rn_match_index (cl_node c' i) = fold (\<lambda>j. um_assign j (v + 1)) js (rn_match_index (cl_node c i)) \<and>
    rn_next_index (cl_node c' i) = fold (\<lambda>j. um_assign j (v + 1 + 1)) js (rn_next_index (cl_node c i))"
  using assms(1-4,8,9)
proof (induction js arbitrary: c ts rs)
  case Nil
  then show ?case by simp
next
  case (Cons j js)
  from Cons.prems(4) obtain now ts' where ts: "ts = now # ts'" "length ts' = length js" by (cases ts) auto
  have j: "j \<in> M" using Cons.prems(2) by simp
  obtain n' rs1 where h: "handle_append_entries_response E now (yes j t (v + 1)) (cl_node c i) = Done (n', rs1)"
    and m: "rn_match_index n' = rn_match_index (acked j (v + 1) (cl_node c i))" "rn_next_index n' = rn_next_index (acked j (v + 1) (cl_node c i))"
    and st: "b \<and> waiting i M t l v sm n' \<and> rs @ rs1 = [] \<or> answered i M t l rep n' \<and> rs @ rs1 = ans"
    by (rule ack_stage [OF l j Cons.prems(5,6) eff])
  define c1 where "c1 = cluster_update i (n', [], rs1) (c\<lparr>cl_net := map (\<lambda>j. AppendResponse i (yes j t (v + 1))) js\<rparr>)"
  have step: "cluster_step E (Deliver 0 now) c = Done c1"
    using Cons.prems(1,3) h deliver_first [of c "AppendResponse i (yes j t (v + 1))" "map (\<lambda>j. AppendResponse i (yes j t (v + 1))) js" E now]
    by (simp add: c1_def)
  have c1: "cl_members c1 = cl_members c" "cl_answers c1 = cl_answers c @ rs1" "cl_node c1 = (cl_node c)(i := n')"
    "cl_net c1 = map (\<lambda>j. AppendResponse i (yes j t (v + 1))) js" by (simp_all add: c1_def cluster_update_def)
  have w: "within v (cl_node c1 i)" using within_acked [OF Cons.prems(5), of j] m(1) c1(3) by (simp add: within_def)
  from Cons.IH [OF c1(4) _ _ ts(2) w, of "rs @ rs1"] Cons.prems(2,3) c1 st obtain c' rs2 where
    c': "run (cluster_step E) (map (Deliver 0) ts') c1 = Done c'" "cl_members c' = cl_members c" "cl_net c' = []"
    "cl_answers c' = cl_answers c @ (rs1 @ rs2)" "\<forall>k. k \<noteq> i \<longrightarrow> cl_node c' k = cl_node c k" "within v (cl_node c' i)"
    "b \<and> waiting i M t l v sm (cl_node c' i) \<and> rs @ (rs1 @ rs2) = [] \<or> answered i M t l rep (cl_node c' i) \<and> rs @ (rs1 @ rs2) = ans"
    "rn_match_index (cl_node c' i) = fold (\<lambda>j. um_assign j (v + 1)) js (rn_match_index n')"
    "rn_next_index (cl_node c' i) = fold (\<lambda>j. um_assign j (v + 1 + 1)) js (rn_next_index n')" by auto
  with step ts m show ?case by (intro exI [of _ c'] exI [of _ "rs1 @ rs2"]) (simp add: acked_def)
qed

section \<open>A heartbeat\<close>

lemma heartbeat_members_same:
  assumes wf: "log_wf (rn_logs n)" and self: "member_id (rn_transport n) = i" and "distinct (map fst ps)"
    and "\<forall>p \<in> set ps. next_ok n p \<and> (fst p \<noteq> i \<longrightarrow> snd p = nxt)" and "\<forall>p \<in> set ps. um_find (ms_append out) (fst p) = None"
  shows "heartbeat_members E ps (n, out) = Done (n,
    out\<lparr>ms_append := ms_append out @ map (\<lambda>j. (j, heartbeat_request n nxt)) (filter (\<lambda>j. j \<noteq> i) (map fst ps))\<rparr>)"
  using assms(3-)
proof (induction ps arbitrary: out)
  case (Cons p ps)
  define out1 where "out1 = (if fst p = i then out else out\<lparr>ms_append := ms_append out @ [(fst p, heartbeat_request n nxt)]\<rparr>)"
  have "um_emplace (fst p) x (ms_append out) = ms_append out @ [(fst p, x)]" for x
    using Cons.prems(3) by (simp add: um_emplace_def um_contains_def)
  then have one: "heartbeat_member E p (n, out) = Done (n, out1)"
    using Cons.prems(2) heartbeat_member_next_ok [OF wf, of p E out] by (auto simp: self out1_def)
  have "fst q \<noteq> fst p" if "q \<in> set ps" for q using Cons.prems(1) that by (auto simp: image_iff)
  then have "\<forall>q \<in> set ps. um_find (ms_append out1) (fst q) = None"
    using Cons.prems(3) by (auto simp: out1_def um_find_def map_add_def split: option.splits)
  with Cons one show ?case by (auto simp: out1_def)
qed simp

lemma heartbeat_all:
  assumes n: "leading i M t l c n" and l: "fresh_log l" and k: "k \<le> length (rl_entries l)" "length (rl_entries l) < 2 ^ 64 - 1"
    and nxt: "\<And>j x. um_find (rn_next_index n) j = Some x \<Longrightarrow> j \<noteq> i \<Longrightarrow> x = of_nat k + 1"
  shows "heartbeat_loop_body E n = Done (n,
    \<lparr>ms_append = map (\<lambda>j. (j, heartbeat_request n (of_nat k + 1))) (filter (\<lambda>j. j \<noteq> i) (um_keys (rn_next_index n))), ms_install = []\<rparr>)"
proof -
  let ?js = "filter (\<lambda>j. j \<noteq> i) (um_keys (rn_next_index n))"
  have wf: "log_wf (rn_logs n)" and base: "last_included_index l = 0" using n l by (simp_all add: leading_def fresh_log_def last_included_index_def)
  have "k < 2 ^ 64 - 1" using k by simp
  then have u: "unat (of_nat k :: u64) = k" "(of_nat k :: u64) \<noteq> - 1"
    by (simp_all add: unat_of_nat_small) (auto simp: unat_of_nat_small unsigned_minus_1_eq_mask mask_eq_exp_minus_1 dest: arg_cong [of _ _ unat])
  then have u1: "unat (of_nat k + 1 :: u64) = Suc k" by (simp add: unat_succ)
  have "unat (last_log_index l) = length (rl_entries l)" using last_log_index_wf [of l] l by (simp add: fresh_log_def)
  then have ok: "next_ok n (j, of_nat k + 1)" for j
    using n k(1) u1 base by (simp add: next_ok_def leading_def word_less_nat_alt)
  have um: "um_wf (rn_next_index n)" using n by (simp add: leading_def)
  have "\<forall>p \<in> set (rn_next_index n). next_ok n p \<and> (fst p \<noteq> i \<longrightarrow> snd p = of_nat k + 1)"
  proof
    fix p assume "p \<in> set (rn_next_index n)"
    then have "um_find (rn_next_index n) (fst p) = Some (snd p)" using um by (simp add: um_find_def um_wf_def)
    then have "fst p = i \<or> snd p = of_nat k + 1" using nxt by blast
    then show "next_ok n p \<and> (fst p \<noteq> i \<longrightarrow> snd p = of_nat k + 1)"
      using ok [of "fst p"] n by (auto simp: next_ok_def leading_def linked_def)
  qed
  with heartbeat_members_same [OF wf, of i "rn_next_index n" "of_nat k + 1" "\<lparr>ms_append = [], ms_install = []\<rparr>" E] n um
  have "heartbeat_members E (rn_next_index n) (n, \<lparr>ms_append = [], ms_install = []\<rparr>) =
      Done (n, \<lparr>ms_append = map (\<lambda>j. (j, heartbeat_request n (of_nat k + 1))) ?js, ms_install = []\<rparr>)"
    by (simp add: um_find_def um_wf_def um_keys_def leading_def linked_def)
  moreover have "\<forall>j \<in> set ?js. unicast_target (rn_transport n) j \<noteq> None" using n linked_unicast by (auto simp: leading_def)
  ultimately show ?thesis using n by (simp add: heartbeat_loop_body_def leading_def list_all_iff)
qed

text \<open>A heartbeat and the answers of all followers, which then hold the leader's log and commit index.\<close>

lemma spread:
  fixes E :: "('db, 'fs, 'tok) env"
  assumes i: "i \<in> set (cl_members c)" "cl_net c = []" and ld: "leading i (set (cl_members c)) t l v (cl_node c i)" and l: "fresh_log l"
    and nxt: "\<And>j x. um_find (rn_next_index (cl_node c i)) j = Some x \<Longrightarrow> j \<noteq> i \<Longrightarrow> x = of_nat k + 1"
    and fo: "\<And>j. j \<in> set (cl_members c) \<Longrightarrow> j \<noteq> i \<Longrightarrow> holds (set (cl_members c)) t (log_prefix k l) (v0 j) (rep j) j (cl_node c j)"
    and k: "k \<le> length (rl_entries l)" "length (rl_entries l) \<le> k + 64" "length (rl_entries l) < 2 ^ 64 - 1"
    and v: "\<And>j. j \<in> set (cl_members c) \<Longrightarrow> j \<noteq> i \<Longrightarrow> v0 j \<le> v" "v \<le> last_log_index l"
    and rep: "\<And>j now. j \<in> set (cl_members c) \<Longrightarrow> j \<noteq> i \<Longrightarrow>
      fold (sm_apply_entry_no_response (env_codec E) now) (take (unat v - unat (v0 j)) (drop (unat (v0 j)) (rl_entries l))) (rep j) = rep'"
    and E: "writes_ok (env_db E)" "env_ok E view" and ts: "Suc (length ts) = card (set (cl_members c))"
  obtains c' js where "distinct js" "set js = set (cl_members c) - {i}" "length js = length ts"
    "run (cluster_step E) (Act i EvHeartbeat # map (Deliver 0) ts) c = Done c'" "cl_members c' = cl_members c"
    "cl_answers c' = cl_answers c" "cl_node c' i = cl_node c i" "cl_net c' = map (\<lambda>j. AppendResponse i (yes j t (last_log_index l))) js"
    "\<And>j. j \<in> set (cl_members c) \<Longrightarrow> j \<noteq> i \<Longrightarrow> holds (set (cl_members c)) t l v rep' j (cl_node c' j)"
proof -
  let ?ld = "cl_node c i" and ?M = "set (cl_members c)"
  define js where "js = filter (\<lambda>j. j \<noteq> i) (um_keys (rn_next_index ?ld))"
  define q where "q = heartbeat_request ?ld (of_nat k + 1)"
  have um: "um_wf (rn_next_index ?ld)" "set (um_keys (rn_next_index ?ld)) = ?M" and id: "member_id (rn_transport ?ld) = i"
    using ld by (simp_all add: leading_def linked_def)
  then have js: "distinct js" "set js = ?M - {i}" by (auto simp: js_def um_wf_def um_keys_def)
  then have len: "length ts = length js" using ts i(1) distinct_card [OF js(1)] by simp
  define c1 where "c1 = cluster_update i (?ld, map (\<lambda>j. AppendRequest j q) js, []) c"
  have step: "cluster_step E (Act i EvHeartbeat) c = Done c1"
    using i(1) heartbeat_all [where E = E, OF ld l k(1,3) nxt] by (simp add: c1_def js_def q_def comp_def)
  have c1: "cl_members c1 = cl_members c" "cl_answers c1 = cl_answers c" "cl_node c1 = cl_node c"
    "cl_net c1 = map (\<lambda>j. AppendRequest j q) js @ []" using i(2) by (simp_all add: c1_def cluster_update_def)
  have q: "aeq_leader_id q = i" using id by (simp add: q_def heartbeat_request_def make_append_entries_request_def)
  have "\<exists>n'. emit_step E (event_of now (AppendRequest j q)) (cl_node c1 j) = Done (n', [AppendResponse i (yes j t (last_log_index l))], []) \<and>
      holds (set (cl_members c)) t l v rep' j n'"
    if "j \<in> set js" for j now
  proof -
    from that js have j: "j \<in> set (cl_members c)" "j \<noteq> i" by auto
    then have h: "holds (set (cl_members c)) t (log_prefix k l) (v0 j) (rep j) j (cl_node c j)" by (rule fo)
    have d: "rn_logs ?ld = l" "current_term ?ld = t" "v0 j \<le> rn_commit_index ?ld" "rn_commit_index ?ld \<le> last_log_index l"
      "rn_commit_index ?ld = v" using ld v j by (simp_all add: leading_def)
    show ?thesis
      by (rule follower_round [OF h l d(1,2) k d(3,4) E, of now]) (use rep [OF j, of now] d(5) c1(3) in \<open>auto simp: q [unfolded q_def] q_def\<close>)
  qed
  from deliver_requests [OF c1(4) js(1) _ len _ this] js(2) c1 obtain c' where
    "run (cluster_step E) (map (Deliver 0) ts) c1 = Done c'" "cl_members c' = cl_members c" "cl_answers c' = cl_answers c"
    "cl_net c' = map (\<lambda>j. AppendResponse i (yes j t (last_log_index l))) js" "\<forall>j \<in> set js. holds (set (cl_members c)) t l v rep' j (cl_node c' j)"
    "\<forall>k. k \<notin> set js \<longrightarrow> cl_node c' k = cl_node c k" by auto
  with step js len show thesis by (intro that [of js c']) auto
qed

section \<open>A write\<close>

definition settled :: "u64 \<Rightarrow> ('db, 'fs) cluster \<Rightarrow> bool" where
  "settled i c \<longleftrightarrow>
     (let M = set (cl_members c); ld = cl_node c i; l = rn_logs ld; t = current_term ld; rep = replica (rn_state_machine ld)
      in i \<in> M \<and> 2 \<le> card M \<and> cl_net c = [] \<and> fresh_log l \<and> answered i M t l rep ld \<and>
         (\<forall>j \<in> M - {i}. um_find (rn_next_index ld) j = Some (last_log_index l + 1) \<and> holds M t l (last_log_index l) rep j (cl_node c j)) \<and>
         um_all (\<lambda>v. v \<le> last_log_index l) (rn_match_index ld))"

lemma pending_after_apply:
  assumes "um_contains (sm_pending (fst (sm_apply_entry C now e sm))) k"
  shows "k = le_index e \<or> um_contains (sm_pending sm) k"
proof -
  have m: "sm_pending (mkdir q sm') = sm_pending sm'" "sm_pending (upload_file now u sm') = sm_pending sm'" for q u sm'
    by (simp_all add: mkdir_def upload_file_def add_child_def Let_def split: option.splits)
  have i: "um_find (snd (um_index PendingRequest_default (le_index e) (sm_pending sm))) k \<noteq> None \<Longrightarrow>
      k = le_index e \<or> um_find (sm_pending sm) k \<noteq> None"
    by (auto simp: um_index_def split: option.splits if_splits)
  show ?thesis using assms i
    by (auto simp: sm_apply_entry_def Let_def split_beta um_contains_def m mkdir_response_state upload_response_state
        split: option.splits EntryCommand.splits if_splits)
qed

text \<open>The entry of a directory request at a leader at rest, and what applying it does.\<close>

definition mkdir_entry :: "('db, 'fs, 'tok) env \<Rightarrow> MakeDirRequest \<Rightarrow> ('db, 'fs) RaftNode \<Rightarrow> LogEntry" where
  "mkdir_entry E q n = LogEntry_default\<lparr>le_term := current_term n, le_index := last_log_index (rn_logs n) + 1,
     le_command := ser_command (env_codec E) (CmdMkdir q)\<rparr>"

definition mkdir_answer :: "MakeDirRequest \<Rightarrow> StateMachine \<Rightarrow> MakeDirResponse" where
  "mkdir_answer q sm =
     snd (mkdir_response q (MakeDirResponse_default\<lparr>mdr_status_code := kFailed, mdr_message := msg_mkdir_unknown\<rparr>) sm)"

lemma mkdir_effect:
  fixes h
  assumes "\<forall>k > last_log_index (rn_logs n). \<not> um_contains (sm_pending (rn_state_machine n)) k"
    and cmd: "par_command (env_codec E) (ser_command (env_codec E) (CmdMkdir q)) = Some (CmdMkdir q)"
    and max: "last_log_index (rn_logs n) \<noteq> - 1" and l: "last (rl_entries l) = mkdir_entry E q n" "last_log_index l = last_log_index (rn_logs n) + 1"
  defines "p \<equiv> \<lparr>pr_handle = Some h, pr_response = RespMkdir (MakeDirResponse_default\<lparr>mdr_status_code := kFailed, mdr_message := msg_mkdir_unknown\<rparr>)\<rparr>"
  shows "effect (env_codec E) l (append_request (last_log_index (rn_logs n) + 1) p (rn_state_machine n))
    (replica (mkdir q (rn_state_machine n))) [(h, RespMkdir (mkdir_answer q (rn_state_machine n)))]"
proof -
  let ?sm = "rn_state_machine n" and ?e = "mkdir_entry E q n" and ?i = "last_log_index (rn_logs n) + 1"
  have lt: "last_log_index (rn_logs n) < ?i" using max by (simp add: less_succ_iff)
  have e: "le_index ?e = ?i" "par_command (env_codec E) (le_command ?e) = Some (CmdMkdir q)" using cmd by (simp_all add: mkdir_entry_def)
  have new: "\<not> um_contains (sm_pending ?sm) (le_index ?e)" using assms(1) lt e(1) by simp
  have "\<not> um_contains (sm_pending (fst (sm_apply_entry (env_codec E) now ?e (append_request ?i p ?sm)))) k" if "?i < k" for now k
  proof
    assume "um_contains (sm_pending (fst (sm_apply_entry (env_codec E) now ?e (append_request ?i p ?sm)))) k"
    from pending_after_apply [OF this] that have "um_contains (sm_pending ?sm) k"
      by (auto simp: e(1) append_request_def um_contains_def split: if_splits)
    with assms(1) less_trans [OF lt that] show False by blast
  qed
  with apply_pending_mkdir [OF new e(2), of _ h "MakeDirResponse_default\<lparr>mdr_status_code := kFailed, mdr_message := msg_mkdir_unknown\<rparr>"]
  show ?thesis by (simp add: effect_def split_beta l e(1) p_def mkdir_answer_def)
qed

lemma mkdir_logged:
  fixes n :: "('db, 'fs) RaftNode"
  assumes n: "answered i M t l rep n" and tok: "vertify_token (env_jwt E) (mdq_token q)" and l: "fresh_log l"
    and max: "length (rl_entries l) < 2 ^ 64 - 2"
    and cmd: "par_command (env_codec E) (ser_command (env_codec E) (CmdMkdir (q\<lparr>mdq_timestamp := now\<rparr>))) = Some (CmdMkdir (q\<lparr>mdq_timestamp := now\<rparr>))"
  obtains n' l' where "handle_make_dir_request E now h q n = (n', None)" "leading i M t l' (last_log_index l) n'"
    "l' = l\<lparr>rl_entries := rl_entries l @ [mkdir_entry E (q\<lparr>mdq_timestamp := now\<rparr>) n]\<rparr>" "fresh_log l'" "last_log_index l' = last_log_index l + 1"
    "last_log_index l \<noteq> - 1" "last_log_index l = of_nat (length (rl_entries l))" "unat (last_log_index l) = length (rl_entries l)"
    "rn_next_index n' = rn_next_index n" "rn_match_index n' = rn_match_index n"
    "effect (env_codec E) l' (rn_state_machine n') (replica (mkdir (q\<lparr>mdq_timestamp := now\<rparr>) (rn_state_machine n)))
       [(h, RespMkdir (mkdir_answer (q\<lparr>mdq_timestamp := now\<rparr>) (rn_state_machine n)))]"
proof -
  let ?q = "q\<lparr>mdq_timestamp := now\<rparr>"
  let ?r = "RespMkdir (MakeDirResponse_default\<lparr>mdr_status_code := kFailed, mdr_message := msg_mkdir_unknown\<rparr>)"
  define n' where "n' = submit E h (CmdMkdir ?q) ?r n"
  have ld: "leading i M t l (last_log_index l) n" using n by (simp add: answered_def)
  then have nl: "rn_logs n = l" "rn_role n = kLeader" by (simp_all add: leading_def)
  have wf: "log_wf (rn_logs n)" and base: "rl_last_included_index l = 0" using l nl by (simp_all add: fresh_log_def)
  have last: "last_log_index l = of_nat (length (rl_entries l))" by (simp add: last_log_index_def last_included_index_def base)
  have u: "unat (last_log_index l) = length (rl_entries l)" using last_log_index_wf [OF wf] base nl by simp
  then have "unat (last_log_index l) < 2 ^ 64 - 1" using max by simp
  then have m1: "last_log_index (rn_logs n) \<noteq> - 1" by (auto simp: nl unsigned_minus_1_eq_mask mask_eq_exp_minus_1)
  define l' where "l' = l\<lparr>rl_entries := rl_entries l @ [mkdir_entry E ?q n]\<rparr>"
  have l': "rn_logs n' = l'" by (simp add: n'_def l'_def submit_def Let_def append_entry_def mkdir_entry_def nl)
  note log = submit_log [OF wf m1, of E h "CmdMkdir ?q" ?r, folded n'_def, unfolded l' nl]
  have fresh: "fresh_log l'" using log(1) l by (simp add: fresh_log_def l'_def)
  have sm: "rn_state_machine n' = append_request (last_log_index (rn_logs n) + 1) \<lparr>pr_handle = Some h, pr_response = ?r\<rparr> (rn_state_machine n)"
    by (simp add: n'_def submit_def Let_def)
  have eff: "effect (env_codec E) l' (rn_state_machine n') (replica (mkdir ?q (rn_state_machine n))) [(h, RespMkdir (mkdir_answer ?q (rn_state_machine n)))]"
    unfolding sm using n cmd m1 log(2) nl by (intro mkdir_effect) (simp_all add: answered_def free_behind_def l'_def)
  show thesis
  proof (rule that [OF _ _ l'_def fresh _ m1 [unfolded nl] last u _ _ eff])
    show "handle_make_dir_request E now h q n = (n', None)" using nl tok by (simp add: handle_make_dir_request_def n'_def)
    show "leading i M t l' (last_log_index l) n'" using ld l' by (simp add: leading_def n'_def submit_def Let_def)
    show "rn_next_index n' = rn_next_index n" "rn_match_index n' = rn_match_index n" by (simp_all add: n'_def submit_def Let_def)
    show "last_log_index l' = last_log_index l + 1" using log(2) by simp
  qed
qed

text \<open>A heartbeat, the deliveries to the followers and the deliveries of their answers.\<close>

definition beat :: "u64 \<Rightarrow> u64 list \<Rightarrow> u64 list \<Rightarrow> action list" where
  "beat i ts ts' = Act i EvHeartbeat # map (Deliver 0) ts @ map (Deliver 0) ts'"

lemma run_beat: "run (cluster_step E) (beat i ts ts') c =
    co_await (run (cluster_step E) (Act i EvHeartbeat # map (Deliver 0) ts) c) (run (cluster_step E) (map (Deliver 0) ts'))"
  using run_append [of "cluster_step E" "Act i EvHeartbeat # map (Deliver 0) ts" "map (Deliver 0) ts'" c] by (simp add: beat_def)

lemma beat_round:
  fixes E :: "('db, 'fs, 'tok) env"
  assumes i: "i \<in> set (cl_members c)" "cl_net c = []" and ld: "leading i (set (cl_members c)) t l w (cl_node c i)"
    and l: "fresh_log l" "last_log_index l = v + 1" "v \<noteq> - 1" and wi: "within v (cl_node c i)"
    and st: "b \<and> waiting i (set (cl_members c)) t l v sm (cl_node c i) \<and> rs = [] \<or> answered i (set (cl_members c)) t l rep (cl_node c i) \<and> rs = ans"
    and nxt: "\<And>j x. um_find (rn_next_index (cl_node c i)) j = Some x \<Longrightarrow> j \<noteq> i \<Longrightarrow> x = of_nat k + 1"
    and fo: "\<And>j. j \<in> set (cl_members c) \<Longrightarrow> j \<noteq> i \<Longrightarrow> holds (set (cl_members c)) t (log_prefix k l) (v0 j) (rep0 j) j (cl_node c j)"
    and k: "k \<le> length (rl_entries l)" "length (rl_entries l) \<le> k + 64" "length (rl_entries l) < 2 ^ 64 - 1"
    and v: "\<And>j. j \<in> set (cl_members c) \<Longrightarrow> j \<noteq> i \<Longrightarrow> v0 j \<le> w" "w \<le> last_log_index l"
    and rep: "\<And>j now. j \<in> set (cl_members c) \<Longrightarrow> j \<noteq> i \<Longrightarrow>
      fold (sm_apply_entry_no_response (env_codec E) now) (take (unat w - unat (v0 j)) (drop (unat (v0 j)) (rl_entries l))) (rep0 j) = rep1"
    and E: "writes_ok (env_db E)" "env_ok E view" and eff: "b \<longrightarrow> effect (env_codec E) l sm rep ans"
    and ts: "Suc (length ts) = card (set (cl_members c))" "length ts' = length ts"
  obtains c' rs' where "run (cluster_step E) (beat i ts ts') c = Done c'" "cl_members c' = cl_members c" "cl_net c' = []"
    "cl_answers c' = cl_answers c @ rs'" "within v (cl_node c' i)"
    "b \<and> waiting i (set (cl_members c)) t l v sm (cl_node c' i) \<and> rs @ rs' = [] \<or> answered i (set (cl_members c)) t l rep (cl_node c' i) \<and> rs @ rs' = ans"
    "\<And>j. j \<in> set (cl_members c) \<Longrightarrow> j \<noteq> i \<Longrightarrow> holds (set (cl_members c)) t l w rep1 j (cl_node c' j) \<and>
       um_find (rn_match_index (cl_node c' i)) j = Some (v + 1) \<and> um_find (rn_next_index (cl_node c' i)) j = Some (v + 1 + 1)"
proof -
  obtain c1 js where js: "distinct js" "set js = set (cl_members c) - {i}" "length js = length ts"
    and r1: "run (cluster_step E) (Act i EvHeartbeat # map (Deliver 0) ts) c = Done c1" and c1: "cl_members c1 = cl_members c"
    "cl_answers c1 = cl_answers c" "cl_node c1 i = cl_node c i" "cl_net c1 = map (\<lambda>j. AppendResponse i (yes j t (last_log_index l))) js"
    and f1: "\<And>j. j \<in> set (cl_members c) \<Longrightarrow> j \<noteq> i \<Longrightarrow> holds (set (cl_members c)) t l w rep1 j (cl_node c1 j)"
    by (rule spread [OF i ld l(1) nxt fo k v rep E ts(1)]) (assumption+, rule that)
  have sub: "set js \<subseteq> set (cl_members c)" and len: "length ts' = length js" using js ts by auto
  obtain c2 rs' where c2: "run (cluster_step E) (map (Deliver 0) ts') c1 = Done c2" "cl_members c2 = cl_members c" "cl_net c2 = []"
    "cl_answers c2 = cl_answers c @ rs'" "\<forall>k. k \<noteq> i \<longrightarrow> cl_node c2 k = cl_node c1 k" "within v (cl_node c2 i)"
    "b \<and> waiting i (set (cl_members c)) t l v sm (cl_node c2 i) \<and> rs @ rs' = [] \<or> answered i (set (cl_members c)) t l rep (cl_node c2 i) \<and> rs @ rs' = ans"
    "rn_match_index (cl_node c2 i) = fold (\<lambda>j. um_assign j (v + 1)) js (rn_match_index (cl_node c i))"
    "rn_next_index (cl_node c2 i) = fold (\<lambda>j. um_assign j (v + 1 + 1)) js (rn_next_index (cl_node c i))"
    using deliver_acks [OF c1(4) [unfolded l(2)] sub _ len l _ _ eff, of rs] i(1) wi st c1 by auto
  show thesis
  proof (rule that [OF _ c2(2,3,4,6,7)])
    show "run (cluster_step E) (beat i ts ts') c = Done c2" unfolding run_beat r1 using c2(1) by simp
    fix j assume "j \<in> set (cl_members c)" "j \<noteq> i"
    with f1 js(2) c2(5) show "holds (set (cl_members c)) t l w rep1 j (cl_node c2 j) \<and> um_find (rn_match_index (cl_node c2 i)) j = Some (v + 1) \<and>
        um_find (rn_next_index (cl_node c2 i)) j = Some (v + 1 + 1)"
      unfolding c2(8,9) fold_assign_find by simp
  qed
qed

text \<open>After the answers of all followers the leader does not wait any more.\<close>

lemma all_acked:
  assumes n: "waiting i M t l v sm n" and M: "2 \<le> card M" and v: "v \<noteq> - 1"
    and "\<And>j. j \<in> M \<Longrightarrow> j \<noteq> i \<Longrightarrow> um_find (rn_match_index n) j = Some (v + 1)"
  shows False
proof -
  let ?m = "rn_match_index n"
  have um: "um_wf ?m" "set (um_keys ?m) = M" using n by (simp_all add: waiting_def leading_def)
  have "\<forall>(j, x) \<in> set ?m. j \<noteq> i \<longrightarrow> v + 1 \<le> x"
  proof (intro ballI, clarify)
    fix j x assume x: "(j, x) \<in> set ?m" "j \<noteq> i"
    then have "j \<in> M" using um(2) by (force simp: um_keys_def)
    moreover have "um_find ?m j = Some x" using x(1) um(1) by (simp add: um_find_def um_wf_def)
    ultimately show "v + 1 \<le> x" using assms(4) x(2) by simp
  qed
  moreover have "2 \<le> length ?m" using um_length_keys [OF um(1)] um(2) M by simp
  ultimately have "v + 1 \<le> commit_candidate ?m" using um(1) by (intro commit_all_but_one)
  then have "v + 1 \<le> v" using n by (auto simp: waiting_def intro: order_trans)
  then show False using v by (simp add: less_succ_iff flip: not_less)
qed

text \<open>
  A directory request with the clocks of the deliveries of its two heartbeats; its request as the
  leader stamps it.
\<close>

record client_write =
  cw_now :: u64
  cw_handle :: nat
  cw_request :: MakeDirRequest
  cw_clocks :: "(u64 list \<times> u64 list) \<times> u64 list \<times> u64 list"

definition stamped :: "client_write \<Rightarrow> MakeDirRequest" where
  "stamped w = (cw_request w)\<lparr>mdq_timestamp := cw_now w\<rparr>"

definition write_actions :: "u64 \<Rightarrow> client_write \<Rightarrow> action list" where
  "write_actions i w = (case cw_clocks w of ((ts1, ts2), ts3, ts4) \<Rightarrow>
     Act i (EvMakeDir (cw_now w) (cw_handle w) (cw_request w)) # beat i ts1 ts2 @ beat i ts3 ts4)"

definition write_ok :: "('db, 'fs, 'tok) env \<Rightarrow> u64 list \<Rightarrow> client_write \<Rightarrow> bool" where
  "write_ok E members w \<longleftrightarrow> vertify_token (env_jwt E) (mdq_token (cw_request w)) \<and>
     par_command (env_codec E) (ser_command (env_codec E) (CmdMkdir (stamped w))) = Some (CmdMkdir (stamped w)) \<and>
     (case cw_clocks w of ((ts1, ts2), ts3, ts4) \<Rightarrow> \<forall>ts \<in> {ts1, ts2, ts3, ts4}. Suc (length ts) = card (set members))"

lemma settledD:
  assumes "settled i c"
  defines "ld \<equiv> cl_node c i"
  shows "i \<in> set (cl_members c)" "2 \<le> card (set (cl_members c))" "cl_net c = []" "fresh_log (rn_logs ld)"
    "answered i (set (cl_members c)) (current_term ld) (rn_logs ld) (replica (rn_state_machine ld)) ld"
    "\<And>j. j \<in> set (cl_members c) \<Longrightarrow> j \<noteq> i \<Longrightarrow> um_find (rn_next_index ld) j = Some (last_log_index (rn_logs ld) + 1)"
    "\<And>j. j \<in> set (cl_members c) \<Longrightarrow> j \<noteq> i \<Longrightarrow>
       holds (set (cl_members c)) (current_term ld) (rn_logs ld) (last_log_index (rn_logs ld)) (replica (rn_state_machine ld)) j (cl_node c j)"
    "um_all (\<lambda>v. v \<le> last_log_index (rn_logs ld)) (rn_match_index ld)"
  using assms(1) by (simp_all add: settled_def ld_def Let_def)

text \<open>
  The leader has committed the last entry, of index \<open>v + 1\<close>, and knows that the followers hold it;
  they have the commit index \<open>w\<close> and the name space \<open>rep0\<close>.
\<close>

definition committed :: "u64 \<Rightarrow> u64 \<Rightarrow> RaftLog \<Rightarrow> u64 \<Rightarrow> u64 \<Rightarrow> StateMachine \<Rightarrow> StateMachine \<Rightarrow> ('db, 'fs) cluster \<Rightarrow> bool" where
  "committed i t l v w rep0 rep c \<longleftrightarrow> cl_net c = [] \<and> within v (cl_node c i) \<and> answered i (set (cl_members c)) t l rep (cl_node c i) \<and>
     (\<forall>j \<in> set (cl_members c) - {i}. holds (set (cl_members c)) t l w rep0 j (cl_node c j) \<and> um_find (rn_next_index (cl_node c i)) j = Some (v + 1 + 1))"

lemma settledI:
  assumes "i \<in> set (cl_members c)" and "2 \<le> card (set (cl_members c))" and "fresh_log l"
    and v: "last_log_index l = v + 1" "v \<noteq> - 1" and c: "committed i t l v (v + 1) rep rep c"
  shows "settled i c"
proof -
  have n: "rn_logs (cl_node c i) = l" "current_term (cl_node c i) = t" "replica (rn_state_machine (cl_node c i)) = rep"
    using c by (simp_all add: committed_def answered_def leading_def)
  have "v < v + 1" using v(2) by (simp add: less_succ_iff)
  then have "um_all (\<lambda>x. x \<le> last_log_index l) (rn_match_index (cl_node c i))"
    using c v(1) unfolding committed_def within_def um_all_def by (metis less_imp_le order_refl order_trans)
  with n assms show ?thesis by (simp add: settled_def committed_def Let_def)
qed

lemma replica_mkdir: "mkdir q (replica sm) = replica (mkdir q sm)" "mkdir_answer q (replica sm) = mkdir_answer q sm"
  by (simp_all add: replica_def mkdir_pending mkdir_answer_def mkdir_response_pending)

lemma um_find_keys: "um_find m k = Some v \<Longrightarrow> k \<in> set (um_keys m)"
  by (force simp: um_find_def um_keys_def dest: map_of_SomeD)

lemma settled_waits:
  assumes "settled i c" and "leading i M t l v n" and "v = last_log_index (rn_logs (cl_node c i))"
    and "rn_match_index n = rn_match_index (cl_node c i)"
  shows "waiting i M t l v (rn_state_machine n) n" "within v n"
proof -
  note S = settledD [OF assms(1)]
  have "set (um_keys (rn_match_index (cl_node c i))) = set (cl_members c)" using S(5) by (simp add: answered_def leading_def)
  with S(2) have ne: "rn_match_index (cl_node c i) \<noteq> []" by (auto simp: um_keys_def)
  from um_all_values [OF S(8) commit_candidate_member [OF ne]] show "waiting i M t l v (rn_state_machine n) n"
    using assms(2-4) by (simp add: waiting_def)
  show "within v n" using S(8) assms(3,4) by (auto simp: within_def um_all_def)
qed

lemma next_all:
  assumes "leading i M t l v n" and "\<And>j. j \<in> M \<Longrightarrow> j \<noteq> i \<Longrightarrow> um_find (rn_next_index n) j = Some x"
    and "um_find (rn_next_index n) j = Some y" and "j \<noteq> i"
  shows "y = x"
proof -
  have "j \<in> M" using assms(1) um_find_keys [OF assms(3)] by (simp add: leading_def)
  with assms show ?thesis by simp
qed

lemma commit_beat:
  fixes E :: "('db, 'fs, 'tok) env" and c :: "('db, 'fs) cluster"
  assumes s: "settled i c" and n: "leading i (set (cl_members c)) (current_term (cl_node c i)) l v n"
    and keep: "rn_next_index n = rn_next_index (cl_node c i)" "rn_match_index n = rn_match_index (cl_node c i)"
    and l: "fresh_log l" "last_log_index l = v + 1" "length (rl_entries l) = Suc k" "k < 2 ^ 64 - 2" "log_prefix k l = rn_logs (cl_node c i)"
    and v: "v = last_log_index (rn_logs (cl_node c i))" "v \<noteq> - 1" "v = of_nat k"
    and E: "writes_ok (env_db E)" "env_ok E view" and eff: "effect (env_codec E) l (rn_state_machine n) rep ans"
    and ts: "Suc (length ts) = card (set (cl_members c))" "length ts' = length ts"
  obtains c' where "run (cluster_step E) (beat i ts ts') (cluster_update i (n, [], []) c) = Done c'" "cl_members c' = cl_members c"
    "cl_answers c' = cl_answers c @ ans" "committed i (current_term (cl_node c i)) l v v (replica (rn_state_machine (cl_node c i))) rep c'"
proof -
  let ?M = "set (cl_members c)" and ?t = "current_term (cl_node c i)" and ?rep = "replica (rn_state_machine (cl_node c i))"
  note S = settledD [OF s] and W = settled_waits [OF s n v(1) keep(2)]
  define c1 where "c1 = cluster_update i (n, [], []) c"
  have c1: "cl_members c1 = cl_members c" "cl_answers c1 = cl_answers c" "cl_node c1 = (cl_node c)(i := n)" "cl_net c1 = []"
    using S(3) by (simp_all add: c1_def cluster_update_def)
  have vs: "v \<le> v + 1" using v(2) by (simp add: less_succ_iff less_imp_le)
  obtain c2 rs where r: "run (cluster_step E) (beat i ts ts') c1 = Done c2" and c2: "cl_members c2 = cl_members c" "cl_net c2 = []"
    "cl_answers c2 = cl_answers c @ rs" "within v (cl_node c2 i)"
    and st: "waiting i ?M ?t l v (rn_state_machine n) (cl_node c2 i) \<and> [] @ rs = [] \<or> answered i ?M ?t l rep (cl_node c2 i) \<and> [] @ rs = ans"
    and f: "\<And>j. j \<in> ?M \<Longrightarrow> j \<noteq> i \<Longrightarrow> holds ?M ?t l v ?rep j (cl_node c2 j) \<and>
       um_find (rn_match_index (cl_node c2 i)) j = Some (v + 1) \<and> um_find (rn_next_index (cl_node c2 i)) j = Some (v + 1 + 1)"
  proof (rule beat_round [where b = True and rep = rep and ans = ans and c = c1 and i = i and ?v0.0 = "\<lambda>_. v" and w = v and k = k and ?rep0.0 = "\<lambda>_. ?rep" and ?rep1.0 = ?rep,
        unfolded c1 fun_upd_same, OF S(1) refl n l(1,2) v(2) W(2) _ _ _ _ _ _ order_refl _ _ E _ ts])
    show "um_find (rn_next_index n) j = Some x \<Longrightarrow> j \<noteq> i \<Longrightarrow> x = of_nat k + 1" for j x
      using next_all [OF n, of "v + 1" j x] S(6) keep(1) v(1,3) by simp
    show "j \<in> ?M \<Longrightarrow> j \<noteq> i \<Longrightarrow> holds ?M ?t (log_prefix k l) v ?rep j (((cl_node c)(i := n)) j)" for j
      using S(7) by (simp add: l(5) v(1))
  qed (use W(1) l vs eff that in auto)
  have "\<not> waiting i ?M ?t l v (rn_state_machine n) (cl_node c2 i)" using all_acked [OF _ S(2) v(2)] f by blast
  with st r c2 f show thesis by (intro that [of c2]) (auto simp: committed_def c1_def)
qed

lemma apply_beat:
  fixes E :: "('db, 'fs, 'tok) env" and c :: "('db, 'fs) cluster"
  assumes i: "i \<in> set (cl_members c)" and c: "committed i t l v v rep0 rep c"
    and l: "fresh_log l" "last_log_index l = v + 1" "length (rl_entries l) = Suc k" "k < 2 ^ 64 - 2"
    and v: "v \<noteq> - 1" "v = of_nat k" "unat v = k"
    and ap: "\<And>now. sm_apply_entry_no_response (env_codec E) now (last (rl_entries l)) rep0 = rep"
    and E: "writes_ok (env_db E)" "env_ok E view" and eff: "effect (env_codec E) l sm rep ans" "ans \<noteq> []"
    and ts: "Suc (length ts) = card (set (cl_members c))" "length ts' = length ts"
  obtains c' where "run (cluster_step E) (beat i ts ts') c = Done c'" "cl_members c' = cl_members c" "cl_answers c' = cl_answers c"
    "committed i t l v (v + 1) rep rep c'"
proof -
  let ?M = "set (cl_members c)"
  have C: "cl_net c = []" "within v (cl_node c i)" "answered i ?M t l rep (cl_node c i)"
    and f: "\<And>j. j \<in> ?M \<Longrightarrow> j \<noteq> i \<Longrightarrow> holds ?M t l v rep0 j (cl_node c j) \<and> um_find (rn_next_index (cl_node c i)) j = Some (v + 1 + 1)"
    using c by (simp_all add: committed_def)
  have n: "leading i ?M t l (v + 1) (cl_node c i)" using C(3) by (simp add: answered_def l(2))
  have vs: "v \<le> v + 1" using v(1) by (simp add: less_succ_iff less_imp_le)
  have "drop k (rl_entries l) = [last (rl_entries l)]"
    using l(3) by (metis append_butlast_last_id append_eq_conv_conj diff_Suc_1 length_butlast list.size(3) nat.distinct(1))
  then have one: "take (unat (v + 1) - unat v) (drop (unat v) (rl_entries l)) = [last (rl_entries l)]" using v by (simp add: unat_succ)
  obtain c2 rs where r: "run (cluster_step E) (beat i ts ts') c = Done c2" and c2: "cl_members c2 = cl_members c" "cl_net c2 = []"
    "cl_answers c2 = cl_answers c @ rs" "within v (cl_node c2 i)"
    and st: "waiting i ?M t l v sm (cl_node c2 i) \<and> ans @ rs = [] \<or> answered i ?M t l rep (cl_node c2 i) \<and> ans @ rs = ans"
    and f2: "\<And>j. j \<in> ?M \<Longrightarrow> j \<noteq> i \<Longrightarrow> holds ?M t l (v + 1) rep j (cl_node c2 j) \<and>
       um_find (rn_match_index (cl_node c2 i)) j = Some (v + 1) \<and> um_find (rn_next_index (cl_node c2 i)) j = Some (v + 1 + 1)"
  proof (rule beat_round [where b = True and rep = rep and ans = ans and c = c and i = i and ?v0.0 = "\<lambda>_. v" and w = "v + 1" and k = "length (rl_entries l)" and ?rep0.0 = "\<lambda>_. rep0" and
        ?rep1.0 = rep and rs = ans, OF i C(1) n l(1,2) v(1) C(2) _ _ _ _ _ _ vs _ _ E _ ts])
    show "um_find (rn_next_index (cl_node c i)) j = Some x \<Longrightarrow> j \<noteq> i \<Longrightarrow> x = of_nat (length (rl_entries l)) + 1" for j x
      using next_all [OF n, of "v + 1 + 1" j x] f v(2) by (simp add: l(3) add.commute)
    have "log_prefix (length (rl_entries l)) l = l" by (simp add: log_prefix_def)
    then show "j \<in> ?M \<Longrightarrow> j \<noteq> i \<Longrightarrow> holds ?M t (log_prefix (length (rl_entries l)) l) v rep0 j (cl_node c j)" for j using f by simp
    show "fold (sm_apply_entry_no_response (env_codec E) now) (take (unat (v + 1) - unat v) (drop (unat v) (rl_entries l))) rep0 = rep" for now
      unfolding one using ap by simp
  qed (use C(3) l eff(1) that in auto)
  with eff(2) show thesis by (intro that [of c2]) (auto simp: committed_def)
qed

lemma write_round:
  fixes E :: "('db, 'fs, 'tok) env" and c :: "('db, 'fs) cluster"
  assumes s: "settled i c" and w: "write_ok E (cl_members c) w" and max: "length (rl_entries (rn_logs (cl_node c i))) < 2 ^ 64 - 2"
    and E: "writes_ok (env_db E)" "env_ok E view"
  defines "sm \<equiv> rn_state_machine (cl_node c i)"
  obtains c' where "run (cluster_step E) (write_actions i w) c = Done c'" "settled i c'" "cl_members c' = cl_members c"
    "cl_answers c' = cl_answers c @ [(cw_handle w, RespMkdir (mkdir_answer (stamped w) sm))]"
    "replica (rn_state_machine (cl_node c' i)) = replica (mkdir (stamped w) sm)"
    "length (rl_entries (rn_logs (cl_node c' i))) = Suc (length (rl_entries (rn_logs (cl_node c i))))" "current_term (cl_node c' i) = current_term (cl_node c i)"
proof -
  let ?ld = "cl_node c i" and ?M = "set (cl_members c)" and ?t = "current_term (cl_node c i)" and ?q = "stamped w"
  note S = settledD [OF s]
  obtain ts1 ts2 ts3 ts4 where ts: "cw_clocks w = ((ts1, ts2), ts3, ts4)" "Suc (length ts1) = card ?M" "length ts2 = length ts1"
    "Suc (length ts3) = card ?M" "length ts4 = length ts3"
    using w by (cases "cw_clocks w") (auto simp: write_ok_def split: prod.splits)
  have tok: "vertify_token (env_jwt E) (mdq_token (cw_request w))"
    and cmd: "par_command (env_codec E) (ser_command (env_codec E) (CmdMkdir ((cw_request w)\<lparr>mdq_timestamp := cw_now w\<rparr>))) =
      Some (CmdMkdir ((cw_request w)\<lparr>mdq_timestamp := cw_now w\<rparr>))"
    using w by (simp_all add: write_ok_def stamped_def)
  define l where "l = rn_logs ?ld"
  define v where "v = last_log_index l"
  obtain n1 l' where h: "handle_make_dir_request E (cw_now w) (cw_handle w) (cw_request w) ?ld = (n1, None)" and n1: "leading i ?M ?t l' v n1"
    and l': "l' = l\<lparr>rl_entries := rl_entries l @ [mkdir_entry E ?q ?ld]\<rparr>" "fresh_log l'" "last_log_index l' = v + 1"
    and v: "v \<noteq> - 1" "v = of_nat (length (rl_entries l))" "unat v = length (rl_entries l)"
    and keep: "rn_next_index n1 = rn_next_index ?ld" "rn_match_index n1 = rn_match_index ?ld"
    and eff: "effect (env_codec E) l' (rn_state_machine n1) (replica (mkdir ?q sm)) [(cw_handle w, RespMkdir (mkdir_answer ?q sm))]"
    by (rule mkdir_logged [OF S(5) tok S(4) max cmd, of "cw_handle w", folded l_def v_def sm_def stamped_def]) (rule that)
  have lens: "length (rl_entries l') = Suc (length (rl_entries l))" "length (rl_entries l) < 2 ^ 64 - 2" using max by (simp_all add: l'(1) l_def)
  have r1: "cluster_step E (Act i (EvMakeDir (cw_now w) (cw_handle w) (cw_request w))) c = Done (cluster_update i (n1, [], []) c)"
    using S(1) h by simp
  obtain c2 where c2: "run (cluster_step E) (beat i ts1 ts2) (cluster_update i (n1, [], []) c) = Done c2" "cl_members c2 = cl_members c"
    "cl_answers c2 = cl_answers c @ [(cw_handle w, RespMkdir (mkdir_answer ?q sm))]"
    "committed i ?t l' v v (replica sm) (replica (mkdir ?q sm)) c2"
    by (rule commit_beat [OF s n1 keep l'(2,3) lens _ v_def [unfolded l_def] v(1,2) E eff ts(2,3), folded sm_def])
      (simp_all add: l'(1) log_prefix_def l_def that)
  have ap: "sm_apply_entry_no_response (env_codec E) now (last (rl_entries l')) (replica sm) = replica (mkdir ?q sm)" for now
    using cmd by (simp add: l'(1) sm_apply_entry_no_response_def mkdir_entry_def stamped_def replica_mkdir)
  obtain c3 where c3: "run (cluster_step E) (beat i ts3 ts4) c2 = Done c3" "cl_members c3 = cl_members c" "cl_answers c3 = cl_answers c2"
    "committed i ?t l' v (v + 1) (replica (mkdir ?q sm)) (replica (mkdir ?q sm)) c3"
    by (rule apply_beat [OF _ c2(4) l'(2,3) lens v ap E eff, of ts3 ts4]) (use S(1) c2(2) ts(4,5) that in simp_all)
  have a3: "answered i ?M ?t l' (replica (mkdir ?q sm)) (cl_node c3 i)" using c3 by (simp add: committed_def)
  show thesis
  proof (rule that)
    show "run (cluster_step E) (write_actions i w) c = Done c3" using r1 c2(1) c3(1) by (simp add: write_actions_def ts(1) run_append)
    show "settled i c3" using S(1,2) c3(2) by (intro settledI [OF _ _ l'(2,3) v(1) c3(4)]) simp_all
    show "replica (rn_state_machine (cl_node c3 i)) = replica (mkdir (stamped w) sm)" using a3 by (simp add: answered_def)
    show "length (rl_entries (rn_logs (cl_node c3 i))) = Suc (length (rl_entries (rn_logs ?ld)))"
      using a3 lens(1) by (simp add: answered_def leading_def l_def)
    show "current_term (cl_node c3 i) = ?t" using a3 by (simp add: answered_def leading_def)
  qed (use c3 c2(3) in simp_all)
qed

text \<open>One state machine that serves the requests one after the other: its answers and its last state.\<close>

fun mkdirs :: "client_write list \<Rightarrow> StateMachine \<Rightarrow> resumed \<times> StateMachine" where
  "mkdirs [] sm = ([], sm)"
| "mkdirs (w # ws) sm =
     (case mkdirs ws (mkdir (stamped w) sm) of
        (rs, sm') \<Rightarrow> ((cw_handle w, RespMkdir (mkdir_answer (stamped w) sm)) # rs, sm'))"

lemma settled_replicas:
  assumes "settled i c" and "j \<in> set (cl_members c)"
  shows "replica (rn_state_machine (cl_node c j)) = replica (rn_state_machine (cl_node c i))"
  using settledD(7) [OF assms] by (cases "j = i") (simp_all add: holds_def)

lemma writes_served:
  fixes E :: "('db, 'fs, 'tok) env" and c :: "('db, 'fs) cluster"
  assumes E: "writes_ok (env_db E)" "env_ok E view" and "settled i c" and "list_all (write_ok E (cl_members c)) ws"
    and "length (rl_entries (rn_logs (cl_node c i))) + length ws < 2 ^ 64 - 1"
  shows "\<exists>c'. run (cluster_step E) (concat (map (write_actions i) ws)) c = Done c' \<and> settled i c' \<and> cl_members c' = cl_members c \<and>
    cl_answers c' = cl_answers c @ fst (mkdirs ws (replica (rn_state_machine (cl_node c i)))) \<and>
    replica (rn_state_machine (cl_node c' i)) = snd (mkdirs ws (replica (rn_state_machine (cl_node c i)))) \<and>
    length (rl_entries (rn_logs (cl_node c' i))) = length (rl_entries (rn_logs (cl_node c i))) + length ws"
  using assms(3-5)
proof (induction ws arbitrary: c)
  case Nil
  then show ?case by simp
next
  case (Cons w ws)
  let ?sm = "rn_state_machine (cl_node c i)"
  have "length (rl_entries (rn_logs (cl_node c i))) < 2 ^ 64 - 2" using Cons.prems(3) by simp
  with Cons.prems obtain c1 where r1: "run (cluster_step E) (write_actions i w) c = Done c1" and c1: "settled i c1" "cl_members c1 = cl_members c"
    "cl_answers c1 = cl_answers c @ [(cw_handle w, RespMkdir (mkdir_answer (stamped w) ?sm))]"
    "replica (rn_state_machine (cl_node c1 i)) = replica (mkdir (stamped w) ?sm)"
    "length (rl_entries (rn_logs (cl_node c1 i))) = Suc (length (rl_entries (rn_logs (cl_node c i))))"
    by (elim write_round [OF _ _ _ E, of i c w]) simp_all
  from Cons.IH [OF c1(1)] Cons.prems(2,3) c1 obtain c' where
    "run (cluster_step E) (concat (map (write_actions i) ws)) c1 = Done c'" "settled i c'" "cl_members c' = cl_members c"
    "cl_answers c' = cl_answers c1 @ fst (mkdirs ws (replica (mkdir (stamped w) ?sm)))"
    "replica (rn_state_machine (cl_node c' i)) = snd (mkdirs ws (replica (mkdir (stamped w) ?sm)))"
    "length (rl_entries (rn_logs (cl_node c' i))) = length (rl_entries (rn_logs (cl_node c1 i))) + length ws" by auto
  with r1 c1(3,5) show ?case by (intro exI [of _ c']) (simp add: run_append split_beta replica_mkdir)
qed

text \<open>
  C13. A cluster at rest answers like one state machine. Directory requests at
  the leader, each with a heartbeat that takes it to the followers and one that tells them of the
  commit, are each answered once and in order, with the answers that a single state machine gives to
  them, and at the end every member has the name space of that machine. This holds for any number of
  members from two on, any requests with a valid token and any clocks.
\<close>

theorem cluster_serves_writes:
  fixes E :: "('db, 'fs, 'tok) env" and c :: "('db, 'fs) cluster"
  assumes "settled i c" and "list_all (write_ok E (cl_members c)) ws"
    and "length (rl_entries (rn_logs (cl_node c i))) + length ws < 2 ^ 64 - 1" and "writes_ok (env_db E)" and "env_ok E view"
  shows "\<exists>c'. run (cluster_step E) (concat (map (write_actions i) ws)) c = Done c' \<and> settled i c' \<and>
    cl_answers c' = cl_answers c @ fst (mkdirs ws (replica (rn_state_machine (cl_node c i)))) \<and>
    list_all (\<lambda>j. replica (rn_state_machine (cl_node c' j)) = snd (mkdirs ws (replica (rn_state_machine (cl_node c i))))) (cl_members c)"
proof -
  from writes_served [OF assms(4,5,1-3)] obtain c' where c': "run (cluster_step E) (concat (map (write_actions i) ws)) c = Done c'"
    "settled i c'" "cl_members c' = cl_members c"
    "cl_answers c' = cl_answers c @ fst (mkdirs ws (replica (rn_state_machine (cl_node c i))))"
    "replica (rn_state_machine (cl_node c' i)) = snd (mkdirs ws (replica (rn_state_machine (cl_node c i))))" by blast
  then show ?thesis using settled_replicas [OF c'(2)] by (intro exI [of _ c']) (simp add: list_all_iff)
qed

text \<open>Three members at rest in term 1, and two requests for the same directory.\<close>

definition ex_settled :: "(string \<rightharpoonup> string, string \<rightharpoonup> string) cluster" where
  "ex_settled = new_cluster [1, 2, 3] (\<lambda>j. if j = 1 then (ex_leader [])\<lparr>rn_next_index := [(1, 1), (2, 1), (3, 1)]\<rparr>
     else (ex_node j)\<lparr>rn_hard_state := \<lparr>hs_current_term = 1, hs_voted_for = None\<rparr>\<rparr>)"

definition ex_write :: "u64 \<Rightarrow> nat \<Rightarrow> client_write" where
  "ex_write now h = \<lparr>cw_now = now, cw_handle = h, cw_request = ex_mkdir, cw_clocks = (([1, 2], [3, 4]), [5, 6], [7, 8])\<rparr>"

lemma linked_config:
  assumes "config_wf config" and "fst ` set (cfg_raft_nodes config) = M" and "cfg_member_id config = i"
  shows "linked M i (Transport_create config)"
proof -
  have "um_wf (tr_peers (Transport_create config))" by (rule transport_wf [OF assms(1)])
  moreover have "tr_member_id (Transport_create config) = i" by (simp add: Transport_create_def assms(3))
  ultimately show ?thesis using assms(1,2)
    by (auto simp: linked_def transport_peers [OF assms(1)] um_keys_def make_peer_def member_id_def config_wf_def image_image split_beta)
qed

lemma ex_settled_ok: "settled 1 ex_settled"
proof -
  have m: "linked {1, 2, 3} j (rn_transport (ex_node j))" for j
    using linked_config [OF ex_config_wf ex_config_members, of j] by (simp add: ex_node_def RaftNode_init_def)
  have "rn_state_machine (ex_node 2) = rn_state_machine (ex_node 1)" "rn_state_machine (ex_node 3) = rn_state_machine (ex_node 1)"
    by (simp_all add: ex_node_def RaftNode_init_def StateMachine_create_def ex_config_def set_member_id_def)
  moreover have "rn_state_machine (ex_leader []) = rn_state_machine (ex_node 1)" "rn_transport (ex_leader []) = rn_transport (ex_node 1)"
    by (simp_all add: ex_leader_def)
  moreover have "sm_pending (rn_state_machine (ex_node 1)) = []" by (simp add: ex_node_def RaftNode_init_def StateMachine_create_def Let_def)
  moreover have "rn_role (ex_node j) = kFollower" "rn_logs (ex_node j) = ex_log []" "\<not> sp_locked (rn_snapshotter (ex_node j))"
    "rn_commit_index (ex_node j) = 0" "rn_last_applied (ex_node j) = 0" "rn_next_index (ex_node j) = []" "rn_match_index (ex_node j) = []" for j
    by (simp_all add: ex_node_def RaftNode_init_def ex_log_def)
  ultimately show ?thesis using m
    by (simp add: settled_def ex_settled_def new_cluster_def Let_def answered_def leading_def holds_def tracks_def free_behind_def um_wf_def um_keys_def um_all_def
        um_find_def um_contains_def)
qed

lemma ex_create: "replica (rn_state_machine (cl_node ex_settled 1)) = StateMachine_create (ex_config 1)"
  by (simp add: ex_settled_def new_cluster_def ex_leader_def ex_node_def RaftNode_init_def replica_def StateMachine_create_def Let_def)

lemma mkdirs_handles: "map fst (fst (mkdirs ws sm)) = map cw_handle ws"
  by (induction ws arbitrary: sm) (simp_all add: split_beta)

lemma mkdir_keeps_entry: "um_contains (sm_dir_entries sm) p \<Longrightarrow> um_contains (sm_dir_entries (mkdir q sm)) p"
  by (auto simp: mkdir_def add_child_def Let_def um_contains_def split: option.splits)

lemma ex_mkdir_entry: "um_contains (sm_dir_entries (mkdir (stamped (ex_write 9 4)) (StateMachine_create (ex_config 1)))) ''/a''"
  by code_simp

lemma ex_mkdirs:
  "case mkdirs [ex_write 9 4, ex_write 10 5] (StateMachine_create (ex_config 1)) of
     (rs, sm) \<Rightarrow> map fst rs = [4, 5] \<and> um_contains (sm_dir_entries sm) ''/a''"
proof -
  have "map cw_handle [ex_write 9 4, ex_write 10 5] = [4, 5]" by (simp add: ex_write_def)
  then show ?thesis using mkdirs_handles [of "[ex_write 9 4, ex_write 10 5]" "StateMachine_create (ex_config 1)"]
    mkdir_keeps_entry [OF ex_mkdir_entry] by (simp add: split_beta)
qed

theorem cluster_serves_writes_witness:
  "\<exists>c. run (cluster_step ex_env) (concat (map (write_actions 1) [ex_write 9 4, ex_write 10 5])) ex_settled = Done c \<and>
     map fst (cl_answers c) = [4, 5] \<and> um_contains (sm_dir_entries (replica (rn_state_machine (cl_node c 3)))) ''/a''"
proof -
  have m: "cl_members ex_settled = [1, 2, 3]" "cl_answers ex_settled = []" "rl_entries (rn_logs (cl_node ex_settled 1)) = []"
    by (simp_all add: ex_settled_def new_cluster_def)
  have w: "list_all (write_ok ex_env (cl_members ex_settled)) [ex_write 9 4, ex_write 10 5]"
    by (simp add: write_ok_def ex_write_def m stamped_def ex_mkdir_def MakeDirRequest_default_def)
  have "\<exists>c. run (cluster_step ex_env) (concat (map (write_actions 1) [ex_write 9 4, ex_write 10 5])) ex_settled = Done c \<and> settled 1 c \<and>
    cl_answers c = cl_answers ex_settled @ fst (mkdirs [ex_write 9 4, ex_write 10 5] (replica (rn_state_machine (cl_node ex_settled 1)))) \<and>
    list_all (\<lambda>j. replica (rn_state_machine (cl_node c j)) =
      snd (mkdirs [ex_write 9 4, ex_write 10 5] (replica (rn_state_machine (cl_node ex_settled 1))))) (cl_members ex_settled)"
    by (rule cluster_serves_writes [OF ex_settled_ok w _ _ ex_env_ok]) (simp_all add: m ex_writes_ok)
  with ex_mkdirs show ?thesis by (auto simp: m ex_create split_beta simp del: mkdirs.simps)
qed

end
