(* ===== verification/Failover.thy ===== *)
theory Failover
  imports Write_Round
begin

text \<open>
  Elections of a whole cluster: a member whose timer has expired asks for votes, all members grant
  theirs, and the answers make it the leader of the next term. From a cluster whose members have the
  same log, applied, this leads to a cluster at rest with the new leader, which serves writes again.
\<close>

section \<open>A member at rest\<close>

text \<open>What \<open>answered\<close> says of a leader and \<open>holds\<close> of a follower, without their role and term.\<close>

definition resting :: "u64 set \<Rightarrow> RaftLog \<Rightarrow> StateMachine \<Rightarrow> u64 \<Rightarrow> ('db, 'fs) RaftNode \<Rightarrow> bool" where
  "resting M l rep j n \<longleftrightarrow> rn_logs n = l \<and> \<not> sp_locked (rn_snapshotter n) \<and> rn_commit_index n = last_log_index l \<and>
     rn_last_applied n = last_log_index l \<and> replica (rn_state_machine n) = rep \<and>
     linked M j (rn_transport n) \<and> tracks M n \<and> free_behind (last_log_index l) n"

lemma resting_holds: "holds M t l (last_log_index l) rep j n \<longleftrightarrow> rn_role n = kFollower \<and> current_term n = t \<and> resting M l rep j n"
  by (auto simp: holds_def resting_def)

lemma answered_resting: "answered i M t l rep n \<Longrightarrow> resting M l rep i n"
  by (simp add: answered_def leading_def resting_def tracks_def)

text \<open>The fields that \<open>resting\<close> reads.\<close>

lemma resting_cong:
  assumes "rn_logs n' = rn_logs n" "rn_snapshotter n' = rn_snapshotter n" "rn_commit_index n' = rn_commit_index n"
    "rn_last_applied n' = rn_last_applied n" "rn_state_machine n' = rn_state_machine n" "rn_transport n' = rn_transport n"
    "rn_next_index n' = rn_next_index n" "rn_match_index n' = rn_match_index n"
  shows "resting M l rep j n' \<longleftrightarrow> resting M l rep j n"
  using assms by (simp add: resting_def tracks_def free_behind_def)

lemma linked_peers:
  assumes "linked M i T"
  shows "map pe_id (um_values (tr_peers T)) = um_keys (tr_peers T)" "cluster_size T = of_nat (card M)"
    "distinct (broadcast_targets T)" "set (broadcast_targets T) = M - {i}"
proof -
  show ids: "map pe_id (um_values (tr_peers T)) = um_keys (tr_peers T)"
    using assms by (auto simp: linked_def um_values_def um_keys_def)
  show "cluster_size T = of_nat (card M)"
    using assms um_length_keys [of "tr_peers T"] by (auto simp: linked_def cluster_size_def)
  show "distinct (broadcast_targets T)" "set (broadcast_targets T) = M - {i}"
    using assms by (auto simp: broadcast_targets_def ids linked_def member_id_def um_wf_def um_keys_def)
qed

lemma persist_Done:
  assumes "writes_ok (env_db E)"
  obtains db where "persist_hard_state E n = Done (n\<lparr>rn_persister := db\<rparr>)"
  using save_hard_state_Done [OF assms, of "env_codec E" "rn_hard_state n" "rn_persister n"] by (auto simp: persist_hard_state_def)

section \<open>Votes\<close>

definition vote_request :: "u64 \<Rightarrow> u64 \<Rightarrow> RaftLog \<Rightarrow> RequestVoteRequest" where
  "vote_request i t l = make_request_vote_request t i (last_log_index l) (last_log_term l)"

lemma voter_grants:
  fixes n :: "('db, 'fs) RaftNode"
  assumes n: "resting M l rep j n" and t: "current_term n < t" and E: "writes_ok (env_db E)"
  obtains n' where "handle_request_vote_request E now (vote_request i t l) n = Done (n', make_request_vote_response j t True)"
    "holds M t l (last_log_index l) rep j n'"
proof -
  define n1 where "n1 = n\<lparr>rn_votes := 0, rn_hard_state := (rn_hard_state n)\<lparr>hs_voted_for := None, hs_current_term := t\<rparr>,
    rn_role := kFollower, rn_last_reset_time := now\<rparr>"
  obtain db where "persist_hard_state E n1 = Done (n1\<lparr>rn_persister := db\<rparr>)" by (rule persist_Done [OF E])
  then have up: "increase_term_to E now t n = Done (n1\<lparr>rn_persister := db\<rparr>)" by (simp add: increase_term_to_def n1_def)
  define n' where "n' = n1\<lparr>rn_persister := db, rn_hard_state := (rn_hard_state n1)\<lparr>hs_voted_for := Some i\<rparr>, rn_last_reset_time := now\<rparr>"
  have f: "rn_logs n = l" "member_id (rn_transport n) = j" using n by (auto simp: resting_def linked_def)
  have "handle_request_vote_request E now (vote_request i t l) n = Done (n', make_request_vote_response j t True)"
    using t f up by (simp add: handle_request_vote_request_def Let_def vote_request_def make_request_vote_request_def not_less_iff_gr_or_eq n'_def n1_def)
  moreover have "holds M t l (last_log_index l) rep j n'"
    using n by (simp add: resting_holds n'_def n1_def) (simp add: resting_def tracks_def free_behind_def)
  ultimately show thesis by (rule that)
qed

text \<open>The candidate with \<open>k\<close> votes, and the leader it becomes.\<close>

definition campaigning :: "u64 \<Rightarrow> u64 set \<Rightarrow> u64 \<Rightarrow> RaftLog \<Rightarrow> StateMachine \<Rightarrow> nat \<Rightarrow> ('db, 'fs) RaftNode \<Rightarrow> bool" where
  "campaigning i M t l rep k n \<longleftrightarrow> rn_role n = kCandidate \<and> current_term n = t \<and> rn_votes n = of_nat k \<and> k \<le> card M div 2 \<and> resting M l rep i n"

definition elected :: "u64 \<Rightarrow> u64 set \<Rightarrow> u64 \<Rightarrow> RaftLog \<Rightarrow> StateMachine \<Rightarrow> ('db, 'fs) RaftNode \<Rightarrow> bool" where
  "elected i M t l rep n \<longleftrightarrow> answered i M t l rep n \<and> (\<forall>j \<in> M. um_find (rn_next_index n) j = Some (last_log_index l + 1)) \<and>
     um_all (\<lambda>v. v \<le> last_log_index l) (rn_match_index n)"

lemma fold_assign_keys: "set (um_keys (fold (\<lambda>j. um_assign j v) js m)) = set js \<union> set (um_keys m)"
  by (induction js arbitrary: m) (auto simp: um_keys_assign)

lemma become_leader_elected:
  fixes n :: "('db, 'fs) RaftNode"
  assumes n: "resting M l rep i n" "current_term n = t" and E: "writes_ok (env_db E)"
  obtains n' where "become_leader E n = Done n'" "elected i M t l rep n'"
proof -
  let ?m = "n\<lparr>rn_votes := 0, rn_hard_state := (rn_hard_state n)\<lparr>hs_voted_for := None\<rparr>, rn_role := kLeader\<rparr>"
  obtain db where p: "persist_hard_state E ?m = Done (?m\<lparr>rn_persister := db\<rparr>)" by (rule persist_Done [OF E])
  define n' where "n' = reset_peers (?m\<lparr>rn_persister := db\<rparr>)"
  let ?ks = "um_keys (tr_peers (rn_transport n))"
  have lk: "linked M i (rn_transport n)" and tr: "tracks M n" using n(1) by (simp_all add: resting_def)
  from lk have ks: "set ?ks = M" by (simp add: linked_def)
  have nxt: "rn_next_index n' = fold (\<lambda>j. um_assign j (last_log_index l + 1)) ?ks (rn_next_index n)"
    and mat: "rn_match_index n' = fold (\<lambda>j. um_assign j 0) ?ks (rn_match_index n)"
    using n(1) linked_peers(1) [OF lk] by (simp_all add: n'_def reset_peers_def Let_def resting_def)
  have wf: "um_wf (rn_next_index n')" "um_wf (rn_match_index n')" "set (um_keys (rn_next_index n')) = M" "set (um_keys (rn_match_index n')) = M"
    using tr ks by (auto simp: nxt mat tracks_def um_wf_fold_assign fold_assign_keys)
  have "v \<le> last_log_index l" if "um_find (rn_match_index n') k = Some v" for k v
    using um_find_keys [OF that] wf(4) that ks by (simp add: mat fold_assign_find)
  then have "um_all (\<lambda>v. v \<le> last_log_index l) (rn_match_index n')"
    using wf(2) by (auto simp: um_all_def um_find_def um_wf_def)
  moreover have "answered i M t l rep n'"
    using n wf by (simp add: answered_def leading_def)
      (simp add: n'_def reset_peers_def Let_def resting_def free_behind_def reset_offsets_def)
  moreover have "become_leader E n = Done n'" using p by (simp add: become_leader_def n'_def)
  ultimately show thesis using ks by (intro that [of n']) (simp_all add: elected_def nxt fold_assign_find)
qed

text \<open>One more vote, before and after the majority is reached.\<close>

lemma vote_counted:
  fixes n :: "('db, 'fs) RaftNode"
  assumes st: "campaigning i M t l rep k n \<or> elected i M t l rep n" and M: "card M < 2 ^ 64" and E: "writes_ok (env_db E)"
  obtains n' where "handle_request_vote_response E now (make_request_vote_response j t True) n = Done n'"
    "campaigning i M t l rep (Suc k) n' \<or> elected i M t l rep n'"
  using st
proof
  assume "elected i M t l rep n"
  then show thesis
    by (intro that [of n]) (auto simp: elected_def answered_def leading_def handle_request_vote_response_def make_request_vote_response_def)
next
  assume c: "campaigning i M t l rep k n"
  then have n: "rn_role n = kCandidate" "current_term n = t" "rn_votes n = of_nat k" "k \<le> card M div 2" "resting M l rep i n"
    by (simp_all add: campaigning_def)
  let ?n = "n\<lparr>rn_votes := of_nat (Suc k)\<rparr>"
  have r: "resting M l rep i ?n" using n(5) by (subst resting_cong [of _ n]) simp_all
  have size: "cluster_size (rn_transport n) = of_nat (card M)" using n(5) linked_peers(2) by (auto simp: resting_def)
  have "card M div 2 < 2 ^ 64" "Suc k < 2 ^ 64" using M n(4) by simp_all
  then have gt: "(of_nat (card M) div 2 :: u64) < of_nat (Suc k) \<longleftrightarrow> card M div 2 < Suc k"
    using M by (simp add: word_less_nat_alt unat_div unat_of_nat_small del: of_nat_Suc)
  have h: "handle_request_vote_response E now (make_request_vote_response j t True) n =
      (if card M div 2 < Suc k then become_leader E ?n else Done ?n)"
    using n gt size by (simp add: handle_request_vote_response_def make_request_vote_response_def Let_def add.commute)
  show thesis
  proof (cases "card M div 2 < Suc k")
    case True
    obtain n' where "become_leader E ?n = Done n'" "elected i M t l rep n'"
      by (rule become_leader_elected [OF r _ E]) (simp_all add: n(2))
    with h True show thesis by (intro that [of n']) simp_all
  next
    case False
    with h r n show thesis by (intro that [of ?n]) (simp_all add: campaigning_def)
  qed
qed

section \<open>An election\<close>

lemma candidacy:
  fixes n :: "('db, 'fs) RaftNode"
  assumes n: "resting M l rep i n" "rn_role n \<noteq> kLeader" "\<not> now - rn_last_reset_time n < timeout"
    and M: "2 \<le> card M" "card M < 2 ^ 64" and E: "writes_ok (env_db E)"
  obtains n' js where "emit_step E (EvElection now timeout) n =
      Done (n', map (\<lambda>j. VoteRequest j (vote_request i (current_term n + 1) l)) js, [])"
    "campaigning i M (current_term n + 1) l rep 1 n'" "distinct js" "set js = M - {i}"
proof -
  let ?m = "n\<lparr>rn_votes := 0, rn_hard_state := (rn_hard_state n)\<lparr>hs_current_term := current_term n + 1,
    hs_voted_for := Some (member_id (rn_transport n))\<rparr>, rn_role := kCandidate\<rparr>"
  obtain db where p: "persist_hard_state E ?m = Done (?m\<lparr>rn_persister := db\<rparr>)" by (rule persist_Done [OF E])
  define n' where "n' = ?m\<lparr>rn_persister := db, rn_votes := 1\<rparr>"
  have lk: "linked M i (rn_transport n)" and l: "rn_logs n = l" using n(1) by (simp_all add: resting_def)
  note P = linked_peers [OF lk]
  have "unat (of_nat (card M) div 2 :: u64) = card M div 2" using M(2) by (simp add: unat_div unat_of_nat_small)
  then have lt: "\<not> (of_nat (card M) div 2 :: u64) < 1" using M(1) by (simp add: word_less_nat_alt)
  have "election_loop_body E now timeout n = Done (n', Some (vote_request i (current_term n + 1) l))"
    using n(2,3) p lt l linked_id [OF lk] P(2) by (simp add: election_loop_body_def Let_def n'_def vote_request_def)
  moreover have "campaigning i M (current_term n + 1) l rep 1 n'"
    using n(1) M(1) by (simp add: campaigning_def n'_def) (simp add: resting_def tracks_def free_behind_def)
  moreover have "rn_transport n' = rn_transport n" by (simp add: n'_def)
  ultimately show thesis using P(3,4) by (intro that [of n' "broadcast_targets (rn_transport n)"]) simp_all
qed

lemma deliver_votes:
  fixes E :: "('db, 'fs, 'tok) env" and c :: "('db, 'fs) cluster"
  assumes "cl_net c = map (\<lambda>j. VoteResponse i (make_request_vote_response j t True)) js" and "i \<in> set (cl_members c)"
    and "length ts = length js" and M: "card M < 2 ^ 64" and E: "writes_ok (env_db E)"
    and "campaigning i M t l rep k (cl_node c i) \<or> elected i M t l rep (cl_node c i)"
  shows "\<exists>c'. run (cluster_step E) (map (Deliver 0) ts) c = Done c' \<and> cl_members c' = cl_members c \<and> cl_net c' = [] \<and>
    cl_answers c' = cl_answers c \<and> (\<forall>k. k \<noteq> i \<longrightarrow> cl_node c' k = cl_node c k) \<and>
    (campaigning i M t l rep (k + length js) (cl_node c' i) \<or> elected i M t l rep (cl_node c' i))"
  using assms(1-3,6)
proof (induction js arbitrary: c ts k)
  case Nil
  then show ?case by simp
next
  case (Cons j js)
  let ?r = "\<lambda>j. VoteResponse i (make_request_vote_response j t True)"
  from Cons.prems(3) obtain now ts' where ts: "ts = now # ts'" "length ts' = length js" by (cases ts) auto
  obtain n' where h: "handle_request_vote_response E now (make_request_vote_response j t True) (cl_node c i) = Done n'"
    and st: "campaigning i M t l rep (Suc k) n' \<or> elected i M t l rep n'"
    by (rule vote_counted [OF Cons.prems(4) M E])
  define c1 where "c1 = cluster_update i (n', [], []) (c\<lparr>cl_net := map ?r js\<rparr>)"
  have step: "cluster_step E (Deliver 0 now) c = Done c1"
    using Cons.prems(1,2) h deliver_first [of c "?r j" "map ?r js" E now] by (simp add: c1_def)
  have c1: "cl_members c1 = cl_members c" "cl_answers c1 = cl_answers c" "cl_node c1 = (cl_node c)(i := n')" "cl_net c1 = map ?r js"
    by (simp_all add: c1_def cluster_update_def)
  from Cons.IH [OF c1(4) _ ts(2), of "Suc k"] Cons.prems(2) c1 st obtain c' where
    "run (cluster_step E) (map (Deliver 0) ts') c1 = Done c'" "cl_members c' = cl_members c" "cl_net c' = []" "cl_answers c' = cl_answers c"
    "\<forall>k. k \<noteq> i \<longrightarrow> cl_node c' k = cl_node c k"
    "campaigning i M t l rep (Suc k + length js) (cl_node c' i) \<or> elected i M t l rep (cl_node c' i)" by auto
  with step ts show ?case by (intro exI [of _ c']) simp
qed

text \<open>The timer of a member, the deliveries of its requests and the deliveries of the answers.\<close>

definition campaign :: "u64 \<Rightarrow> u64 \<Rightarrow> u64 \<Rightarrow> u64 list \<Rightarrow> u64 list \<Rightarrow> action list" where
  "campaign i now timeout ts ts' = Act i (EvElection now timeout) # map (Deliver 0) ts @ map (Deliver 0) ts'"

lemma election_settles:
  fixes E :: "('db, 'fs, 'tok) env" and c :: "('db, 'fs) cluster"
  assumes i: "i \<in> set (cl_members c)" "cl_net c = []" and M: "2 \<le> card (set (cl_members c))" "card (set (cl_members c)) < 2 ^ 64"
    and r: "\<And>j. j \<in> set (cl_members c) \<Longrightarrow> resting (set (cl_members c)) l rep j (cl_node c j) \<and> current_term (cl_node c j) \<le> current_term (cl_node c i)"
    and n: "rn_role (cl_node c i) \<noteq> kLeader" "\<not> now - rn_last_reset_time (cl_node c i) < timeout" "current_term (cl_node c i) \<noteq> - 1"
    and l: "fresh_log l" and E: "writes_ok (env_db E)"
    and ts: "Suc (length ts) = card (set (cl_members c))" "length ts' = length ts"
  obtains c' where "run (cluster_step E) (campaign i now timeout ts ts') c = Done c'" "settled i c'" "cl_members c' = cl_members c"
    "cl_answers c' = cl_answers c" "rn_logs (cl_node c' i) = l" "current_term (cl_node c' i) = current_term (cl_node c i) + 1"
    "replica (rn_state_machine (cl_node c' i)) = rep"
proof -
  let ?M = "set (cl_members c)" and ?t = "current_term (cl_node c i) + 1"
  let ?r = "\<lambda>j. VoteResponse i (make_request_vote_response j ?t True)" and ?q = "\<lambda>j. VoteRequest j (vote_request i ?t l)"
  obtain n1 js where n1: "emit_step E (EvElection now timeout) (cl_node c i) = Done (n1, map ?q js, [])"
    "campaigning i ?M ?t l rep 1 n1" and js: "distinct js" "set js = ?M - {i}"
    using candidacy [OF _ n(1,2) M E] r [OF i(1)] by blast
  have len: "length ts = length js" "length ts' = length js" using ts distinct_card [OF js(1)] js(2) i(1) by simp_all
  define c1 where "c1 = cluster_update i (n1, map ?q js, []) c"
  have step: "cluster_step E (Act i (EvElection now timeout)) c = Done c1" using i(1) n1(1) by (simp add: c1_def del: emit_step.simps)
  have c1: "cl_members c1 = cl_members c" "cl_answers c1 = cl_answers c" "cl_node c1 = (cl_node c)(i := n1)" "cl_net c1 = map ?q js @ []"
    using i(2) by (simp_all add: c1_def cluster_update_def)
  have grant: "\<exists>n'. emit_step E (event_of now (?q j)) (cl_node c1 j) = Done (n', [?r j], []) \<and> holds ?M ?t l (last_log_index l) rep j n'"
    if "j \<in> set js" for j now
  proof -
    have "j \<in> ?M" "j \<noteq> i" using that js(2) by auto
    then have j: "resting ?M l rep j (cl_node c1 j)" "current_term (cl_node c1 j) < ?t"
      using r n(3) c1(3) by (auto simp: less_succ_iff intro: order.strict_trans1)
    show ?thesis by (rule voter_grants [OF j E, of now i]) (auto simp: vote_request_def make_request_vote_request_def)
  qed
  from deliver_requests [OF c1(4) js(1) _ len(1) _ grant] js(2) c1 obtain c2 where
    c2: "run (cluster_step E) (map (Deliver 0) ts) c1 = Done c2" "cl_members c2 = cl_members c" "cl_answers c2 = cl_answers c"
    "cl_net c2 = map ?r js" "\<forall>j \<in> set js. holds ?M ?t l (last_log_index l) rep j (cl_node c2 j)" "cl_node c2 i = n1" by auto
  obtain c3 where c3: "run (cluster_step E) (map (Deliver 0) ts') c2 = Done c3" "cl_members c3 = cl_members c" "cl_net c3 = []"
    "cl_answers c3 = cl_answers c" "\<forall>k. k \<noteq> i \<longrightarrow> cl_node c3 k = cl_node c2 k"
    "campaigning i ?M ?t l rep (1 + length js) (cl_node c3 i) \<or> elected i ?M ?t l rep (cl_node c3 i)"
    using deliver_votes [OF c2(4) _ len(2) M(2) E, where l = l and rep = rep and k = 1] i(1) c2(2,3,6) n1(2) by auto
  have "elected i ?M ?t l rep (cl_node c3 i)" using c3(6) len ts M(1) by (auto simp: campaigning_def)
  then have e: "answered i ?M ?t l rep (cl_node c3 i)" "\<forall>j \<in> ?M. um_find (rn_next_index (cl_node c3 i)) j = Some (last_log_index l + 1)"
    "um_all (\<lambda>v. v \<le> last_log_index l) (rn_match_index (cl_node c3 i))" by (simp_all add: elected_def)
  then have f: "rn_logs (cl_node c3 i) = l" "current_term (cl_node c3 i) = ?t" "replica (rn_state_machine (cl_node c3 i)) = rep"
    by (simp_all add: answered_def leading_def)
  have "settled i c3" using i(1) M(1) l e f c2(5) c3(2,3,5) js(2) by (auto simp: settled_def Let_def)
  moreover have "run (cluster_step E) (campaign i now timeout ts ts') c = Done c3"
    using step c2(1) c3(1) by (simp add: campaign_def run_append del: cluster_step.simps)
  ultimately show thesis using c3 f by (intro that [of c3])
qed

section \<open>A new leader\<close>

lemma election_serves:
  fixes E :: "('db, 'fs, 'tok) env" and c :: "('db, 'fs) cluster"
  assumes i: "i \<in> set (cl_members c)" "cl_net c = []" and M: "2 \<le> card (set (cl_members c))" "card (set (cl_members c)) < 2 ^ 64"
    and r: "\<And>j. j \<in> set (cl_members c) \<Longrightarrow> resting (set (cl_members c)) l rep j (cl_node c j) \<and> current_term (cl_node c j) \<le> current_term (cl_node c i)"
    and n: "rn_role (cl_node c i) \<noteq> kLeader" "\<not> now - rn_last_reset_time (cl_node c i) < timeout" "current_term (cl_node c i) \<noteq> - 1"
    and l: "fresh_log l" and E: "writes_ok (env_db E)" "env_ok E view"
    and ts: "Suc (length ts) = card (set (cl_members c))" "length ts' = length ts"
    and ws: "list_all (write_ok E (cl_members c)) ws" "length (rl_entries l) + length ws < 2 ^ 64 - 1"
  shows "\<exists>c'. run (cluster_step E) (campaign i now timeout ts ts' @ concat (map (write_actions i) ws)) c = Done c' \<and> settled i c' \<and>
    cl_answers c' = cl_answers c @ fst (mkdirs ws rep) \<and>
    list_all (\<lambda>j. replica (rn_state_machine (cl_node c' j)) = snd (mkdirs ws rep)) (cl_members c)"
proof -
  obtain c1 where r1: "run (cluster_step E) (campaign i now timeout ts ts') c = Done c1" and c1: "settled i c1" "cl_members c1 = cl_members c"
    "cl_answers c1 = cl_answers c" "rn_logs (cl_node c1 i) = l" "replica (rn_state_machine (cl_node c1 i)) = rep"
    by (rule election_settles [OF i M r n l E(1) ts]) (assumption, rule that)
  from writes_served [OF E c1(1), of ws] ws c1(2-5) obtain c' where c': "run (cluster_step E) (concat (map (write_actions i) ws)) c1 = Done c'"
    "settled i c'" "cl_members c' = cl_members c" "cl_answers c' = cl_answers c @ fst (mkdirs ws rep)"
    "replica (rn_state_machine (cl_node c' i)) = snd (mkdirs ws rep)" by auto
  with r1 settled_replicas [OF c'(2)] show ?thesis by (intro exI [of _ c']) (simp add: run_append list_all_iff)
qed

text \<open>A follower takes over from the leader of a cluster at rest.\<close>

lemma take_over:
  fixes E :: "('db, 'fs, 'tok) env" and c :: "('db, 'fs) cluster"
  assumes s: "settled i c" and j: "j \<in> set (cl_members c)" "j \<noteq> i" and M: "card (set (cl_members c)) < 2 ^ 64"
    and t: "\<not> now - rn_last_reset_time (cl_node c j) < timeout" "current_term (cl_node c i) \<noteq> - 1"
    and E: "writes_ok (env_db E)" and ts: "Suc (length ts) = card (set (cl_members c))" "length ts' = length ts"
  obtains c' where "run (cluster_step E) (campaign j now timeout ts ts') c = Done c'" "settled j c'" "cl_members c' = cl_members c"
    "cl_answers c' = cl_answers c" "rn_logs (cl_node c' j) = rn_logs (cl_node c i)" "current_term (cl_node c' j) = current_term (cl_node c i) + 1"
    "replica (rn_state_machine (cl_node c' j)) = replica (rn_state_machine (cl_node c i))"
proof -
  note S = settledD [OF s]
  let ?t = "current_term (cl_node c i)" and ?l = "rn_logs (cl_node c i)" and ?M = "set (cl_members c)" and ?rep = "replica (rn_state_machine (cl_node c i))"
  have h: "holds ?M ?t ?l (last_log_index ?l) ?rep j (cl_node c j)" by (rule S(7) [OF j])
  then have n: "rn_role (cl_node c j) \<noteq> kLeader" "current_term (cl_node c j) = ?t" by (simp_all add: holds_def)
  have r: "resting ?M ?l ?rep k (cl_node c k) \<and> current_term (cl_node c k) \<le> current_term (cl_node c j)" if "k \<in> ?M" for k
  proof (cases "k = i")
    case True
    with S(5) answered_resting h show ?thesis by (auto simp: holds_def)
  next
    case False
    with S(7) [OF that] h show ?thesis by (simp add: resting_holds)
  qed
  obtain c' where "run (cluster_step E) (campaign j now timeout ts ts') c = Done c'" "settled j c'" "cl_members c' = cl_members c"
    "cl_answers c' = cl_answers c" "rn_logs (cl_node c' j) = ?l" "current_term (cl_node c' j) = current_term (cl_node c j) + 1"
    "replica (rn_state_machine (cl_node c' j)) = ?rep"
    by (rule election_settles [OF j(1) S(3) S(2) M r n(1) t(1) _ S(4) E ts]) (use n(2) t(2) that in auto)
  with n(2) show thesis by (intro that) simp_all
qed

section \<open>Writes while leaders change\<close>

text \<open>What may happen to a cluster at rest: the leader serves a request, or the timer of a follower expires.\<close>

datatype phase = Serve client_write | TakeOver u64 u64 u64 "u64 list" "u64 list"

fun phase_actions :: "u64 \<Rightarrow> phase \<Rightarrow> action list" where
  "phase_actions i (Serve w) = write_actions i w"
| "phase_actions i (TakeOver j now timeout ts ts') = campaign j now timeout ts ts'"

fun leader_after :: "u64 \<Rightarrow> phase \<Rightarrow> u64" where
  "leader_after i (Serve w) = i"
| "leader_after i (TakeOver j now timeout ts ts') = j"

fun phase_ok :: "('db, 'fs, 'tok) env \<Rightarrow> u64 \<Rightarrow> phase \<Rightarrow> ('db, 'fs) cluster \<Rightarrow> bool" where
  "phase_ok E i (Serve w) c \<longleftrightarrow> write_ok E (cl_members c) w"
| "phase_ok E i (TakeOver j now timeout ts ts') c \<longleftrightarrow> j \<in> set (cl_members c) \<and> j \<noteq> i \<and>
     \<not> now - rn_last_reset_time (cl_node c j) < timeout \<and> Suc (length ts) = card (set (cl_members c)) \<and> length ts' = length ts"

text \<open>The conditions of the phases, each where it starts; that a phase runs to its end is not among them.\<close>

fun history :: "('db, 'fs, 'tok) env \<Rightarrow> u64 \<Rightarrow> phase list \<Rightarrow> ('db, 'fs) cluster \<Rightarrow> bool" where
  "history E i [] c \<longleftrightarrow> True"
| "history E i (p # ps) c \<longleftrightarrow> phase_ok E i p c \<and>
     (case run (cluster_step E) (phase_actions i p) c of Done c' \<Rightarrow> history E (leader_after i p) ps c' | _ \<Rightarrow> True)"

fun history_actions :: "u64 \<Rightarrow> phase list \<Rightarrow> action list" where
  "history_actions i [] = []"
| "history_actions i (p # ps) = phase_actions i p @ history_actions (leader_after i p) ps"

fun requests :: "phase list \<Rightarrow> client_write list" where
  "requests [] = []"
| "requests (Serve w # ps) = w # requests ps"
| "requests (TakeOver j now timeout ts ts' # ps) = requests ps"

text \<open>
  C14. Whatever leaders a cluster at rest has one after the other, it answers like one state
  machine: for every sequence of directory requests, served by whoever leads, and expiring election
  timers of followers, every request is answered once and in order with the answer of a single state
  machine that serves them all, and in the end every member has that machine's name space and the last
  member whose timer expired leads. The number of members, the clocks and the requests are arbitrary.
\<close>

theorem leaders_change_answers_agree:
  fixes E :: "('db, 'fs, 'tok) env" and c :: "('db, 'fs) cluster"
  assumes E: "writes_ok (env_db E)" "env_ok E view" and "settled i c" and "history E i ps c" and "card (set (cl_members c)) < 2 ^ 64"
    and "length (rl_entries (rn_logs (cl_node c i))) + length ps < 2 ^ 64 - 1" and "unat (current_term (cl_node c i)) + length ps < 2 ^ 64"
  shows "\<exists>c'. run (cluster_step E) (history_actions i ps) c = Done c' \<and> settled (fold (\<lambda>p i. leader_after i p) ps i) c' \<and>
    cl_answers c' = cl_answers c @ fst (mkdirs (requests ps) (replica (rn_state_machine (cl_node c i)))) \<and>
    list_all (\<lambda>j. replica (rn_state_machine (cl_node c' j)) = snd (mkdirs (requests ps) (replica (rn_state_machine (cl_node c i))))) (cl_members c)"
  using assms(3-)
proof (induction ps arbitrary: i c)
  case Nil
  then show ?case using settled_replicas [OF Nil(1)] by (auto simp: list_all_iff)
next
  case (Cons p ps)
  let ?rep = "replica (rn_state_machine (cl_node c i))"
  show ?case
  proof (cases p)
    case (Serve w)
    obtain c1 where r1: "run (cluster_step E) (write_actions i w) c = Done c1" and c1: "settled i c1" "cl_members c1 = cl_members c"
      "cl_answers c1 = cl_answers c @ [(cw_handle w, RespMkdir (mkdir_answer (stamped w) ?rep))]"
      "replica (rn_state_machine (cl_node c1 i)) = mkdir (stamped w) ?rep"
      "length (rl_entries (rn_logs (cl_node c1 i))) = Suc (length (rl_entries (rn_logs (cl_node c i))))" "current_term (cl_node c1 i) = current_term (cl_node c i)"
      by (rule write_round [OF Cons.prems(1) _ _ E, of w]) (use Cons.prems Serve in \<open>simp_all add: replica_mkdir\<close>)
    have "history E i ps c1" using Cons.prems(2) Serve r1 by simp
    from Cons.IH [OF c1(1) this] Cons.prems(3-) c1(2,5,6) obtain c' where "run (cluster_step E) (history_actions i ps) c1 = Done c'"
      "settled (fold (\<lambda>p i. leader_after i p) ps i) c'" "cl_answers c' = cl_answers c1 @ fst (mkdirs (requests ps) (mkdir (stamped w) ?rep))"
      "list_all (\<lambda>j. replica (rn_state_machine (cl_node c' j)) = snd (mkdirs (requests ps) (mkdir (stamped w) ?rep))) (cl_members c)"
      by (auto simp: c1(4))
    with r1 c1(3) Serve show ?thesis by (intro exI [of _ c']) (simp add: run_append split_beta)
  next
    case (TakeOver j now timeout ts ts')
    have max: "current_term (cl_node c i) \<noteq> - 1" using Cons.prems(5) by (auto simp: unsigned_minus_1_eq_mask mask_eq_exp_minus_1)
    obtain c1 where r1: "run (cluster_step E) (campaign j now timeout ts ts') c = Done c1" and c1: "settled j c1" "cl_members c1 = cl_members c"
      "cl_answers c1 = cl_answers c" "rn_logs (cl_node c1 j) = rn_logs (cl_node c i)" "current_term (cl_node c1 j) = current_term (cl_node c i) + 1"
      "replica (rn_state_machine (cl_node c1 j)) = ?rep"
      by (rule take_over [OF Cons.prems(1) _ _ Cons.prems(3) _ max E(1), of j now timeout ts ts']) (use Cons.prems(2) TakeOver that in auto)
    have "history E j ps c1" using Cons.prems(2) TakeOver r1 by simp
    moreover have "unat (current_term (cl_node c1 j)) + length ps < 2 ^ 64"
      using Cons.prems(5) max by (simp add: c1(5) unat_succ)
    ultimately obtain c' where "run (cluster_step E) (history_actions j ps) c1 = Done c'" "settled (fold (\<lambda>p i. leader_after i p) ps j) c'"
      "cl_answers c' = cl_answers c1 @ fst (mkdirs (requests ps) ?rep)"
      "list_all (\<lambda>j. replica (rn_state_machine (cl_node c' j)) = snd (mkdirs (requests ps) ?rep)) (cl_members c)"
      using Cons.IH [OF c1(1)] Cons.prems(3,4) c1(2,4,6) by auto
    with r1 c1(3) TakeOver show ?thesis by (intro exI [of _ c']) (simp add: run_append)
  qed
qed

lemma cluster_step_members: "cluster_step E a c = Done c' \<Longrightarrow> cl_members c' = cl_members c"
  by (cases a) (auto simp: co_await_Done_iff cluster_update_def Let_def split: if_splits prod.splits)

lemma run_members: "run (cluster_step E) as c = Done c' \<Longrightarrow> cl_members c' = cl_members c"
  by (induction "as" arbitrary: c) (auto simp: co_await_Done_iff dest: cluster_step_members)

lemma history_step:
  assumes "phase_ok E i p c" and "\<And>c'. cl_members c' = cl_members c \<Longrightarrow> history E (leader_after i p) ps c'"
  shows "history E i (p # ps) c"
  using assms by (auto dest: run_members split: outcome.splits)

definition ex_history :: "phase list" where
  "ex_history = [TakeOver 2 500 300 [1, 2] [3, 4], Serve (ex_write 9 4), TakeOver 3 600 0 [1, 2] [3, 4], Serve (ex_write 10 5)]"

theorem leaders_change_answers_agree_witness:
  "\<exists>c. run (cluster_step ex_env) (history_actions 1 ex_history) ex_settled = Done c \<and> settled 3 c \<and> map fst (cl_answers c) = [4, 5] \<and>
     um_contains (sm_dir_entries (replica (rn_state_machine (cl_node c 1)))) ''/a''"
proof -
  have m: "cl_members ex_settled = [1, 2, 3]" "cl_answers ex_settled = []" "rl_entries (rn_logs (cl_node ex_settled 1)) = []"
    "current_term (cl_node ex_settled 1) = 1" "rn_last_reset_time (cl_node ex_settled 2) = 0"
    by (simp_all add: ex_settled_def new_cluster_def ex_leader_def ex_node_def RaftNode_init_def)
  have w: "write_ok ex_env [1, 2, 3] (ex_write 9 4)" "write_ok ex_env [1, 2, 3] (ex_write 10 5)"
    by (simp_all add: write_ok_def ex_write_def stamped_def ex_mkdir_def MakeDirRequest_default_def)
  have h: "history ex_env 1 ex_history ex_settled"
    unfolding ex_history_def using w by (intro history_step) (simp_all add: m)
  let ?rep = "replica (rn_state_machine (cl_node ex_settled 1))"
  have "\<exists>c. run (cluster_step ex_env) (history_actions 1 ex_history) ex_settled = Done c \<and> settled (fold (\<lambda>p i. leader_after i p) ex_history 1) c \<and>
    cl_answers c = cl_answers ex_settled @ fst (mkdirs (requests ex_history) ?rep) \<and>
    list_all (\<lambda>k. replica (rn_state_machine (cl_node c k)) = snd (mkdirs (requests ex_history) ?rep)) (cl_members ex_settled)"
    by (rule leaders_change_answers_agree [OF _ ex_env_ok ex_settled_ok h]) (simp_all add: m ex_writes_ok ex_history_def)
  moreover have "requests ex_history = [ex_write 9 4, ex_write 10 5]" "fold (\<lambda>p i. leader_after i p) ex_history 1 = 3" by (simp_all add: ex_history_def)
  ultimately show ?thesis using ex_mkdirs by (auto simp: m ex_create split_beta simp del: mkdirs.simps)
qed

section \<open>The first start\<close>

text \<open>The data directory of a node that has never run: an empty database and no snapshot.\<close>

definition blank :: "('db, 'fs, 'tok) env \<Rightarrow> ('db \<Rightarrow> string \<rightharpoonup> string) \<Rightarrow> Config \<Rightarrow> 'fs \<Rightarrow> bool" where
  "blank E view config disk \<longleftrightarrow>
     (case env_open E (path_append (cfg_data_dir config) DB_DIR) of None \<Rightarrow> False | Some db \<Rightarrow> view db = Map.empty \<and> reads_ok (env_db E) db) \<and>
     fs_statx (env_files E) disk (path_append (path_append (cfg_data_dir config) SNAPSHOT_DIR) SNAPSHOT_FILE_NAME) = Inl ENOENT"

lemma blank_start:
  assumes "env_ok E view" and "writes_ok (env_db E)" and "blank E view config disk"
  shows "\<exists>db s. RaftNode_create E (Inr config) disk = Done (Inr (RaftNode_init s (StateMachine_create config) db disk
    \<lparr>rl_last_included_index = 0, rl_last_included_term = 0, rl_entries = []\<rparr> (Transport_create config) HardState_default)) \<and> \<not> sp_locked s"
proof -
  from assms(3) obtain db where db: "env_open E (path_append (cfg_data_dir config) DB_DIR) = Some db" "view db = Map.empty" "reads_ok (env_db E) db"
    and fs: "fs_statx (env_files E) disk (path_append (path_append (cfg_data_dir config) SNAPSHOT_DIR) SNAPSHOT_FILE_NAME) = Inl ENOENT"
    by (auto simp: blank_def split: option.splits)
  have "rocksdb_spec (env_db E) view" using assms(1) by (simp add: env_ok_def)
  then have get: "fst (engine_get (env_db E) k db) = StNotFound" for k
    using engine_get_view [of "env_db E" view db k] db by simp
  then have "load_entries (env_db E) (env_codec E) 0 db = Some (Inr [])"
    by (simp add: load_entries_def load_entries_loop.simps split_beta)
  moreover obtain db' where "load_hard_state (env_db E) (env_codec E) db = (Inr HardState_default, db')"
    using get assms(2) that by (simp add: load_hard_state_def split_beta Let_def engine_put_def writes_ok_def HardState_default_def)
  ultimately show ?thesis using db(1) fs
    by (intro exI [of _ db'] exI [of _ "Snapshotter_create (path_append (path_append (cfg_data_dir config) SNAPSHOT_DIR) SNAPSHOT_FILE_NAME)
        (path_append (path_append (cfg_data_dir config) SNAPSHOT_DIR) SNAPSHOT_TEMP_FILE_NAME)"])
      (simp add: RaftNode_create_def Let_def load_start_snapshot_def get_file_size_def Persister_create_def)
qed

lemma blank_cluster_serves:
  fixes E :: "('db, 'fs, 'tok) env" and nodes :: "u64 \<Rightarrow> ('db, 'fs) RaftNode"
  assumes create: "\<And>j. j \<in> set members \<Longrightarrow> blank E view (config j) (disk j) \<and> RaftNode_create E (Inr (config j)) (disk j) = Done (Inr (nodes j))"
    and config: "\<And>j. j \<in> set members \<Longrightarrow> config_wf (config j) \<and> fst ` set (cfg_raft_nodes (config j)) = set members \<and>
      cfg_member_id (config j) = j \<and> cfg_data_nodes (config j) = cfg_data_nodes (config i)"
    and M: "2 \<le> card (set members)" "card (set members) < 2 ^ 64" and i: "i \<in> set members" "timeout \<le> now"
    and E: "writes_ok (env_db E)" "env_ok E view" and ts: "Suc (length ts) = card (set members)" "length ts' = length ts"
    and ws: "list_all (write_ok E members) ws" "length ws < 2 ^ 64 - 1"
  shows "\<exists>c. run (cluster_step E) (campaign i now timeout ts ts' @ concat (map (write_actions i) ws)) (new_cluster members nodes) = Done c \<and>
    settled i c \<and> cl_answers c = fst (mkdirs ws (StateMachine_create (config i))) \<and>
    list_all (\<lambda>j. replica (rn_state_machine (cl_node c j)) = snd (mkdirs ws (StateMachine_create (config i)))) members"
proof -
  let ?l = "\<lparr>rl_last_included_index = 0, rl_last_included_term = 0, rl_entries = []\<rparr>" and ?sm = "StateMachine_create (config i)"
  have l: "fresh_log ?l" "last_log_index ?l = 0" by (simp_all add: fresh_log_def log_wf_def last_log_index_def last_included_index_def)
  have n: "rn_role (nodes j) \<noteq> kLeader" "current_term (nodes j) = 0" "rn_last_reset_time (nodes j) = 0" "resting (set members) ?l ?sm j (nodes j)"
    if j: "j \<in> set members" for j
  proof -
    obtain db s where nj: "nodes j = RaftNode_init s (StateMachine_create (config j)) db (disk j) ?l (Transport_create (config j)) HardState_default"
      and s: "\<not> sp_locked s"
      using blank_start [OF E(2,1), of "config j" "disk j"] create [OF j] by auto
    then show "rn_role (nodes j) \<noteq> kLeader" "current_term (nodes j) = 0" "rn_last_reset_time (nodes j) = 0"
      by (simp_all add: RaftNode_init_def HardState_default_def)
    have "StateMachine_create (config j) = ?sm" using config [OF j] by (simp add: StateMachine_create_def)
    moreover have "linked (set members) j (Transport_create (config j))" using linked_config config [OF j] by blast
    ultimately show "resting (set members) ?l ?sm j (nodes j)" using s
      by (simp add: resting_def nj RaftNode_init_def l(2) tracks_def free_behind_def um_wf_def um_keys_def)
        (simp add: replica_def StateMachine_create_def Let_def um_contains_def um_find_def)
  qed
  let ?c = "new_cluster members nodes"
  have "\<exists>c. run (cluster_step E) (campaign i now timeout ts ts' @ concat (map (write_actions i) ws)) ?c = Done c \<and> settled i c \<and>
      cl_answers c = cl_answers ?c @ fst (mkdirs ws ?sm) \<and> list_all (\<lambda>j. replica (rn_state_machine (cl_node c j)) = snd (mkdirs ws ?sm)) (cl_members ?c)"
    using n n [OF i(1)] i M l(1) ts ws by (intro election_serves [where l = ?l and rep = ?sm, OF _ _ _ _ _ _ _ _ _ E]) (simp_all add: new_cluster_def)
  then show ?thesis by (simp add: new_cluster_def)
qed

text \<open>
  C15. A cluster that starts for the first time comes up: members that \<open>RaftNode::create\<close> makes on empty data
  directories, from configurations that name the same members and the same data nodes, elect any
  member whose timer expires, and then answer the directory requests sent to it as one state machine
  with the initial name space does, which every member holds at the end.
\<close>

theorem first_start_serves_writes:
  fixes E :: "('db, 'fs, 'tok) env" and nodes :: "u64 \<Rightarrow> ('db, 'fs) RaftNode"
  assumes create: "\<And>j. j \<in> set members \<Longrightarrow> blank E view (config j) (disk j) \<and> RaftNode_create E (Inr (config j)) (disk j) = Done (Inr (nodes j))"
    and config: "\<And>j. j \<in> set members \<Longrightarrow> config_wf (config j) \<and> fst ` set (cfg_raft_nodes (config j)) = set members \<and>
      cfg_member_id (config j) = j \<and> cfg_data_nodes (config j) = cfg_data_nodes (config i)"
    and M: "2 \<le> card (set members)" "card (set members) < 2 ^ 64" and i: "i \<in> set members" "timeout \<le> now"
    and E: "writes_ok (env_db E)" "env_ok E view" and ts: "Suc (length ts) = card (set members)" "length ts' = length ts"
    and ws: "list_all (write_ok E members) ws" "length ws < 2 ^ 64 - 1"
  shows "\<exists>c. run (cluster_step E) (campaign i now timeout ts ts' @ concat (map (write_actions i) ws)) (new_cluster members nodes) = Done c \<and>
    settled i c \<and> cl_answers c = fst (mkdirs ws (StateMachine_create (config i))) \<and>
    list_all (\<lambda>j. replica (rn_state_machine (cl_node c j)) = snd (mkdirs ws (StateMachine_create (config i)))) members"
  using assms by (rule blank_cluster_serves)

definition ex_started :: "u64 \<Rightarrow> (string \<rightharpoonup> string, string \<rightharpoonup> string) RaftNode" where
  "ex_started j = (case RaftNode_create ex_env (Inr (ex_config j)) Map.empty of Done (Inr n) \<Rightarrow> n | _ \<Rightarrow> ex_node j)"

lemma ex_blank: "blank ex_env (\<lambda>db. db) (ex_config j) Map.empty"
  by (simp add: blank_def ex_env_def ex_files_def ex_reads_ok)

theorem first_start_serves_writes_witness:
  "\<exists>c. run (cluster_step ex_env) (campaign 3 500 300 [1, 2] [3, 4] @ concat (map (write_actions 3) [ex_write 9 4, ex_write 10 5]))
       (new_cluster [1, 2, 3] ex_started) = Done c \<and>
     settled 3 c \<and> map fst (cl_answers c) = [4, 5] \<and> um_contains (sm_dir_entries (replica (rn_state_machine (cl_node c 1)))) ''/a''"
proof -
  let ?ws = "[ex_write 9 4, ex_write 10 5]"
  have c: "RaftNode_create ex_env (Inr (ex_config j)) Map.empty = Done (Inr (ex_started j))" for j
    using blank_start [OF ex_env_ok _ ex_blank, of j] by (auto simp: ex_started_def ex_writes_ok)
  have d: "cfg_data_nodes (ex_config j) = cfg_data_nodes (ex_config k)" for j k by (simp add: ex_config_def set_member_id_def)
  have w: "list_all (write_ok ex_env [1, 2, 3]) ?ws"
    by (simp add: write_ok_def ex_write_def stamped_def ex_mkdir_def MakeDirRequest_default_def)
  have e: "StateMachine_create (ex_config 3) = StateMachine_create (ex_config 1)" by (simp add: StateMachine_create_def d [of 3 1])
  have "\<exists>c. run (cluster_step ex_env) (campaign 3 500 300 [1, 2] [3, 4] @ concat (map (write_actions 3) ?ws)) (new_cluster [1, 2, 3] ex_started) = Done c \<and>
    settled 3 c \<and> cl_answers c = fst (mkdirs ?ws (StateMachine_create (ex_config 3))) \<and>
    list_all (\<lambda>j. replica (rn_state_machine (cl_node c j)) = snd (mkdirs ?ws (StateMachine_create (ex_config 3)))) [1, 2, 3]"
    by (rule first_start_serves_writes [where config = ex_config and disk = "\<lambda>j. Map.empty", OF _ _ _ _ _ _ _ ex_env_ok _ _ w])
      (use d in \<open>auto simp: c ex_blank ex_config_wf ex_config_members ex_writes_ok\<close>)
  with ex_mkdirs show ?thesis by (auto simp: e split_beta simp del: mkdirs.simps)
qed

end
