(* ===== verification/Deployment.thy ===== *)
theory Deployment
  imports Failover Client_Main Data_Node Auth_Node
begin

text \<open>
  The programs under \<open>src/tests\<close>, which are the deployment of the system: two raft nodes, three data
  nodes and the auth node, each with its addresses built in, and the client of \<open>src/ui/main.cpp\<close> that calls them.
\<close>

section \<open>The raft nodes\<close>

definition raft1_config :: Config where
  "raft1_config =
     add_data_node 3 ''data_node3'' ''127.0.0.1'' 7072
     (add_data_node 2 ''data_node2'' ''127.0.0.1'' 7071
     (add_data_node 1 ''data_node1'' ''127.0.0.1'' 7070
     (add_raft_node 2 ''raft_node2'' ''127.0.0.1'' 8081
     (add_raft_node 1 ''raft_node1'' ''127.0.0.1'' 8080
     (set_port 8080
     (set_host ''127.0.0.1''
     (set_name ''node1''
     (set_member_id 1
     (set_cluster_id 1
     (set_data_dir ''./node1'' builder_options))))))))))"

definition raft2_config :: Config where
  "raft2_config =
     add_data_node 3 ''data_node3'' ''127.0.0.1'' 7072
     (add_data_node 2 ''data_node2'' ''127.0.0.1'' 7071
     (add_data_node 1 ''data_node1'' ''127.0.0.1'' 7070
     (add_raft_node 2 ''raft_node2'' ''127.0.0.1'' 8081
     (add_raft_node 1 ''raft_node1'' ''127.0.0.1'' 8080
     (set_port 8081
     (set_host ''127.0.0.1''
     (set_name ''node2''
     (set_member_id 2
     (set_cluster_id 1
     (set_data_dir ''./node2'' builder_options))))))))))"




section \<open>The data nodes and the auth node\<close>

definition data1_node :: DataNode where
  "data1_node = \<lparr>dn_id = 1, dn_host = ''0.0.0.0'', dn_port = 7070, dn_block_dir = ''node1''\<rparr>"

definition data2_node :: DataNode where
  "data2_node = \<lparr>dn_id = 2, dn_host = ''0.0.0.0'', dn_port = 7071, dn_block_dir = ''node2''\<rparr>"

definition data3_node :: DataNode where
  "data3_node = \<lparr>dn_id = 3, dn_host = ''0.0.0.0'', dn_port = 7072, dn_block_dir = ''node3''\<rparr>"

definition data1_main :: "'fs block_api \<Rightarrow> 'fs \<Rightarrow> 'fs outcome" where
  "data1_main A fs = DataNode_wait A data1_node fs"

definition data2_main :: "'fs block_api \<Rightarrow> 'fs \<Rightarrow> 'fs outcome" where
  "data2_main A fs = DataNode_wait A data2_node fs"

definition data3_main :: "'fs block_api \<Rightarrow> 'fs \<Rightarrow> 'fs outcome" where
  "data3_main A fs = DataNode_wait A data3_node fs"

definition auth_main :: "('db, 'row) sqlite \<Rightarrow> 'db AuthNode Result" where
  "auth_main S = AuthNode_create S ''vosfs-auth.db'' ''0.0.0.0'' 9000"

section \<open>Addresses\<close>

text \<open>A server that listens on \<open>0.0.0.0\<close> is reached at every address of its machine.\<close>

definition listens :: "string \<Rightarrow> u16 \<Rightarrow> string \<times> u16 \<Rightarrow> bool" where
  "listens host port a \<longleftrightarrow> snd a = port \<and> (fst a = host \<or> host = ''0.0.0.0'')"

definition raft_configs :: "(u64, Config) umap" where
  "raft_configs = [(1, raft1_config), (2, raft2_config)]"

definition data_programs :: "(u64, DataNode) umap" where
  "data_programs = [(1, data1_node), (2, data2_node), (3, data3_node)]"

definition calls_raft :: "u64 \<Rightarrow> string \<times> u16 \<Rightarrow> bool" where
  "calls_raft k a \<longleftrightarrow> (case um_find raft_configs k of None \<Rightarrow> False | Some c \<Rightarrow> cfg_member_id c = k \<and> listens (cfg_host c) (cfg_port c) a)"

definition calls_data :: "u64 \<Rightarrow> string \<times> u16 \<Rightarrow> bool" where
  "calls_data k a \<longleftrightarrow> (case um_find data_programs k of None \<Rightarrow> False | Some d \<Rightarrow> dn_id d = k \<and> listens (dn_host d) (dn_port d) a)"

lemma raft_configs_agree:
  "list_all (\<lambda>c. list_all (\<lambda>(k, n). ni_id n = k \<and> calls_raft k (ni_host n, ni_port n)) (cfg_raft_nodes c) \<and>
     list_all (\<lambda>n. calls_data (ni_id n) (ni_host n, ni_port n)) (cfg_data_nodes c)) (map snd raft_configs)"
  by code_simp

lemma client_config_agrees:
  "list_all (\<lambda>(k, a). calls_raft k a) (ui_clients (uc_raft_nodes main_config))"
  "list_all (\<lambda>(k, a). calls_data k a) (ui_clients (uc_data_nodes main_config))"
  by code_simp+

text \<open>
  The programs agree on their addresses: every raft node that a configuration file names, and every raft
  node the client knows, is the program with that member id, which listens there; every data node that the raft
  nodes name and the client knows is the program with that id; and the client's auth address is that
  of the auth program.
\<close>

lemma deployment_addresses:
  "list_all (\<lambda>c. list_all (\<lambda>(k, n). ni_id n = k \<and> calls_raft k (ni_host n, ni_port n)) (cfg_raft_nodes c) \<and>
       list_all (\<lambda>n. calls_data (ni_id n) (ni_host n, ni_port n)) (cfg_data_nodes c)) (map snd raft_configs) \<and>
     list_all (\<lambda>(k, a). calls_raft k a) (ui_clients (uc_raft_nodes main_config)) \<and>
     list_all (\<lambda>(k, a). calls_data k a) (ui_clients (uc_data_nodes main_config)) \<and>
     (case auth_main S of Inl e \<Rightarrow> True | Inr a \<Rightarrow> listens (an_host a) (an_port a) (uc_auth_host main_config, uc_auth_port main_config))"
proof -
  have "(uc_auth_host main_config, uc_auth_port main_config) = (''127.0.0.1'', 9000)" by code_simp
  then have "case auth_main S of Inl e \<Rightarrow> True | Inr a \<Rightarrow> listens (an_host a) (an_port a) (uc_auth_host main_config, uc_auth_port main_config)"
    by (auto simp: auth_main_def AuthNode_create_def listens_def split: option.splits prod.splits if_splits)
  with raft_configs_agree client_config_agrees show ?thesis by blast
qed

section \<open>The system comes up\<close>








end
