(* ===== verification/Rejoin.thy ===== *)
theory Rejoin
  imports Failover
begin

text \<open>
  A member that is restarted in a cluster at rest: it comes back with its log and its term from the
  database, with nothing committed and an initial name space, and one heartbeat of the leader makes it
  commit and apply the whole log again.
\<close>




text \<open>Three members at rest with the entry of one directory request; the second one is restarted.\<close>

definition ex_made :: LogEntry where
  "ex_made = \<lparr>le_term = 1, le_index = 1, le_command = ser_command ex_codec (CmdMkdir ex_mkdir)\<rparr>"



definition ex_reopen :: ex_env_type where
  "ex_reopen = ex_env\<lparr>env_open := (\<lambda>_. Some (rn_persister (ex_follower [ex_made])))\<rparr>"

lemma ex_reopen_simps [simp]:
  "env_db ex_reopen = ex_db" "env_codec ex_reopen = ex_codec" "env_files ex_reopen = ex_files"
  "env_open ex_reopen p = Some (rn_persister (ex_follower [ex_made]))"
  by (simp_all add: ex_reopen_def)






end
