(* ===== verification/Client_Saver.thy ===== *)
theory Client_Saver
  imports Client_Theorems
begin

text \<open>
  \<open>update_transport_tasks_json\<close> of \<open>src/ui/client.cpp\<close>: the coroutine that saves the transport tasks every
  five seconds and once more at the end, when it opens the latch for which \<open>process_tasks\<close> waits. It is a
  state machine that the timer wakes; between two wakes the client handles any events.
\<close>

datatype saver = Asleep | Finished

text \<open>From the condition of the loop to the next \<open>sleep\<close>, or past the loop to its end.\<close>

definition saver_loop :: "('fs, 'j, 'tok) client_env \<Rightarrow> 'fs VosfsClient \<Rightarrow> (saver \<times> 'fs VosfsClient) outcome" where
  "saver_loop E c =
     (if \<not> vc_is_shutdown c then Done (Asleep, c)
      else co_await (save_transport_tasks_json E c) (\<lambda>c'. Done (Finished, c')))"

definition saver_wake :: "('fs, 'j, 'tok) client_env \<Rightarrow> 'fs VosfsClient \<Rightarrow> (saver \<times> 'fs VosfsClient) outcome" where
  "saver_wake E c = co_await (save_transport_tasks_json E c) (saver_loop E)"

text \<open>The client and its saver, interleaved.\<close>

datatype background_event = Handle client_event | Wake

fun background_step :: "('fs, 'j, 'tok) client_env \<Rightarrow> background_event \<Rightarrow> saver \<times> 'fs VosfsClient \<Rightarrow> (saver \<times> 'fs VosfsClient) outcome" where
  "background_step E (Handle e) (s, c) = co_await (client_step E e c) (\<lambda>c'. Done (s, c'))"
| "background_step E Wake (Asleep, c) = saver_wake E c"
| "background_step E Wake (Finished, c) = Done (Finished, c)"

lemma save_effect:
  assumes "save_transport_tasks_json E c = Done c'"
  obtains fs where "c' = c\<lparr>vc_disk := fs\<rparr>"
proof -
  from assms have "\<exists>fs. c' = c\<lparr>vc_disk := fs\<rparr>"
    by (auto simp: save_transport_tasks_json_def Let_def split: if_splits option.splits intro: exI [of _ "vc_disk c"])
  with that show thesis by blast
qed

lemma saver_wake_result:
  assumes "saver_wake E c = Done (s, c')"
  obtains fs where "s = Finished \<longleftrightarrow> vc_is_shutdown c" "save_transport_tasks_json E (c\<lparr>vc_disk := fs\<rparr>) = Done c'"
proof -
  from assms obtain c1 where c1: "save_transport_tasks_json E c = Done c1" and l: "saver_loop E c1 = Done (s, c')"
    by (auto simp: saver_wake_def co_await_Done_iff)
  obtain fs where fs: "c1 = c\<lparr>vc_disk := fs\<rparr>" by (rule save_effect [OF c1])
  show thesis
  proof (cases "vc_is_shutdown c")
    case True
    with l fs show thesis by (intro that [of fs]) (auto simp: saver_loop_def co_await_Done_iff)
  next
    case False
    with l fs c1 show thesis by (intro that [of "vc_disk c"]) (auto simp: saver_loop_def)
  qed
qed

text \<open>
  C22. Nothing is lost when the user closes the client: whatever it handles between the call of
  \<open>shutdown\<close> and the next wake of the saver, that wake ends the saver, which opens the latch for the main loop, and
  the client that the user logs in with later reads the transport tasks that there were at that moment, uploads and
  downloads, and queues the unacknowledged uploads. Before the shutdown a wake leaves the saver asleep again.
\<close>

theorem closing_keeps_tasks:
  assumes "json_spec (ce_json E)" and "text_spec (ce_texts E)"
    and "\<And>fs s. fst (tf_write (ce_texts E) fs (tasks_path (vc_session c)) s)"
    and "client_wf c" and "keyed (vc_upload_tasks c)" and "keyed (vc_download_tasks c)" and "se_token (vc_session c) \<noteq> []"
    and "background_step E Wake (Asleep, c) = Done (s, c1)"
    and "\<not> vc_locked c2" and "se_uid (vc_session c2) = se_uid (vc_session c)" and "vc_disk c2 = vc_disk c1"
  shows "(s = Finished \<longleftrightarrow> vc_is_shutdown c) \<and>
    (\<exists>c3 D. load_transport_tasks_json E c2 = Done c3 \<and> tasks_sim (vc_upload_tasks c) (vc_upload_tasks c3) \<and>
       tasks_sim (vc_download_tasks c) (vc_download_tasks c3) \<and>
       vc_tasks c3 = vc_tasks c2 @ concat (map upload_queue (um_values (vc_upload_tasks c3))) @ D)"
proof -
  have "saver_wake E c = Done (s, c1)" using assms(8) by simp
  then obtain fs where s: "s = Finished \<longleftrightarrow> vc_is_shutdown c" and c1: "save_transport_tasks_json E (c\<lparr>vc_disk := fs\<rparr>) = Done c1"
    by (rule saver_wake_result)
  have wf: "client_wf (c\<lparr>vc_disk := fs\<rparr>)" using assms(4) by (simp add: client_wf_def)
  show ?thesis using s saved_tasks_read [OF assms(1,2) _ wf _ _ _ c1 assms(9) _ assms(11)] assms(3,5-7,10) by simp
qed

theorem closing_keeps_tasks_witness:
  "\<exists>c1 c2 c3 D. handle_prepare_upload_file_response (RpcStatus True []) ex_placed
       ((ex_client Map.empty)\<lparr>vc_session := UserSession_default\<lparr>se_token := ''t''\<rparr>\<rparr>) = Done c1 \<and>
     run (background_step ex_client_env) [Handle UiShutdown, Wake] (Asleep, c1) = Done (Finished, c2) \<and>
     load_transport_tasks_json ex_client_env ((ex_client Map.empty)\<lparr>vc_disk := vc_disk c2\<rparr>) = Done c3 \<and>
     tasks_sim (vc_upload_tasks c1) (vc_upload_tasks c3) \<and>
     vc_tasks c3 = concat (map upload_queue (um_values (vc_upload_tasks c3))) @ D"
proof -
  let ?c0 = "(ex_client Map.empty)\<lparr>vc_session := UserSession_default\<lparr>se_token := ''t''\<rparr>\<rparr> :: (string \<rightharpoonup> string) VosfsClient"
  have wf0: "client_wf ?c0" by (simp add: ex_client_def VosfsClient_new_wf)
  obtain c1 where 1: "handle_prepare_upload_file_response (RpcStatus True []) ex_placed ?c0 = Done c1"
    "keyed (vc_upload_tasks c1)" "keyed (vc_download_tasks c1)" "vc_session c1 = UserSession_default\<lparr>se_token := ''t''\<rparr>"
    by (simp add: handle_prepare_upload_file_response_def ex_upload_defs make_task_def make_block_def um_emplace_def um_contains_def
        um_find_def do_upload_task_eq client_basics Let_def Status_ok_def Status_is_not_leader_def status_code_defs keyed_def)
  have wf: "client_wf c1" by (rule prepare_upload_wf [OF wf0 1(1)])
  define s1 where "s1 = client_shutdown c1"
  have f: "vc_upload_tasks (fold (\<lambda>i. tasks_emplace (ShutdownRaftClient i)) is c) = vc_upload_tasks c"
    "vc_download_tasks (fold (\<lambda>i. tasks_emplace (ShutdownRaftClient i)) is c) = vc_download_tasks c"
    "vc_session (fold (\<lambda>i. tasks_emplace (ShutdownRaftClient i)) is c) = vc_session c" for c :: "(string \<rightharpoonup> string) VosfsClient" and "is"
    by (induction "is" arbitrary: c) (simp_all add: tasks_emplace_def)
  have s1: "vc_upload_tasks s1 = vc_upload_tasks c1" "vc_download_tasks s1 = vc_download_tasks c1" "vc_session s1 = vc_session c1" "vc_is_shutdown s1"
    by (simp_all add: s1_def client_shutdown_def f) (simp_all add: tasks_emplace_def)
  have step: "client_step ex_client_env UiShutdown c1 = Done s1" by (simp add: s1_def)
  have wf1: "client_wf s1" using client_step_wf [OF ex_client_env_spec(3) wf step] .
  have "\<exists>s c2. background_step ex_client_env Wake (Asleep, s1) = Done (s, c2)"
    using 1(4) s1(3,4) by (simp add: saver_wake_def saver_loop_def save_transport_tasks_json_def ex_client_env_def ex_json_def Let_def)
  then obtain s c2 where w: "background_step ex_client_env Wake (Asleep, s1) = Done (s, c2)" by blast
  have x: "text_spec (ce_texts ex_client_env)" "\<And>fs s. fst (tf_write (ce_texts ex_client_env) fs (tasks_path (vc_session s1)) s)"
    by (simp_all add: ex_client_env_def ex_text_spec) (simp add: ex_texts_def)
  let ?c2 = "(ex_client Map.empty)\<lparr>vc_disk := vc_disk c2\<rparr> :: (string \<rightharpoonup> string) VosfsClient"
  have "(s = Finished \<longleftrightarrow> vc_is_shutdown s1) \<and> (\<exists>c3 D. load_transport_tasks_json ex_client_env ?c2 = Done c3 \<and>
      tasks_sim (vc_upload_tasks s1) (vc_upload_tasks c3) \<and> tasks_sim (vc_download_tasks s1) (vc_download_tasks c3) \<and>
      vc_tasks c3 = vc_tasks ?c2 @ concat (map upload_queue (um_values (vc_upload_tasks c3))) @ D)"
    by (rule closing_keeps_tasks [OF ex_client_env_spec(3) x wf1 _ _ _ w]) (use 1 s1 in \<open>simp_all add: ex_upload_defs\<close>)
  then obtain c3 D where c3: "s = Finished" "load_transport_tasks_json ex_client_env ?c2 = Done c3" "tasks_sim (vc_upload_tasks s1) (vc_upload_tasks c3)"
    "vc_tasks c3 = vc_tasks ?c2 @ concat (map upload_queue (um_values (vc_upload_tasks c3))) @ D" using s1(4) by blast
  have "run (background_step ex_client_env) [Handle UiShutdown, Wake] (Asleep, c1) = Done (Finished, c2)"
    using step w c3(1) by (simp del: client_step.simps)
  with 1(1) c3(2-4) s1(1) show ?thesis by (intro exI [of _ c1] exI [of _ c2] exI [of _ c3] exI [of _ D]) (simp add: ex_upload_defs)
qed

end
