(* ===== verification/Error_Format.thy ===== *)
theory Error_Format
  imports Common Std_Text
begin

text \<open>
  \<open>std::formatter<vosfs::Error>\<close> in \<open>include/vosfs/common/error.hpp\<close>: reading the format specification, and
  the text of an error. The text ends with the code, so a line of the log tells which error it was
  whatever \<open>strerror\<close> returns.
\<close>

text \<open>\<open>parse\<close> gets the specification from its first character on and returns the rest; \<open>None\<close> is \<open>format_error\<close>.\<close>

fun formatter_parse :: "string \<Rightarrow> string option" where
  "formatter_parse [] = Some []"
| "formatter_parse (c # cs) =
     (if c = CHR ''}'' then Some (c # cs)
      else (case cs of [] \<Rightarrow> Some [] | d # ds \<Rightarrow> if d \<noteq> CHR ''}'' then None else Some cs))"

definition formatter_format :: "(int \<Rightarrow> string) \<Rightarrow> Error \<Rightarrow> string" where
  "formatter_format strerror e =
     Error_message strerror e @ '' (error '' @ int_to_string (Error_code e) @ '')''"

text \<open>A specification is accepted up to the closing brace, with at most one character before it.\<close>

lemma formatter_parse_rest:
  assumes "formatter_parse s = Some r"
  shows "(r = [] \<or> hd r = CHR ''}'') \<and> (\<exists>p. s = p @ r \<and> length p \<le> 1)"
proof (cases s)
  case (Cons c cs)
  with assms show ?thesis by (cases "c = CHR ''}''"; cases cs) (auto split: if_splits)
qed (use assms in simp)

text \<open>The word behind the last space.\<close>

lemma last_word:
  assumes "CHR '' '' \<notin> set w"
  shows "takeWhile (\<lambda>c. c \<noteq> CHR '' '') (rev (m @ CHR '' '' # w)) = rev w"
  using assms by (simp add: takeWhile_append2 takeWhile_eq_all_conv) (auto simp: takeWhile_append)

lemma int_to_string_no_space: "CHR '' '' \<notin> set (int_to_string i)"
  using nat_digits_range [of "CHR '' ''"] by (auto simp: int_to_string_def)

theorem formatted_code:
  assumes "formatter_format strerror e = formatter_format strerror' e'"
  shows "Error_code e = Error_code e'"
proof -
  let ?w = "\<lambda>e. int_to_string (Error_code e) @ '')''"
  have w: "takeWhile (\<lambda>c. c \<noteq> CHR '' '') (rev (formatter_format s e)) = rev (?w e)" for s e
    using last_word [of "?w e" "Error_message s e @ '' (error''"] int_to_string_no_space [of "Error_code e"]
    by (simp add: formatter_format_def)
  have "rev (?w e) = rev (?w e')" using w [of strerror e] w [of strerror' e'] assms by simp
  then have "int_to_string (Error_code e) = int_to_string (Error_code e')" by simp
  then show ?thesis by (metis option.inject scan_int_to_string)
qed

end
