(* ===== verification/Spec2Isabelle.thy ===== *)
theory Spec2Isabelle
  imports Raft_Theorems Raft_Service Fs_Theorems Store_Theorems System_Theorems Client_Main Engine_Handles Redis_Client Election_Safety Rpc_Routes Deployment Rejoin Client_Saver Error_Format
begin

text \<open>
  \<^bold>\<open>Verification of vosfs, a file system replicated by Raft.\<close>

  vosfs has three servers. The Raft node (\<open>src/src/raft\<close>, \<open>src/include/vosfs/raft\<close>) keeps the name
  space: inodes and directory entries, changed by commands that its log replicates. The data node
  (\<open>src/src/storage/node.cpp\<close>) keeps the blocks of the files. The auth node
  (\<open>src/src/auth/node.cpp\<close>) registers users and issues the tokens that the two others check. The client
  (\<open>src/src/ui/client.cpp\<close>) asks the Raft leader to prepare an upload, sends the blocks to the data nodes
  it was told, and asks the leader to record the file; a download runs the other way round.

  \<^bold>\<open>How code becomes definitions.\<close> A class is a record of its members, a method is a function from the
  members to the members; \<open>uint64_t\<close> is \<open>u64 = 64 word\<close>, so arithmetic wraps as in C++;
  \<open>std::string\<close> is \<open>string\<close>; \<open>std::unordered_map\<close> is an association list in bucket order
  (\<open>Unordered_Map\<close>); a protobuf message is a record with one field per member and a \<open>_default\<close>
  constant. A coroutine that holds the node's mutex from its first to its last statement is one
  step. Its result is an \<open>outcome\<close>: \<open>Done\<close> with the result, \<open>Crashed\<close> for a failed \<open>assert\<close>, an
  unwrapped error or an exception that leaves the handler, \<open>Blocked\<close> for a mutex that is never released. \<open>std::expected\<close> is a sum, \<open>Inl\<close> being
  the error. The wall clock, random time-outs and the handles of suspended clients are arguments.

  \<^bold>\<open>Parameters.\<close> Code that is not in the repository is a record of functions: RocksDB (\<open>rocksdb\<close>, with
  \<open>rocksdb_spec\<close>), the protobuf wire format (\<open>codec\<close>), the file system (\<open>file_api\<close>, \<open>block_api\<close>), the
  token library (\<open>jwt\<close>, \<open>token_lib\<close>), SQLite (\<open>sqlite\<close>, one constructor of \<open>sql\<close> per statement text, with
  \<open>sqlite_spec\<close>), \<open>nlohmann::json\<close> (\<open>json_api\<close>, \<open>json_spec\<close>) and text streams (\<open>text_files\<close>), the client's
  file API and the rest of what it calls (\<open>client_env\<close>, \<open>file_spec\<close>), the hash of the standard
  library; \<open>env\<close> collects them for the Raft node. \<open>Raft_Example\<close> gives an instance of all of them for
  the Raft node, \<open>Fs_Theorems\<close>, \<open>Data_Node\<close>, \<open>Auth_Theorems\<close>, \<open>Json_Api\<close> and \<open>Client_Download\<close> have smaller
  ones; every theorem with a hypothesis is applied to such an instance.

  \<^bold>\<open>The theories.\<close>
  \<^item> \<open>VPrelude\<close>: types, \<open>outcome\<close>, words, reachability over a deterministic step function and the
    locale \<open>transition_system\<close> (a preorder and an invariant kept by every step hold along every
    run). \<open>Unordered_Map\<close>: the operations of \<open>std::unordered_map\<close>, with a locale of map laws.
  \<^item> \<open>Message_Text\<close>, \<open>Client_Text\<close>, \<open>Wire_Messages\<close>, \<open>Auth_Messages\<close>: texts of the answers and the message
    types of the protocols (\<open>src/api/raftpb\<close>, \<open>src/api/authpb\<close>). \<open>Std_Text\<close>: \<open>std::stoull\<close> and its
    relatives. \<open>Common\<close>, \<open>Error_Format\<close>: errors and their text, status codes, tokens, clock
    (\<open>include/vosfs/common\<close>).
  \<^item> \<open>Raft_Log\<close> (\<open>log.cpp\<close>): the log in memory; \<open>log_wf\<close> says that indices are consecutive; the locale
    of log laws gives what replication needs. \<open>Raft_Persister\<close> (\<open>persister.cpp\<close>,
    \<open>rocksdb_engine.hpp\<close>): the durable log and hard state, with an abstract store \<open>stored_of\<close> that
    every operation refines; entry keys are injective. \<open>Raft_Config\<close> (\<open>config.hpp\<close>,
    \<open>transport.cpp\<close>, \<open>peer.hpp\<close>). \<open>Raft_Snapshotter\<close> (\<open>snapshotter.cpp\<close>): snapshot files and chunked
    transfer.
  \<^item> \<open>Fs_State\<close> (\<open>state_machine.cpp\<close>): the name space and its operations. \<open>Fs_Invariant\<close>: the tree
    invariant. \<open>Fs_Props\<close>, \<open>Fs_Refine\<close>: the abstract file system, a map from paths to directories
    and files, and the simulation. \<open>Fs_Theorems\<close>: its properties.
  \<^item> \<open>Raft_Node\<close>, \<open>Raft_Handlers\<close> (\<open>node.cpp\<close>): the node's members, every message handler, the election
    and heartbeat timers, client requests, application, start and stop. \<open>Raft_Step\<close>: \<open>node_step\<close>, one
    event at one node, and the invariant of a node. \<open>Raft_Append\<close>, \<open>Raft_Commit\<close>, \<open>Raft_Replicate\<close>,
    \<open>Raft_Client\<close>: what the handlers do to the log, the commit index and the name space.
    \<open>Raft_Cluster\<close>: several nodes and all messages between them, each delivered at most once, in any
    order or never. \<open>Raft_Election\<close>: what each handler does to term, vote, role and votes counted;
    \<open>Election_Safety\<close>: the invariant of elections over the steps of a cluster. \<open>Write_Round\<close>: a write
    through a whole cluster, from one state at rest (\<open>settled\<close>) to the next. \<open>Failover\<close>: an election, from a
    cluster whose members have the same log to one at rest with a new leader; sequences of writes and
    changes of the leader; the first start. \<open>Rejoin\<close>: the restart of a member.
    \<open>Raft_Theorems\<close>, \<open>Raft_Service\<close>, \<open>Store_Theorems\<close>: the properties.
  \<^item> \<open>Rpc_Routes\<close> (\<open>peer.hpp\<close>, \<open>transport.cpp\<close>, the \<open>wait\<close> functions of the servers): the calls between the
    programs by address, service and method, and the handlers registered for them.
  \<^item> \<open>Data_Node\<close> (\<open>storage/node.cpp\<close>): blocks on disk. \<open>Deployment\<close> (\<open>src/tests\<close>): the programs that start the
    nodes, with their addresses.
  \<^item> \<open>Auth_Node\<close> (\<open>auth/node.cpp\<close>): users in the database. The handlers hold the mutex for one SQL statement
    at a time, so \<open>auth_step\<close> is one such section and the sections of different requests interleave.
    \<open>Auth_Theorems\<close>: the invariant of the table and the properties.
  \<^item> \<open>Json_Api\<close>, \<open>Config_Files\<close> (\<open>raft/config.hpp\<close>, \<open>storage/config.hpp\<close>, \<open>ui/config.hpp\<close>): the three
    configuration files.
  \<^item> \<open>Client_State\<close>, \<open>Client_Requests\<close>, \<open>Client_Handlers\<close> (\<open>ui/client.hpp\<close>, \<open>ui/client.cpp\<close>,
    \<open>ui/transport_task.hpp\<close>, \<open>ui/signal_brige.hpp\<close>, \<open>auth/user_session.hpp\<close>, \<open>common/util/sha256.hpp\<close>): session, queue of
    coroutines, transport tasks, every request and every handler, the file of transport tasks, the main
    loop. \<open>Client_Step\<close>: \<open>client_step\<close>, one event at the client, and its invariant. \<open>Client_Upload\<close>,
    \<open>Client_Download\<close>, \<open>Client_Theorems\<close>: the properties. \<open>Client_Saver\<close>: the coroutine
    that saves the transport tasks, interleaved with the client's events. \<open>Client_Main\<close> (\<open>ui/main.cpp\<close>): how the client is
    configured and started. \<open>System_Theorems\<close>: the client with the servers.
  \<^item> \<open>Resources\<close>: objects that own handles of a library, with a locale of what their factory, destructor,
    move constructor and move assignment promise, and that then every handle is freed once.
    \<open>Engine_Handles\<close> (\<open>rocksdb_engine.hpp\<close>) and \<open>Redis_Client\<close> (\<open>redis_client.hpp\<close>) interpret it.

  \<^bold>\<open>What is shown.\<close> Name space: the four operations refine the abstract file system, the tree invariant
  holds in every state, replicas that apply the same log agree, snapshots restore what they were
  taken from. Raft: terms never go back and are durable, votes are given once per term by a node
  that has not led in it, two leaders of one term are the same member unless a leader granted a vote in
  its own term, a batch that follows the log replaces its conflicting suffix in memory
  and on disk, one heartbeat extends a follower by up to 64 entries, a commit index needs a
  majority, committed entries are applied once and in order, a cluster at rest answers directory
  requests like one state machine and brings every member to its name space, whatever leaders it has one after
  the other; it comes up from empty data directories (\<open>RaftNode::create\<close> on the files that the programs under \<open>src/tests\<close> write),
  a restarted node has its log and term back, and one heartbeat gives it the name space again. Where the code departs from Raft, a theorem shows the departure: a leader votes again in
  its own term, retransmitted entries are stored twice, a follower with a longer log crashes the
  leader, entries of a leader are not durable, three members do not survive the loss of one, a
  snapshot is never sent, a saved snapshot is not found at the next start, followers do not learn
  the inode numbers a leader hands out. Calls: what a member or the client calls by service and method is
  registered by the server it goes to, for messages of that type.

  Auth node: no two users share a name or an id however the sections interleave, a registered user can
  log in and gets a token with its id, a deletion with a wrong password deletes nothing and reports
  success. Client: the blocks of an upload cover the file, the file is registered once when every
  data node has answered, in any order, blocks of a download in any order give the file, the tasks
  there are when the client is closed are those of the next login, the mutex is never waited for for ever, the main loop ends after a shutdown;
  answers are counted without looking at who sent them, so a repeated one completes an upload too
  early. Together: a file goes through the data nodes and comes back byte for byte, a node that does not
  lead sends the client to the leader it knows (and throws the client's handler when it knows none),
  registration and login open a session. Resources: no pointer of a RocksDB engine or Redis client is freed
  twice or lost by moves, self-assignment and destruction.

  \<^bold>\<open>Loops and bounds.\<close> \<open>apply_loop\<close> recurses on the distance from \<open>last_applied\<close> to the commit index.
  \<open>load_entries_loop\<close> is an option-valued partial function, since a database might hold every
  key; it is shown to return. The client side of a snapshot transfer has fuel; length of the file
  plus one is enough, since every chunk but the last is non-empty. \<open>split_blocks\<close> recurses on the file
  size. \<open>process_loop\<close>, the client's main loop, has fuel; one more than the number of batches of queued
  coroutines is enough.

  \<^bold>\<open>Not modelled.\<close> The QML pages and the Qt glue of the user interface, the RPC and coroutine runtime below the names of the methods, sockets, the generated wire encoders. Handlers of the
  Raft node are atomic, which the node's mutex gives; handlers of the client run on one thread and
  are taken as atomic, although they wait for the file API. The runs of a cluster at rest (\<open>settled\<close>) deliver the
  messages of a heartbeat or an election before the next one; election safety, terms and the invariants of a
  single node are shown for every order, delay and loss. Log matching over every order is not a property of
  this code: a batch that is sent again is stored a second time.
\<close>

section \<open>From a client request to the replicas\<close>

text \<open>
  A directory request at the leader, followed by one heartbeat to a follower
  that held the leader's log, leaves the follower with the leader's new log; the follower answers
  with success and with the index of the new entry.
\<close>

theorem write_reaches_follower:
  fixes ld fo :: "('db, 'fs) RaftNode"
  assumes "rn_role ld = kLeader" and "vertify_token (env_jwt E) (mdq_token q)"
    and "fresh_log (rn_logs ld)" and "length (rl_entries (rn_logs ld)) < 2 ^ 64 - 2"
    and "rn_logs fo = rn_logs ld" and "\<not> sp_locked (rn_snapshotter fo)" and "current_term fo \<le> current_term ld"
    and "writes_ok (env_db E)" and "env_ok E view"
  shows "\<exists>ld' fo' r rs. handle_make_dir_request E now h q ld = (ld', None) \<and>
    handle_append_entries_request E now' (heartbeat_request ld' (last_log_index (rn_logs ld) + 1)) fo = Done (fo', r, rs) \<and>
    aer_success r \<and> aer_last_log_index r = last_log_index (rn_logs ld) + 1 \<and> rn_logs fo' = rn_logs ld'"
proof -
  let ?k = "length (rl_entries (rn_logs ld))"
  let ?r = "RespMkdir (MakeDirResponse_default\<lparr>mdr_status_code := kFailed, mdr_message := msg_mkdir_unknown\<rparr>)"
  define ld' where "ld' = submit E h (CmdMkdir (q\<lparr>mdq_timestamp := now\<rparr>)) ?r ld"
  have h: "handle_make_dir_request E now h q ld = (ld', None)"
    using assms(1,2) by (simp add: handle_make_dir_request_def ld'_def)
  have wf: "log_wf (rn_logs ld)" and base: "rl_last_included_index (rn_logs ld) = 0"
    using assms(3) by (simp_all add: fresh_log_def)
  have last: "last_log_index (rn_logs ld) = of_nat ?k" by (simp add: last_log_index_def last_included_index_def base)
  have "unat (last_log_index (rn_logs ld)) < 2 ^ 64 - 1" using last_log_index_wf [OF wf] base assms(4) by simp
  then have "last_log_index (rn_logs ld) \<noteq> - 1" by (auto simp: unsigned_minus_1_eq_mask mask_eq_exp_minus_1)
  note log = submit_log [OF wf this, of E h "CmdMkdir (q\<lparr>mdq_timestamp := now\<rparr>)" ?r, folded ld'_def]
  obtain e where e: "rn_logs ld' = (rn_logs ld)\<lparr>rl_entries := rl_entries (rn_logs ld) @ [e]\<rparr>"
    and t: "current_term ld' = current_term ld"
    by (simp add: ld'_def submit_def Let_def append_entry_def)
  have pre: "rn_logs fo = log_prefix ?k (rn_logs ld')" using assms(5) e by (simp add: log_prefix_def)
  obtain fo' r rs where
    "handle_append_entries_request E now' (heartbeat_request ld' (rl_last_included_index (rn_logs ld') + of_nat ?k + 1)) fo = Done (fo', r, rs)"
    "aer_success r" "rn_logs fo' = log_prefix (?k + 64) (rn_logs ld')"
    "aer_last_log_index r = last_log_index (log_prefix (?k + 64) (rn_logs ld'))"
    by (rule replicate_prefix [OF log(1) _ pre _ assms(6) _ assms(8,9)]) (use assms e t in simp_all)
  moreover have "log_prefix (?k + 64) (rn_logs ld') = rn_logs ld'" by (simp add: log_prefix_def e)
  ultimately show ?thesis using h log(2) last e base by simp
qed

theorem write_reaches_follower_witness:
  "\<exists>ld' fo' r rs. handle_make_dir_request ex_env 9 4 ex_mkdir (ex_leader [ex_entry 1]) = (ld', None) \<and>
     handle_append_entries_request ex_env 10 (heartbeat_request ld' 2) (ex_follower [ex_entry 1]) = Done (fo', r, rs) \<and>
     aer_last_log_index r = 2 \<and> rn_logs fo' = rn_logs ld'"
proof -
  have "\<exists>ld' fo' r rs. handle_make_dir_request ex_env 9 4 ex_mkdir (ex_leader [ex_entry 1]) = (ld', None) \<and>
    handle_append_entries_request ex_env 10 (heartbeat_request ld' (last_log_index (rn_logs (ex_leader [ex_entry 1])) + 1))
      (ex_follower [ex_entry 1]) = Done (fo', r, rs) \<and>
    aer_success r \<and> aer_last_log_index r = last_log_index (rn_logs (ex_leader [ex_entry 1])) + 1 \<and> rn_logs fo' = rn_logs ld'"
    by (rule write_reaches_follower [where view = "\<lambda>db. db"])
      (simp_all add: ex_mkdir_def MakeDirRequest_default_def ex_writes_ok ex_env_ok)
  then show ?thesis by auto
qed



end
